theory Spec2Isabelle
  imports Main "HOL-Library.Word"
begin

section \<open>Clio: a shallow embedding of the argument parser\<close>

text \<open>
  The C library keeps every object on the heap and passes pointers around. The model keeps
  two typed heaps (options and parsers), each a total function from addresses to objects
  together with the next free address, so that several map keys can alias one option, as
  \<^verbatim>\<open>map_add_splitkey\<close> makes them do. C strings are \<open>string\<close>s without the terminating
  NUL; dynamic arrays (\<^verbatim>\<open>len\<close>, \<^verbatim>\<open>cap\<close>, storage) are lists, whose length is \<^verbatim>\<open>len\<close>.
  Every \<^verbatim>\<open>exit\<close> of the process is a value \<open>Inl\<close> of the result.
\<close>

subsection \<open>Process exit\<close>

datatype exit =
    Exit int string  \<comment> \<open>exit status, and the text printed just before\<close>
  | Undefined        \<comment> \<open>undefined behaviour: NULL or out-of-bounds access\<close>

fun exit_status :: "exit \<Rightarrow> int option" where
  "exit_status (Exit n _) = Some n"
| "exit_status Undefined = None"

definition newline :: char where
  "newline = CHR 0x0A"

definition quote :: char where
  "quote = CHR 0x27"

definition err :: "string \<Rightarrow> exit + 'a" where
  "err msg = Inl (Exit 1 (''Error: '' @ msg @ ''.'' @ [newline]))"

definition puts_exit0 :: "string \<Rightarrow> exit + 'a" where
  "puts_exit0 text = Inl (Exit 0 (text @ [newline]))"

subsection \<open>Characters and the C library\<close>

definition isdigit :: "char \<Rightarrow> bool" where
  "isdigit c = (c \<in> set ''0123456789'')"

definition isspace :: "char \<Rightarrow> bool" where
  "isspace c = (c \<in> set [CHR '' '', CHR 0x09, CHR 0x0A, CHR 0x0B, CHR 0x0C, CHR 0x0D])"

definition char_at :: "string \<Rightarrow> nat \<Rightarrow> char" where
  \<comment> \<open>\<^verbatim>\<open>s[i]\<close>; the byte at index \<^verbatim>\<open>strlen(s)\<close> is the terminating NUL\<close>
  "char_at s i = (if i < length s then s ! i else CHR 0x00)"

fun index_of :: "char \<Rightarrow> string \<Rightarrow> nat option" where
  "index_of c [] = None"
| "index_of c (d # ds) =
     (if c = d then Some 0 else (case index_of c ds of None \<Rightarrow> None | Some n \<Rightarrow> Some (Suc n)))"

definition digit_value :: "char \<Rightarrow> nat option" where
  \<comment> \<open>the value of a digit or letter in \<^verbatim>\<open>strtol\<close>, in any base up to 36\<close>
  "digit_value c =
     (case index_of c ''0123456789abcdefghijklmnopqrstuvwxyz'' of
        Some n \<Rightarrow> Some n
      | None \<Rightarrow>
         (case index_of c ''ABCDEFGHIJKLMNOPQRSTUVWXYZ'' of
            Some n \<Rightarrow> Some (n + 10)
          | None \<Rightarrow> None))"

definition is_digit_in :: "int \<Rightarrow> char \<Rightarrow> bool" where
  "is_digit_in base c = (case digit_value c of None \<Rightarrow> False | Some d \<Rightarrow> int d < base)"

fun digits_value :: "int \<Rightarrow> int \<Rightarrow> string \<Rightarrow> int" where
  "digits_value base acc [] = acc"
| "digits_value base acc (c # cs) =
     digits_value base (acc * base + (case digit_value c of None \<Rightarrow> 0 | Some d \<Rightarrow> int d)) cs"

definition LONG_MAX :: int where "LONG_MAX = 2 ^ 63 - 1"
definition LONG_MIN :: int where "LONG_MIN = - (2 ^ 63)"
definition INT_MAX :: int where "INT_MAX = 2 ^ 31 - 1"
definition INT_MIN :: int where "INT_MIN = - (2 ^ 31)"

text \<open>
  \<^verbatim>\<open>strtol(arg, &endptr, 0)\<close> of the C library (ISO C 7.22.1.4, on an LP64 platform):
  leading white space, an optional sign, base 16 after \<^verbatim>\<open>0x\<close> followed by a hexadecimal
  digit, base 8 after \<^verbatim>\<open>0\<close>, base 10 otherwise, then the longest run of digits. The
  result is the value (clamped to the range of \<^verbatim>\<open>long\<close>), the rest of the string at
  \<^verbatim>\<open>endptr\<close>, and whether \<^verbatim>\<open>errno\<close> is \<^verbatim>\<open>ERANGE\<close>. With no digits, nothing is converted:
  the value is 0 and \<^verbatim>\<open>endptr\<close> is the whole string.
\<close>

definition strtol :: "string \<Rightarrow> int \<times> string \<times> bool" where
  "strtol arg =
     (let s1 = dropWhile isspace arg;
          neg = (s1 \<noteq> [] \<and> hd s1 = CHR ''-'');
          s2 = (if s1 \<noteq> [] \<and> (hd s1 = CHR ''-'' \<or> hd s1 = CHR ''+'') then tl s1 else s1);
          hex = (length s2 \<ge> 3 \<and> hd s2 = CHR ''0'' \<and> (s2 ! 1 = CHR ''x'' \<or> s2 ! 1 = CHR ''X'')
                 \<and> is_digit_in 16 (s2 ! 2));
          base = (if hex then 16 else if s2 \<noteq> [] \<and> hd s2 = CHR ''0'' then 8 else 10);
          s3 = (if hex then drop 2 s2 else s2);
          ds = takeWhile (is_digit_in base) s3;
          rest = dropWhile (is_digit_in base) s3;
          v = (if neg then - digits_value base 0 ds else digits_value base 0 ds)
      in if ds = [] then (0, arg, False)
         else if v > LONG_MAX then (LONG_MAX, rest, True)
         else if v < LONG_MIN then (LONG_MIN, rest, True)
         else (v, rest, False))"

definition try_str_to_int :: "string \<Rightarrow> exit + 32 word" where
  "try_str_to_int arg =
     (case strtol arg of (result, endptr, erange) \<Rightarrow>
        if erange \<or> result > INT_MAX \<or> result < INT_MIN
        then err ([quote] @ arg @ [quote] @ '' is out of range'')
        else if endptr \<noteq> []
        then err (''cannot parse '' @ [quote] @ arg @ [quote] @ '' as an integer'')
        else Inr (word_of_int result))"

text \<open>
  \<^verbatim>\<open>strtod\<close> is taken as a parameter: the value (of an abstract type of doubles), the rest
  of the string at \<^verbatim>\<open>endptr\<close>, and whether \<^verbatim>\<open>errno\<close> is \<^verbatim>\<open>ERANGE\<close>.
\<close>

definition try_str_to_double :: "(string \<Rightarrow> 'f \<times> string \<times> bool) \<Rightarrow> string \<Rightarrow> exit + 'f" where
  "try_str_to_double strtod_fn arg =
     (case strtod_fn arg of (result, endptr, erange) \<Rightarrow>
        if erange
        then err ([quote] @ arg @ [quote] @ '' is out of range'')
        else if endptr \<noteq> []
        then err (''cannot parse '' @ [quote] @ arg @ [quote] @ '' as a float'')
        else Inr result)"

subsection \<open>Map\<close>

text \<open>A map is its list of entries, in insertion order; a value is a pointer.\<close>

type_synonym 'v Map = "(string \<times> 'v) list"

definition map_new :: "'v Map" where
  "map_new = []"

definition map_add :: "'v Map \<Rightarrow> string \<Rightarrow> 'v \<Rightarrow> 'v Map" where
  "map_add m key v = m @ [(key, v)]"

fun strtok_all :: "string \<Rightarrow> string \<Rightarrow> string list" where
  \<comment> \<open>the tokens that repeated \<^verbatim>\<open>strtok_r(..., " ", ...)\<close> yields; the first argument is the
     token read so far\<close>
  "strtok_all cur [] = (if cur = [] then [] else [cur])"
| "strtok_all cur (c # cs) =
     (if c = CHR '' ''
      then (if cur = [] then strtok_all [] cs else cur # strtok_all [] cs)
      else strtok_all (cur @ [c]) cs)"

definition map_add_splitkey :: "'v Map \<Rightarrow> string \<Rightarrow> 'v \<Rightarrow> 'v Map" where
  "map_add_splitkey m keystr v = foldl (\<lambda>m' key. map_add m' key v) m (strtok_all [] keystr)"

fun map_contains :: "'v Map \<Rightarrow> string \<Rightarrow> bool" where
  "map_contains [] key = False"
| "map_contains ((k, v) # es) key = (if key = k then True else map_contains es key)"

fun map_get :: "'v Map \<Rightarrow> string \<Rightarrow> 'v option" where
  \<comment> \<open>\<open>None\<close> is the NULL that \<^verbatim>\<open>map_get\<close> returns for a missing key\<close>
  "map_get [] key = None"
| "map_get ((k, v) # es) key = (if key = k then Some v else map_get es key)"

subsection \<open>Options\<close>

datatype OptionType = FLAG | STRING | INTEGER | FLOAT

datatype 'f OptionValue =
    bool_val bool
  | str_val string
  | int_val "32 word"
  | float_val 'f

record 'f Option =
  otype :: OptionType
  found :: bool
  greedy :: bool
  vals :: "'f OptionValue list"

definition option_clear :: "'f Option \<Rightarrow> 'f Option" where
  "option_clear opt = opt\<lparr>vals := []\<rparr>"

definition option_append :: "'f Option \<Rightarrow> 'f OptionValue \<Rightarrow> 'f Option" where
  "option_append opt v = opt\<lparr>vals := vals opt @ [v]\<rparr>"

definition option_set_flag :: "'f Option \<Rightarrow> bool \<Rightarrow> 'f Option" where
  "option_set_flag opt v = option_append opt (bool_val v)"

definition option_set_str :: "'f Option \<Rightarrow> string \<Rightarrow> 'f Option" where
  "option_set_str opt v = option_append opt (str_val v)"

definition option_set_int :: "'f Option \<Rightarrow> 32 word \<Rightarrow> 'f Option" where
  "option_set_int opt v = option_append opt (int_val v)"

definition option_set_float :: "'f Option \<Rightarrow> 'f \<Rightarrow> 'f Option" where
  "option_set_float opt v = option_append opt (float_val v)"

definition option_try_set ::
  "(string \<Rightarrow> 'f \<times> string \<times> bool) \<Rightarrow> 'f Option \<Rightarrow> string \<Rightarrow> exit + 'f Option" where
  "option_try_set strtod_fn opt arg =
     (if otype opt = STRING then Inr (option_set_str opt arg)
      else if otype opt = INTEGER then
        (case try_str_to_int arg of Inl e \<Rightarrow> Inl e | Inr v \<Rightarrow> Inr (option_set_int opt v))
      else if otype opt = FLOAT then
        (case try_str_to_double strtod_fn arg of
           Inl e \<Rightarrow> Inl e
         | Inr v \<Rightarrow> Inr (option_set_float opt v))
      else Inr opt)"

definition option_new :: "OptionType \<Rightarrow> 'f Option" where
  \<comment> \<open>\<^verbatim>\<open>option_new\<close> leaves \<^verbatim>\<open>type\<close> unset and each caller sets it at once: here it is an
     argument\<close>
  "option_new t = \<lparr>otype = t, found = False, greedy = False, vals = []\<rparr>"

definition option_new_flag :: "unit \<Rightarrow> 'f Option" where
  "option_new_flag u = option_set_flag (option_new FLAG) False"

definition option_new_str :: "string \<Rightarrow> 'f Option" where
  "option_new_str v = option_set_str (option_new STRING) v"

definition option_new_int :: "32 word \<Rightarrow> 'f Option" where
  "option_new_int v = option_set_int (option_new INTEGER) v"

definition option_new_float :: "'f \<Rightarrow> 'f Option" where
  "option_new_float v = option_set_float (option_new FLOAT) v"

definition option_new_flag_list :: "unit \<Rightarrow> 'f Option" where
  "option_new_flag_list u = option_new FLAG"

definition option_new_str_list :: "bool \<Rightarrow> 'f Option" where
  "option_new_str_list g = (option_new STRING)\<lparr>greedy := g\<rparr>"

definition option_new_int_list :: "bool \<Rightarrow> 'f Option" where
  "option_new_int_list g = (option_new INTEGER)\<lparr>greedy := g\<rparr>"

definition option_new_float_list :: "bool \<Rightarrow> 'f Option" where
  "option_new_float_list g = (option_new FLOAT)\<lparr>greedy := g\<rparr>"

text \<open>
  The getters read \<^verbatim>\<open>values[len - 1]\<close> through one member of the union. With no value the
  read is out of bounds, and through a member that was not stored it is not defined either.
\<close>

definition option_get_flag :: "'f Option \<Rightarrow> exit + bool" where
  "option_get_flag opt =
     (if vals opt = [] then Inl Undefined
      else (case last (vals opt) of bool_val b \<Rightarrow> Inr b | _ \<Rightarrow> Inl Undefined))"

definition option_get_str :: "'f Option \<Rightarrow> exit + string" where
  "option_get_str opt =
     (if vals opt = [] then Inl Undefined
      else (case last (vals opt) of str_val v \<Rightarrow> Inr v | _ \<Rightarrow> Inl Undefined))"

definition option_get_int :: "'f Option \<Rightarrow> exit + 32 word" where
  "option_get_int opt =
     (if vals opt = [] then Inl Undefined
      else (case last (vals opt) of int_val v \<Rightarrow> Inr v | _ \<Rightarrow> Inl Undefined))"

definition option_get_float :: "'f Option \<Rightarrow> exit + 'f" where
  "option_get_float opt =
     (if vals opt = [] then Inl Undefined
      else (case last (vals opt) of float_val v \<Rightarrow> Inr v | _ \<Rightarrow> Inl Undefined))"

fun the_strs :: "'f OptionValue list \<Rightarrow> exit + string list" where
  "the_strs [] = Inr []"
| "the_strs (str_val v # vs) = (case the_strs vs of Inl e \<Rightarrow> Inl e | Inr ws \<Rightarrow> Inr (v # ws))"
| "the_strs (_ # vs) = Inl Undefined"

definition option_get_str_list :: "'f Option \<Rightarrow> exit + string list" where
  \<comment> \<open>the copy of the values; NULL, here the empty list, when there is none\<close>
  "option_get_str_list opt = the_strs (vals opt)"

subsection \<open>ArgStream and ArgList\<close>

record ArgStream =
  index :: nat
  args :: "string list"  \<comment> \<open>the array of \<^verbatim>\<open>len\<close> strings\<close>

definition argstream_new :: "string list \<Rightarrow> ArgStream" where
  "argstream_new as = \<lparr>index = 0, args = as\<rparr>"

definition argstream_next :: "ArgStream \<Rightarrow> string \<times> ArgStream" where
  \<comment> \<open>every call in the source comes after a successful test for a next element\<close>
  "argstream_next stream = (args stream ! index stream, stream\<lparr>index := Suc (index stream)\<rparr>)"

definition argstream_peek :: "ArgStream \<Rightarrow> string" where
  "argstream_peek stream = args stream ! index stream"

definition argstream_has_next :: "ArgStream \<Rightarrow> bool" where
  "argstream_has_next stream = (index stream < length (args stream))"

definition argstream_has_next_value :: "ArgStream \<Rightarrow> bool" where
  "argstream_has_next_value stream =
     (if argstream_has_next stream then
        (let next = argstream_peek stream in
         if char_at next 0 = CHR ''-'' then
           (if length next = 1 \<or> isdigit (char_at next 1) then True else False)
         else True)
      else False)"

text \<open>
  The rule of the specification, in its words: a token is value-shaped unless it begins with
  \<^verbatim>\<open>-\<close> and is longer than one character and its second character is not a digit. The
  source has the rule inside \<^verbatim>\<open>argstream_has_next_value\<close> only; the two are compared below.
\<close>

definition value_shaped :: "string \<Rightarrow> bool" where
  "value_shaped tok =
     (\<not> (tok \<noteq> [] \<and> hd tok = CHR ''-'' \<and> (length tok > 1 \<and> \<not> isdigit (tok ! 1))))"

type_synonym ArgList = "string list"

definition arglist_new :: ArgList where
  "arglist_new = []"

definition arglist_append :: "ArgList \<Rightarrow> string \<Rightarrow> ArgList" where
  "arglist_append list arg = list @ [arg]"

subsection \<open>ArgParser and the heap\<close>

text \<open>
  Pointers to options and to parsers are addresses (\<open>nat\<close>); a pointer that may be NULL
  is an \<open>option\<close>. A callback is the name of a user function, or NULL.
\<close>

type_synonym CmdCB = "nat option"

record ArgParser =
  helptext :: "string option"
  version :: "string option"
  options :: "nat Map"
  commands :: "nat Map"
  callbacks :: "CmdCB Map"
  arguments :: ArgList
  cmd_name :: "string option"
  cmd_parser :: "nat option"
  parent :: "nat option"

record 'f heap =
  opt_mem :: "nat \<Rightarrow> 'f Option"
  opt_next :: nat
  parser_mem :: "nat \<Rightarrow> ArgParser"
  parser_next :: nat

text \<open>
  What the library calls and does not define: \<^verbatim>\<open>strtod\<close>, and the user's callbacks. A
  callback gets the command's parser and can do to the heap what the public interface
  allows, or exit; the argument stream is out of its reach.
\<close>

record 'f extern =
  strtod :: "string \<Rightarrow> 'f \<times> string \<times> bool"
  call :: "nat \<Rightarrow> nat \<Rightarrow> 'f heap \<Rightarrow> exit + 'f heap"

definition upd_opt :: "'f heap \<Rightarrow> nat \<Rightarrow> ('f Option \<Rightarrow> 'f Option) \<Rightarrow> 'f heap" where
  \<comment> \<open>a write through an \<^verbatim>\<open>Option*\<close>\<close>
  "upd_opt h opt f = h\<lparr>opt_mem := (opt_mem h)(opt := f (opt_mem h opt))\<rparr>"

definition upd_parser :: "'f heap \<Rightarrow> nat \<Rightarrow> (ArgParser \<Rightarrow> ArgParser) \<Rightarrow> 'f heap" where
  \<comment> \<open>a write through an \<^verbatim>\<open>ArgParser*\<close>\<close>
  "upd_parser h parser f = h\<lparr>parser_mem := (parser_mem h)(parser := f (parser_mem h parser))\<rparr>"

definition malloc_opt :: "'f heap \<Rightarrow> 'f Option \<Rightarrow> nat \<times> 'f heap" where
  "malloc_opt h opt =
     (opt_next h, h\<lparr>opt_mem := (opt_mem h)(opt_next h := opt), opt_next := Suc (opt_next h)\<rparr>)"

definition malloc_parser :: "'f heap \<Rightarrow> ArgParser \<Rightarrow> nat \<times> 'f heap" where
  "malloc_parser h parser =
     (parser_next h,
      h\<lparr>parser_mem := (parser_mem h)(parser_next h := parser), parser_next := Suc (parser_next h)\<rparr>)"

definition empty_heap :: "'f heap" where
  \<comment> \<open>nothing allocated yet; what lies at unallocated addresses is never read\<close>
  "empty_heap =
     \<lparr>opt_mem = (\<lambda>_. option_new FLAG), opt_next = 0,
      parser_mem = (\<lambda>_. \<lparr>helptext = None, version = None, options = [], commands = [],
                         callbacks = [], arguments = [], cmd_name = None, cmd_parser = None,
                         parent = None\<rparr>),
      parser_next = 0\<rparr>"

definition argparser_new :: "string option \<Rightarrow> string option \<Rightarrow> 'f heap \<Rightarrow> nat \<times> 'f heap" where
  "argparser_new help ver h =
     malloc_parser h
       \<lparr>helptext = help, version = ver, options = map_new, commands = map_new,
        callbacks = map_new, arguments = arglist_new, cmd_name = None, cmd_parser = None,
        parent = None\<rparr>"

subsection \<open>Registering options\<close>

definition register_opt :: "nat \<Rightarrow> string \<Rightarrow> 'f Option \<Rightarrow> 'f heap \<Rightarrow> 'f heap" where
  \<comment> \<open>the two lines every \<^verbatim>\<open>argparser_add_...\<close> function has: allocate the option, add it
     under each of its keys\<close>
  "register_opt parser name opt h =
     (case malloc_opt h opt of (p, h1) \<Rightarrow>
        upd_parser h1 parser (\<lambda>ps. ps\<lparr>options := map_add_splitkey (options ps) name p\<rparr>))"

definition argparser_add_flag :: "nat \<Rightarrow> string \<Rightarrow> 'f heap \<Rightarrow> 'f heap" where
  "argparser_add_flag parser name h = register_opt parser name (option_new_flag ()) h"

definition argparser_add_str :: "nat \<Rightarrow> string \<Rightarrow> string \<Rightarrow> 'f heap \<Rightarrow> 'f heap" where
  "argparser_add_str parser name v h = register_opt parser name (option_new_str v) h"

definition argparser_add_int :: "nat \<Rightarrow> string \<Rightarrow> 32 word \<Rightarrow> 'f heap \<Rightarrow> 'f heap" where
  "argparser_add_int parser name v h = register_opt parser name (option_new_int v) h"

definition argparser_add_float :: "nat \<Rightarrow> string \<Rightarrow> 'f \<Rightarrow> 'f heap \<Rightarrow> 'f heap" where
  "argparser_add_float parser name v h = register_opt parser name (option_new_float v) h"

definition argparser_add_flag_list :: "nat \<Rightarrow> string \<Rightarrow> 'f heap \<Rightarrow> 'f heap" where
  "argparser_add_flag_list parser name h = register_opt parser name (option_new_flag_list ()) h"

definition argparser_add_str_list :: "nat \<Rightarrow> string \<Rightarrow> bool \<Rightarrow> 'f heap \<Rightarrow> 'f heap" where
  "argparser_add_str_list parser name g h = register_opt parser name (option_new_str_list g) h"

definition argparser_add_int_list :: "nat \<Rightarrow> string \<Rightarrow> bool \<Rightarrow> 'f heap \<Rightarrow> 'f heap" where
  "argparser_add_int_list parser name g h = register_opt parser name (option_new_int_list g) h"

definition argparser_add_float_list :: "nat \<Rightarrow> string \<Rightarrow> bool \<Rightarrow> 'f heap \<Rightarrow> 'f heap" where
  "argparser_add_float_list parser name g h =
     register_opt parser name (option_new_float_list g) h"

subsection \<open>Retrieving and setting option values\<close>

definition argparser_get_opt :: "'f heap \<Rightarrow> nat \<Rightarrow> string \<Rightarrow> exit + nat" where
  "argparser_get_opt h parser name =
     (case map_get (options (parser_mem h parser)) name of
        None \<Rightarrow>
          Inl (Exit 1 (''Abort: '' @ [quote] @ name @ [quote] @ '' is not a registered option.''
                       @ [newline]))
      | Some opt \<Rightarrow> Inr opt)"

definition argparser_found :: "'f heap \<Rightarrow> nat \<Rightarrow> string \<Rightarrow> exit + bool" where
  "argparser_found h parser name =
     (case argparser_get_opt h parser name of
        Inl e \<Rightarrow> Inl e
      | Inr opt \<Rightarrow> Inr (found (opt_mem h opt)))"

definition argparser_get_flag :: "'f heap \<Rightarrow> nat \<Rightarrow> string \<Rightarrow> exit + bool" where
  "argparser_get_flag h parser name =
     (case argparser_get_opt h parser name of
        Inl e \<Rightarrow> Inl e
      | Inr opt \<Rightarrow> option_get_flag (opt_mem h opt))"

definition argparser_get_str :: "'f heap \<Rightarrow> nat \<Rightarrow> string \<Rightarrow> exit + string" where
  "argparser_get_str h parser name =
     (case argparser_get_opt h parser name of
        Inl e \<Rightarrow> Inl e
      | Inr opt \<Rightarrow> option_get_str (opt_mem h opt))"

definition argparser_get_int :: "'f heap \<Rightarrow> nat \<Rightarrow> string \<Rightarrow> exit + 32 word" where
  "argparser_get_int h parser name =
     (case argparser_get_opt h parser name of
        Inl e \<Rightarrow> Inl e
      | Inr opt \<Rightarrow> option_get_int (opt_mem h opt))"

definition argparser_get_float :: "'f heap \<Rightarrow> nat \<Rightarrow> string \<Rightarrow> exit + 'f" where
  "argparser_get_float h parser name =
     (case argparser_get_opt h parser name of
        Inl e \<Rightarrow> Inl e
      | Inr opt \<Rightarrow> option_get_float (opt_mem h opt))"

definition argparser_len_list :: "'f heap \<Rightarrow> nat \<Rightarrow> string \<Rightarrow> exit + nat" where
  "argparser_len_list h parser name =
     (case argparser_get_opt h parser name of
        Inl e \<Rightarrow> Inl e
      | Inr opt \<Rightarrow> Inr (length (vals (opt_mem h opt))))"

definition argparser_get_str_list :: "'f heap \<Rightarrow> nat \<Rightarrow> string \<Rightarrow> exit + string list" where
  "argparser_get_str_list h parser name =
     (case argparser_get_opt h parser name of
        Inl e \<Rightarrow> Inl e
      | Inr opt \<Rightarrow> option_get_str_list (opt_mem h opt))"

definition argparser_clear_list :: "nat \<Rightarrow> string \<Rightarrow> 'f heap \<Rightarrow> exit + 'f heap" where
  "argparser_clear_list parser name h =
     (case argparser_get_opt h parser name of
        Inl e \<Rightarrow> Inl e
      | Inr opt \<Rightarrow> Inr (upd_opt h opt option_clear))"

definition argparser_set_flag :: "nat \<Rightarrow> string \<Rightarrow> bool \<Rightarrow> 'f heap \<Rightarrow> exit + 'f heap" where
  "argparser_set_flag parser name v h =
     (case argparser_get_opt h parser name of
        Inl e \<Rightarrow> Inl e
      | Inr opt \<Rightarrow> Inr (upd_opt h opt (\<lambda>x. option_set_flag x v)))"

definition argparser_set_str :: "nat \<Rightarrow> string \<Rightarrow> string \<Rightarrow> 'f heap \<Rightarrow> exit + 'f heap" where
  "argparser_set_str parser name v h =
     (case argparser_get_opt h parser name of
        Inl e \<Rightarrow> Inl e
      | Inr opt \<Rightarrow> Inr (upd_opt h opt (\<lambda>x. option_set_str x v)))"

definition argparser_set_int :: "nat \<Rightarrow> string \<Rightarrow> 32 word \<Rightarrow> 'f heap \<Rightarrow> exit + 'f heap" where
  "argparser_set_int parser name v h =
     (case argparser_get_opt h parser name of
        Inl e \<Rightarrow> Inl e
      | Inr opt \<Rightarrow> Inr (upd_opt h opt (\<lambda>x. option_set_int x v)))"

definition argparser_set_float :: "nat \<Rightarrow> string \<Rightarrow> 'f \<Rightarrow> 'f heap \<Rightarrow> exit + 'f heap" where
  "argparser_set_float parser name v h =
     (case argparser_get_opt h parser name of
        Inl e \<Rightarrow> Inl e
      | Inr opt \<Rightarrow> Inr (upd_opt h opt (\<lambda>x. option_set_float x v)))"

subsection \<open>Positional arguments\<close>

definition argparser_has_args :: "'f heap \<Rightarrow> nat \<Rightarrow> bool" where
  "argparser_has_args h parser = (length (arguments (parser_mem h parser)) > 0)"

definition argparser_len_args :: "'f heap \<Rightarrow> nat \<Rightarrow> nat" where
  "argparser_len_args h parser = length (arguments (parser_mem h parser))"

definition argparser_get_args :: "'f heap \<Rightarrow> nat \<Rightarrow> string list" where
  "argparser_get_args h parser = arguments (parser_mem h parser)"

fun ints_of :: "string list \<Rightarrow> exit + 32 word list" where
  \<comment> \<open>the loop of \<^verbatim>\<open>argparser_get_args_as_ints\<close>: the first failure exits\<close>
  "ints_of [] = Inr []"
| "ints_of (a # as) =
     (case try_str_to_int a of
        Inl e \<Rightarrow> Inl e
      | Inr v \<Rightarrow> (case ints_of as of Inl e \<Rightarrow> Inl e | Inr vs \<Rightarrow> Inr (v # vs)))"

definition argparser_get_args_as_ints :: "'f heap \<Rightarrow> nat \<Rightarrow> exit + 32 word list" where
  "argparser_get_args_as_ints h parser = ints_of (arguments (parser_mem h parser))"

subsection \<open>Commands\<close>

definition argparser_add_cmd ::
  "nat \<Rightarrow> string \<Rightarrow> string option \<Rightarrow> CmdCB \<Rightarrow> 'f heap \<Rightarrow> nat \<times> 'f heap" where
  "argparser_add_cmd parser name help callback h =
     (case argparser_new help None h of (cmd, h1) \<Rightarrow>
        (let h2 = upd_parser h1 cmd (\<lambda>ps. ps\<lparr>parent := Some parser\<rparr>);
             h3 = upd_parser h2 parser
                    (\<lambda>ps. ps\<lparr>commands := map_add_splitkey (commands ps) name cmd\<rparr>);
             h4 = upd_parser h3 parser
                    (\<lambda>ps. ps\<lparr>callbacks := map_add_splitkey (callbacks ps) name callback\<rparr>)
         in (cmd, h4)))"

definition argparser_has_cmd :: "'f heap \<Rightarrow> nat \<Rightarrow> bool" where
  "argparser_has_cmd h parser = (cmd_name (parser_mem h parser) \<noteq> None)"

definition argparser_get_cmd_name :: "'f heap \<Rightarrow> nat \<Rightarrow> string option" where
  "argparser_get_cmd_name h parser = cmd_name (parser_mem h parser)"

definition argparser_get_cmd_parser :: "'f heap \<Rightarrow> nat \<Rightarrow> nat option" where
  "argparser_get_cmd_parser h parser = cmd_parser (parser_mem h parser)"

definition argparser_get_parent :: "'f heap \<Rightarrow> nat \<Rightarrow> nat option" where
  "argparser_get_parent h parser = parent (parser_mem h parser)"

subsection \<open>Parsing\<close>

definition option_try_set_at ::
  "'f extern \<Rightarrow> nat \<Rightarrow> string \<Rightarrow> 'f heap \<Rightarrow> exit + 'f heap" where
  \<comment> \<open>\<^verbatim>\<open>option_try_set(opt, arg)\<close> through the pointer\<close>
  "option_try_set_at E opt arg h =
     (case option_try_set (strtod E) (opt_mem h opt) arg of
        Inl e \<Rightarrow> Inl e
      | Inr x \<Rightarrow> Inr (upd_opt h opt (\<lambda>_. x)))"

definition argparser_parse_equals_option ::
  "'f extern \<Rightarrow> nat \<Rightarrow> string \<Rightarrow> string \<Rightarrow> 'f heap \<Rightarrow> exit + 'f heap" where
  "argparser_parse_equals_option E parser prefix arg h =
     (let name = takeWhile (\<lambda>c. c \<noteq> CHR ''='') arg;
          val = tl (dropWhile (\<lambda>c. c \<noteq> CHR ''='') arg)
      in case map_get (options (parser_mem h parser)) name of
           None \<Rightarrow> err (prefix @ name @ '' is not a recognised option'')
         | Some opt \<Rightarrow>
            (let h1 = upd_opt h opt (\<lambda>x. x\<lparr>found := True\<rparr>) in
             if otype (opt_mem h1 opt) = FLAG
             then err (''invalid format for boolean flag '' @ prefix @ name)
             else if length val = 0
             then err (''missing argument for the '' @ prefix @ name @ '' option'')
             else option_try_set_at E opt val h1))"

function greedy_loop ::
  "'f extern \<Rightarrow> nat \<Rightarrow> 'f heap \<times> ArgStream \<Rightarrow> exit + 'f heap \<times> ArgStream" where
  \<comment> \<open>\<^verbatim>\<open>while (argstream_has_next_value(stream)) option_try_set(opt, argstream_next(stream));\<close>\<close>
  "greedy_loop E opt (h, stream) =
     (if argstream_has_next_value stream then
        (case argstream_next stream of (arg, stream1) \<Rightarrow>
           (case option_try_set_at E opt arg h of
              Inl e \<Rightarrow> Inl e
            | Inr h1 \<Rightarrow> greedy_loop E opt (h1, stream1)))
      else Inr (h, stream))"
  by pat_completeness auto
termination
  by (relation "measure (\<lambda>(E, opt, h, stream). length (args stream) - index stream)")
     (auto simp: argstream_has_next_value_def argstream_has_next_def argstream_next_def
           split: if_splits)

definition take_value ::
  "'f extern \<Rightarrow> nat \<Rightarrow> 'f heap \<times> ArgStream \<Rightarrow> exit + 'f heap \<times> ArgStream" where
  \<comment> \<open>the branch of both option parsers that has found a following value: store it, and go
     on storing values if the option is greedy\<close>
  "take_value E opt st =
     (case st of (h, stream) \<Rightarrow>
        (case argstream_next stream of (arg, stream1) \<Rightarrow>
           (case option_try_set_at E opt arg h of
              Inl e \<Rightarrow> Inl e
            | Inr h1 \<Rightarrow>
               if greedy (opt_mem h1 opt) then greedy_loop E opt (h1, stream1)
               else Inr (h1, stream1))))"

definition argparser_parse_long_option ::
  "'f extern \<Rightarrow> nat \<Rightarrow> string \<Rightarrow> 'f heap \<times> ArgStream \<Rightarrow> exit + 'f heap \<times> ArgStream" where
  "argparser_parse_long_option E parser arg st =
     (case st of (h, stream) \<Rightarrow>
        if CHR ''='' \<in> set arg then
          (case argparser_parse_equals_option E parser ''--'' arg h of
             Inl e \<Rightarrow> Inl e
           | Inr h1 \<Rightarrow> Inr (h1, stream))
        else if map_contains (options (parser_mem h parser)) arg then
          (case map_get (options (parser_mem h parser)) arg of
             None \<Rightarrow> Inl Undefined
           | Some opt \<Rightarrow>
              (let h1 = upd_opt h opt (\<lambda>x. x\<lparr>found := True\<rparr>) in
               if otype (opt_mem h1 opt) = FLAG
               then Inr (upd_opt h1 opt (\<lambda>x. option_set_flag x True), stream)
               else if argstream_has_next_value stream
               then take_value E opt (h1, stream)
               else err (''missing argument for the --'' @ arg @ '' option'')))
        else if arg = ''help'' \<and> helptext (parser_mem h parser) \<noteq> None
        then (case helptext (parser_mem h parser) of
                Some text \<Rightarrow> puts_exit0 text
              | None \<Rightarrow> Inl Undefined)
        else if arg = ''version'' \<and> version (parser_mem h parser) \<noteq> None
        then (case version (parser_mem h parser) of
                Some text \<Rightarrow> puts_exit0 text
              | None \<Rightarrow> Inl Undefined)
        else err (''--'' @ arg @ '' is not a recognised option''))"

fun short_option_loop ::
  "'f extern \<Rightarrow> nat \<Rightarrow> string \<Rightarrow> 'f heap \<times> ArgStream \<Rightarrow> exit + 'f heap \<times> ArgStream" where
  \<comment> \<open>\<^verbatim>\<open>for (size_t i = 0; i < strlen(arg); i++)\<close>, on the characters from \<^verbatim>\<open>arg[i]\<close> on\<close>
  "short_option_loop E parser [] st = Inr st"
| "short_option_loop E parser (c # cs) (h, stream) =
     (let key = [c] in
      case map_get (options (parser_mem h parser)) key of
        None \<Rightarrow> err (''-'' @ key @ '' is not a recognised option'')
      | Some opt \<Rightarrow>
         (let h1 = upd_opt h opt (\<lambda>x. x\<lparr>found := True\<rparr>) in
          if otype (opt_mem h1 opt) = FLAG
          then short_option_loop E parser cs (upd_opt h1 opt (\<lambda>x. option_set_flag x True), stream)
          else if argstream_has_next_value stream
          then (case take_value E opt (h1, stream) of
                  Inl e \<Rightarrow> Inl e
                | Inr st1 \<Rightarrow> short_option_loop E parser cs st1)
          else err (''missing argument for the -'' @ key @ '' option'')))"

definition argparser_parse_short_option ::
  "'f extern \<Rightarrow> nat \<Rightarrow> string \<Rightarrow> 'f heap \<times> ArgStream \<Rightarrow> exit + 'f heap \<times> ArgStream" where
  "argparser_parse_short_option E parser arg st =
     (case st of (h, stream) \<Rightarrow>
        if CHR ''='' \<in> set arg then
          (case argparser_parse_equals_option E parser ''-'' arg h of
             Inl e \<Rightarrow> Inl e
           | Inr h1 \<Rightarrow> Inr (h1, stream))
        else short_option_loop E parser arg (h, stream))"

text \<open>
  \<^verbatim>\<open>argparser_parse_stream\<close>: the local \<^verbatim>\<open>parsing\<close> switch is the second argument, and one
  unfolding of the function is one turn of the \<^verbatim>\<open>while\<close> loop. A command's parser runs on
  the same stream, and the loop of the calling parser goes on after it.
\<close>

function (sequential) parse_stream_loop ::
  "'f extern \<Rightarrow> bool \<Rightarrow> nat \<Rightarrow> 'f heap \<times> ArgStream \<Rightarrow> exit + 'f heap \<times> ArgStream" where
  "parse_stream_loop E parsing parser (h, stream) =
     (if \<not> argstream_has_next stream then Inr (h, stream)
      else
        (case argstream_next stream of (arg, stream1) \<Rightarrow>
           if \<not> parsing then
             parse_stream_loop E parsing parser
               (upd_parser h parser (\<lambda>ps. ps\<lparr>arguments := arglist_append (arguments ps) arg\<rparr>),
                stream1)
           else if arg = ''--'' then parse_stream_loop E False parser (h, stream1)
           else if take 2 arg = ''--'' then
             (case argparser_parse_long_option E parser (drop 2 arg) (h, stream1) of
                Inl e \<Rightarrow> Inl e
              | Inr st1 \<Rightarrow> parse_stream_loop E parsing parser st1)
           else if char_at arg 0 = CHR ''-'' then
             (if length arg = 1 \<or> isdigit (char_at arg 1) then
                parse_stream_loop E parsing parser
                  (upd_parser h parser
                     (\<lambda>ps. ps\<lparr>arguments := arglist_append (arguments ps) arg\<rparr>),
                   stream1)
              else
                (case argparser_parse_short_option E parser (drop 1 arg) (h, stream1) of
                   Inl e \<Rightarrow> Inl e
                 | Inr st1 \<Rightarrow> parse_stream_loop E parsing parser st1))
           else if map_contains (commands (parser_mem h parser)) arg then
             (case map_get (commands (parser_mem h parser)) arg of
                None \<Rightarrow> Inl Undefined
              | Some cmd \<Rightarrow>
                 (let cmd_callback =
                        (case map_get (callbacks (parser_mem h parser)) arg of
                           None \<Rightarrow> None
                         | Some cb \<Rightarrow> cb);
                      h1 = upd_parser h parser
                             (\<lambda>ps. ps\<lparr>cmd_name := Some arg, cmd_parser := Some cmd\<rparr>)
                  in case parse_stream_loop E True cmd (h1, stream1) of
                       Inl e \<Rightarrow> Inl e
                     | Inr (h2, stream2) \<Rightarrow>
                        (case cmd_callback of
                           None \<Rightarrow> parse_stream_loop E parsing parser (h2, stream2)
                         | Some cb \<Rightarrow>
                            (case call E cb cmd h2 of
                               Inl e \<Rightarrow> Inl e
                             | Inr h3 \<Rightarrow> parse_stream_loop E parsing parser (h3, stream2)))))
           else if arg = ''help'' then
             (if argstream_has_next stream1 then
                (case argstream_next stream1 of (name, stream2) \<Rightarrow>
                   if map_contains (commands (parser_mem h parser)) name then
                     (case map_get (commands (parser_mem h parser)) name of
                        None \<Rightarrow> Inl Undefined
                      | Some cmd \<Rightarrow>
                         (case helptext (parser_mem h cmd) of
                            None \<Rightarrow> Inl Undefined
                          | Some text \<Rightarrow> puts_exit0 text))
                   else err ([quote] @ name @ [quote] @ '' is not a recognised command''))
              else err ''the help command requires an argument'')
           else
             parse_stream_loop E parsing parser
               (upd_parser h parser (\<lambda>ps. ps\<lparr>arguments := arglist_append (arguments ps) arg\<rparr>),
                stream1)))"
  by pat_completeness auto

definition argparser_parse_stream ::
  "'f extern \<Rightarrow> nat \<Rightarrow> 'f heap \<times> ArgStream \<Rightarrow> exit + 'f heap \<times> ArgStream" where
  "argparser_parse_stream E parser st = parse_stream_loop E True parser st"

definition argparser_parse :: "'f extern \<Rightarrow> nat \<Rightarrow> string list \<Rightarrow> 'f heap \<Rightarrow> exit + 'f heap" where
  "argparser_parse E parser as h =
     (case argparser_parse_stream E parser (h, argstream_new as) of
        Inl e \<Rightarrow> Inl e
      | Inr (h1, stream) \<Rightarrow> Inr h1)"

subsection \<open>Public interface\<close>

definition ap_new :: "string option \<Rightarrow> string option \<Rightarrow> 'f heap \<Rightarrow> nat \<times> 'f heap" where
  "ap_new help ver h = argparser_new help ver h"

definition ap_parse :: "'f extern \<Rightarrow> nat \<Rightarrow> string list \<Rightarrow> 'f heap \<Rightarrow> exit + 'f heap" where
  \<comment> \<open>\<^verbatim>\<open>argparser_parse(parser, argc - 1, argv + 1)\<close>: the program name is dropped\<close>
  "ap_parse E parser argv h = argparser_parse E parser (drop 1 argv) h"

definition ap_add_flag :: "nat \<Rightarrow> string \<Rightarrow> 'f heap \<Rightarrow> 'f heap" where
  "ap_add_flag parser name h = argparser_add_flag parser name h"

definition ap_add_str :: "nat \<Rightarrow> string \<Rightarrow> string \<Rightarrow> 'f heap \<Rightarrow> 'f heap" where
  "ap_add_str parser name v h = argparser_add_str parser name v h"

definition ap_add_int :: "nat \<Rightarrow> string \<Rightarrow> 32 word \<Rightarrow> 'f heap \<Rightarrow> 'f heap" where
  "ap_add_int parser name v h = argparser_add_int parser name v h"

definition ap_add_float :: "nat \<Rightarrow> string \<Rightarrow> 'f \<Rightarrow> 'f heap \<Rightarrow> 'f heap" where
  "ap_add_float parser name v h = argparser_add_float parser name v h"

definition ap_add_flag_list :: "nat \<Rightarrow> string \<Rightarrow> 'f heap \<Rightarrow> 'f heap" where
  "ap_add_flag_list parser name h = argparser_add_flag_list parser name h"

definition ap_add_str_list :: "nat \<Rightarrow> string \<Rightarrow> bool \<Rightarrow> 'f heap \<Rightarrow> 'f heap" where
  "ap_add_str_list parser name g h = argparser_add_str_list parser name g h"

definition ap_add_int_list :: "nat \<Rightarrow> string \<Rightarrow> bool \<Rightarrow> 'f heap \<Rightarrow> 'f heap" where
  "ap_add_int_list parser name g h = argparser_add_int_list parser name g h"

definition ap_add_float_list :: "nat \<Rightarrow> string \<Rightarrow> bool \<Rightarrow> 'f heap \<Rightarrow> 'f heap" where
  "ap_add_float_list parser name g h = argparser_add_float_list parser name g h"

definition ap_add_cmd ::
  "nat \<Rightarrow> string \<Rightarrow> string option \<Rightarrow> CmdCB \<Rightarrow> 'f heap \<Rightarrow> nat \<times> 'f heap" where
  "ap_add_cmd parser name help cb h = argparser_add_cmd parser name help cb h"

definition ap_found :: "'f heap \<Rightarrow> nat \<Rightarrow> string \<Rightarrow> exit + bool" where
  "ap_found h parser name = argparser_found h parser name"

definition ap_get_flag :: "'f heap \<Rightarrow> nat \<Rightarrow> string \<Rightarrow> exit + bool" where
  "ap_get_flag h parser name = argparser_get_flag h parser name"

definition ap_get_str :: "'f heap \<Rightarrow> nat \<Rightarrow> string \<Rightarrow> exit + string" where
  "ap_get_str h parser name = argparser_get_str h parser name"

definition ap_get_int :: "'f heap \<Rightarrow> nat \<Rightarrow> string \<Rightarrow> exit + 32 word" where
  "ap_get_int h parser name = argparser_get_int h parser name"

definition ap_get_float :: "'f heap \<Rightarrow> nat \<Rightarrow> string \<Rightarrow> exit + 'f" where
  "ap_get_float h parser name = argparser_get_float h parser name"

definition ap_len_list :: "'f heap \<Rightarrow> nat \<Rightarrow> string \<Rightarrow> exit + nat" where
  "ap_len_list h parser name = argparser_len_list h parser name"

definition ap_get_str_list :: "'f heap \<Rightarrow> nat \<Rightarrow> string \<Rightarrow> exit + string list" where
  "ap_get_str_list h parser name = argparser_get_str_list h parser name"

definition ap_clear_list :: "nat \<Rightarrow> string \<Rightarrow> 'f heap \<Rightarrow> exit + 'f heap" where
  "ap_clear_list parser name h = argparser_clear_list parser name h"

definition ap_set_flag :: "nat \<Rightarrow> string \<Rightarrow> bool \<Rightarrow> 'f heap \<Rightarrow> exit + 'f heap" where
  "ap_set_flag parser name v h = argparser_set_flag parser name v h"

definition ap_set_str :: "nat \<Rightarrow> string \<Rightarrow> string \<Rightarrow> 'f heap \<Rightarrow> exit + 'f heap" where
  "ap_set_str parser name v h = argparser_set_str parser name v h"

definition ap_set_int :: "nat \<Rightarrow> string \<Rightarrow> 32 word \<Rightarrow> 'f heap \<Rightarrow> exit + 'f heap" where
  "ap_set_int parser name v h = argparser_set_int parser name v h"

definition ap_set_float :: "nat \<Rightarrow> string \<Rightarrow> 'f \<Rightarrow> 'f heap \<Rightarrow> exit + 'f heap" where
  "ap_set_float parser name v h = argparser_set_float parser name v h"

definition ap_has_args :: "'f heap \<Rightarrow> nat \<Rightarrow> bool" where
  "ap_has_args h parser = argparser_has_args h parser"

definition ap_len_args :: "'f heap \<Rightarrow> nat \<Rightarrow> nat" where
  "ap_len_args h parser = argparser_len_args h parser"

definition ap_get_args :: "'f heap \<Rightarrow> nat \<Rightarrow> string list" where
  "ap_get_args h parser = argparser_get_args h parser"

definition ap_get_args_as_ints :: "'f heap \<Rightarrow> nat \<Rightarrow> exit + 32 word list" where
  "ap_get_args_as_ints h parser = argparser_get_args_as_ints h parser"

definition ap_has_cmd :: "'f heap \<Rightarrow> nat \<Rightarrow> bool" where
  "ap_has_cmd h parser = argparser_has_cmd h parser"

definition ap_get_cmd_name :: "'f heap \<Rightarrow> nat \<Rightarrow> string option" where
  "ap_get_cmd_name h parser = argparser_get_cmd_name h parser"

definition ap_get_cmd_parser :: "'f heap \<Rightarrow> nat \<Rightarrow> nat option" where
  "ap_get_cmd_parser h parser = argparser_get_cmd_parser h parser"

definition ap_get_parent :: "'f heap \<Rightarrow> nat \<Rightarrow> nat option" where
  "ap_get_parent h parser = argparser_get_parent h parser"

subsection \<open>The operations of the public interface that change the heap\<close>

text \<open>
  To speak of every public operation at once: the functions of the header that write to a
  parser or an option, each with its arguments, and what running one does. The functions
  that only read (\<^verbatim>\<open>ap_found\<close>, the getters, \<^verbatim>\<open>ap_has_args\<close> and so on) take the heap and
  give no heap back; \<^verbatim>\<open>ap_print\<close> only prints, and after \<^verbatim>\<open>ap_free\<close> there is no parser
  left to speak of.
\<close>

datatype 'f ap_call =
    Ap_new "string option" "string option"
  | Ap_parse nat "string list"
  | Ap_add_flag nat string
  | Ap_add_str nat string string
  | Ap_add_int nat string "32 word"
  | Ap_add_float nat string 'f
  | Ap_add_flag_list nat string
  | Ap_add_str_list nat string bool
  | Ap_add_int_list nat string bool
  | Ap_add_float_list nat string bool
  | Ap_add_cmd nat string "string option" CmdCB
  | Ap_clear_list nat string
  | Ap_set_flag nat string bool
  | Ap_set_str nat string string
  | Ap_set_int nat string "32 word"
  | Ap_set_float nat string 'f

fun ap_run :: "'f extern \<Rightarrow> 'f ap_call \<Rightarrow> 'f heap \<Rightarrow> exit + 'f heap" where
  "ap_run E (Ap_new help ver) h = Inr (snd (ap_new help ver h))"
| "ap_run E (Ap_parse parser argv) h = ap_parse E parser argv h"
| "ap_run E (Ap_add_flag parser name) h = Inr (ap_add_flag parser name h)"
| "ap_run E (Ap_add_str parser name v) h = Inr (ap_add_str parser name v h)"
| "ap_run E (Ap_add_int parser name v) h = Inr (ap_add_int parser name v h)"
| "ap_run E (Ap_add_float parser name v) h = Inr (ap_add_float parser name v h)"
| "ap_run E (Ap_add_flag_list parser name) h = Inr (ap_add_flag_list parser name h)"
| "ap_run E (Ap_add_str_list parser name g) h = Inr (ap_add_str_list parser name g h)"
| "ap_run E (Ap_add_int_list parser name g) h = Inr (ap_add_int_list parser name g h)"
| "ap_run E (Ap_add_float_list parser name g) h = Inr (ap_add_float_list parser name g h)"
| "ap_run E (Ap_add_cmd parser name help cb) h = Inr (snd (ap_add_cmd parser name help cb h))"
| "ap_run E (Ap_clear_list parser name) h = ap_clear_list parser name h"
| "ap_run E (Ap_set_flag parser name v) h = ap_set_flag parser name v h"
| "ap_run E (Ap_set_str parser name v) h = ap_set_str parser name v h"
| "ap_run E (Ap_set_int parser name v) h = ap_set_int parser name v h"
| "ap_run E (Ap_set_float parser name v) h = ap_set_float parser name v h"

fun is_clear_list :: "'f ap_call \<Rightarrow> bool" where
  "is_clear_list (Ap_clear_list parser name) = True"
| "is_clear_list _ = False"

text \<open>
  The option that a call empties: the one that \<^verbatim>\<open>ap_clear_list\<close> finds under the name it
  is given. No other call empties an option.
\<close>

fun cleared_by :: "'f heap \<Rightarrow> 'f ap_call \<Rightarrow> nat option" where
  "cleared_by h (Ap_clear_list parser name) = map_get (options (parser_mem h parser)) name"
| "cleared_by h _ = None"

text \<open>
  From one heap to a later one: no option is freed, and an allocated option that had a
  value still has one.
\<close>

definition nonempty_kept :: "'f heap \<Rightarrow> 'f heap \<Rightarrow> bool" where
  "nonempty_kept h h' =
     (opt_next h \<le> opt_next h' \<and>
      (\<forall>opt. opt < opt_next h \<and> vals (opt_mem h opt) \<noteq> [] \<longrightarrow> vals (opt_mem h' opt) \<noteq> []))"

subsection \<open>A concrete environment\<close>

text \<open>
  For concrete runs: doubles are not looked at (\<^verbatim>\<open>strtod\<close> converts nothing), and a callback
  returns at once.
\<close>

definition quiet_extern :: "unit extern" where
  "quiet_extern = \<lparr>strtod = (\<lambda>s. ((), s, False)), call = (\<lambda>cb parser h. Inr h)\<rparr>"

text \<open>Parsers built through the public interface, on an empty heap.\<close>

definition tags_heap :: "unit heap" where
  \<comment> \<open>one parser, at address 0, with the greedy string list \<^verbatim>\<open>tags\<close>\<close>
  "tags_heap =
     (case ap_new None None empty_heap of (root, h0) \<Rightarrow>
        ap_add_str_list root ''tags'' True h0)"

definition abc_heap :: "unit heap" where
  \<comment> \<open>one parser, at address 0, with the flags \<^verbatim>\<open>a\<close> and \<^verbatim>\<open>b\<close> and the string option \<^verbatim>\<open>c\<close>\<close>
  "abc_heap =
     (case ap_new None None empty_heap of (root, h0) \<Rightarrow>
        ap_add_str root ''c'' ''none'' (ap_add_flag root ''b'' (ap_add_flag root ''a'' h0)))"

definition push_heap :: "unit heap" where
  \<comment> \<open>a root parser, at address 0, with the command \<^verbatim>\<open>push\<close>, at address 1, that has the
     flag \<^verbatim>\<open>force\<close> and the callback 7\<close>
  "push_heap =
     (case ap_new (Some ''usage'') (Some ''1.0'') empty_heap of (root, h0) \<Rightarrow>
      case ap_add_cmd root ''push'' (Some ''push help'') (Some 7) h0 of (push, h1) \<Rightarrow>
        ap_add_flag push ''force'' h1)"

definition ab_heap :: "unit heap" where
  \<comment> \<open>one parser, at address 0, with the string options \<^verbatim>\<open>a\<close> and \<^verbatim>\<open>b\<close>\<close>
  "ab_heap =
     (case ap_new None None empty_heap of (root, h0) \<Rightarrow>
        ap_add_str root ''b'' ''none'' (ap_add_str root ''a'' ''none'' h0))"

definition name_heap :: "unit heap" where
  \<comment> \<open>one parser, at address 0, with the string option \<^verbatim>\<open>name\<close>\<close>
  "name_heap =
     (case ap_new None None empty_heap of (root, h0) \<Rightarrow>
        ap_add_str root ''name'' ''none'' h0)"

definition whole_extern :: "int extern" where
  \<comment> \<open>doubles that hold whole numbers only: \<^verbatim>\<open>strtod\<close> reads as \<^verbatim>\<open>strtol\<close> does\<close>
  "whole_extern = \<lparr>strtod = strtol, call = (\<lambda>cb parser h. Inr h)\<rparr>"

definition bundle_heap :: "unit heap" where
  \<comment> \<open>one parser, at address 0, with the string options \<^verbatim>\<open>a\<close> and \<^verbatim>\<open>b\<close>, the flag \<^verbatim>\<open>c\<close>
     and the greedy string list \<^verbatim>\<open>t\<close>\<close>
  "bundle_heap =
     (case ap_new None None empty_heap of (root, h0) \<Rightarrow>
        ap_add_str_list root ''t'' True
          (ap_add_flag root ''c''
             (ap_add_str root ''b'' ''none'' (ap_add_str root ''a'' ''none'' h0))))"

definition nums_heap :: "int heap" where
  \<comment> \<open>one parser, at address 0, with the greedy integer list \<^verbatim>\<open>ids\<close> and the greedy list
     of doubles \<^verbatim>\<open>nums\<close>\<close>
  "nums_heap =
     (case ap_new None None empty_heap of (root, h0) \<Rightarrow>
        ap_add_float_list root ''nums'' True (ap_add_int_list root ''ids'' True h0))"

definition with_arguments :: "string list \<Rightarrow> unit heap" where
  \<comment> \<open>a new parser, at address 0, that holds the given positional arguments\<close>
  "with_arguments as =
     upd_parser (snd (ap_new None None empty_heap)) 0 (\<lambda>ps. ps\<lparr>arguments := as\<rparr>)"

section \<open>Termination of the parser\<close>

declare greedy_loop.simps [simp del]

lemma greedy_loop_stream:
  "greedy_loop E opt (h, s) = Inr (h', s') \<Longrightarrow> args s' = args s \<and> index s \<le> index s'"
proof (induction E opt "(h, s)" arbitrary: h s rule: greedy_loop.induct)
  case (1 E opt h stream)
  show ?case
  proof (cases "argstream_has_next_value stream")
    case True
    with "1.prems" obtain h1 where
      a: "option_try_set_at E opt (fst (argstream_next stream)) h = Inr h1"
      and b: "greedy_loop E opt (h1, snd (argstream_next stream)) = Inr (h', s')"
      by (subst (asm) greedy_loop.simps) (auto split: prod.splits sum.splits)
    from "1.hyps"[OF True _ a, of "snd (argstream_next stream)"] b
    show ?thesis by (auto simp: argstream_next_def)
  next
    case False
    with "1.prems" show ?thesis by (subst (asm) greedy_loop.simps) simp
  qed
qed

lemma take_value_stream:
  "take_value E opt (h, s) = Inr (h', s') \<Longrightarrow> args s' = args s \<and> index s < index s'"
  by (auto simp: take_value_def argstream_next_def split: prod.splits sum.splits if_splits
           dest!: greedy_loop_stream)

lemma short_option_loop_stream:
  "short_option_loop E parser cs (h, s) = Inr (h', s') \<Longrightarrow> args s' = args s \<and> index s \<le> index s'"
proof (induction cs arbitrary: h s)
  case Nil
  then show ?case by simp
next
  case (Cons c cs)
  from Cons.prems obtain opt where
    g: "map_get (options (parser_mem h parser)) [c] = Some opt"
    by (auto simp: err_def Let_def split: option.splits)
  let ?h1 = "upd_opt h opt (\<lambda>x. x\<lparr>found := True\<rparr>)"
  show ?case
  proof (cases "otype (opt_mem ?h1 opt) = FLAG")
    case True
    with Cons.prems g have
      "short_option_loop E parser cs (upd_opt ?h1 opt (\<lambda>x. option_set_flag x True), s) = Inr (h', s')"
      by (simp add: Let_def)
    from Cons.IH[OF this] show ?thesis .
  next
    case False
    with Cons.prems g obtain h2 s2 where
      t: "take_value E opt (?h1, s) = Inr (h2, s2)"
      and r: "short_option_loop E parser cs (h2, s2) = Inr (h', s')"
      by (auto simp: err_def Let_def split: if_splits sum.splits)
    from take_value_stream[OF t] Cons.IH[OF r] show ?thesis by simp
  qed
qed

lemma parse_short_option_stream:
  "argparser_parse_short_option E parser arg (h, s) = Inr (h', s') \<Longrightarrow>
     args s' = args s \<and> index s \<le> index s'"
  by (auto simp: argparser_parse_short_option_def split: if_splits sum.splits
           dest!: short_option_loop_stream)

lemma parse_long_option_stream:
  "argparser_parse_long_option E parser arg (h, s) = Inr (h', s') \<Longrightarrow>
     args s' = args s \<and> index s \<le> index s'"
  by (auto simp: argparser_parse_long_option_def Let_def err_def puts_exit0_def
           split: if_splits sum.splits option.splits dest!: take_value_stream)


lemma parse_stream_loop_exhausts:
  "parse_stream_loop_dom (E, parsing, parser, st) \<Longrightarrow>
   \<forall>h' s'. parse_stream_loop E parsing parser st = Inr (h', s') \<longrightarrow> \<not> argstream_has_next s'"
proof (induction rule: parse_stream_loop.pinduct)
  case (1 E parsing parser h stream)
  note unfold = parse_stream_loop.psimps[OF "1.hyps"]
  show ?case
  proof (cases "argstream_has_next stream")
    case False
    then show ?thesis by (simp add: unfold)
  next
    case True
    obtain arg stream1 where nx: "argstream_next stream = (arg, stream1)"
      by (cases "argstream_next stream")
    note ih = "1.IH"[of arg stream1, simplified True nx[symmetric], simplified]
    show ?thesis
    proof (cases parsing)
      case False
      show ?thesis unfolding unfold using True nx ih(1) False by simp
    next
      case parsing: True
      show ?thesis
      proof (cases "arg = ''--''")
        case True
        show ?thesis unfolding unfold
          using \<open>argstream_has_next stream\<close> parsing nx ih(2) True by simp
      next
        case nodd: False
        show ?thesis
        proof (cases "take 2 arg = ''--''")
          case True
          show ?thesis unfolding unfold
            using \<open>argstream_has_next stream\<close> parsing nx ih(3) nodd True
            by (simp split: sum.splits)
        next
          case nolong: False
          show ?thesis
          proof (cases "char_at arg 0 = CHR ''-''")
            case True
            show ?thesis unfolding unfold
              using \<open>argstream_has_next stream\<close> parsing nx ih(4,5) nodd nolong True
              by (simp split: sum.splits)
          next
            case nodash: False
            show ?thesis
            proof (cases "map_contains (commands (parser_mem h parser)) arg")
              case True
              show ?thesis
              proof (intro allI impI)
                fix h' s'
                assume r0: "parse_stream_loop E parsing parser (h, stream) = Inr (h', s')"
                let ?cb = "case map_get (callbacks (parser_mem h parser)) arg of
                             None \<Rightarrow> None | Some cb \<Rightarrow> cb"
                from r0[unfolded unfold] \<open>argstream_has_next stream\<close> parsing nx nodd nolong
                  nodash True
                obtain cmd where mg: "map_get (commands (parser_mem h parser)) arg = Some cmd"
                  by (cases "map_get (commands (parser_mem h parser)) arg") simp_all
                let ?h1 = "upd_parser h parser
                             (\<lambda>ps. ps\<lparr>cmd_name := Some arg, cmd_parser := Some cmd\<rparr>)"
                from r0[unfolded unfold] \<open>argstream_has_next stream\<close> parsing nx nodd nolong
                  nodash True mg
                obtain h2 s2 where
                  inner: "parse_stream_loop E True cmd (?h1, stream1) = Inr (h2, s2)"
                  by (cases "parse_stream_loop E True cmd (?h1, stream1)") (auto simp: Let_def)
                show "\<not> argstream_has_next s'"
                proof (cases ?cb)
                  case None
                  with r0[unfolded unfold] \<open>argstream_has_next stream\<close> parsing nx nodd nolong
                    nodash True mg inner
                  have "parse_stream_loop E parsing parser (h2, s2) = Inr (h', s')"
                    by (simp add: Let_def)
                  moreover from "1.IH"(7)[of arg stream1 cmd ?cb ?h1 "(h2, s2)" h2 s2]
                    \<open>argstream_has_next stream\<close> parsing nx nodd nolong nodash True mg inner None
                  have "\<forall>h' s'. parse_stream_loop E parsing parser (h2, s2) = Inr (h', s') \<longrightarrow>
                          \<not> argstream_has_next s'"
                    by simp
                  ultimately show ?thesis by blast
                next
                  case (Some cb)
                  with r0[unfolded unfold] \<open>argstream_has_next stream\<close> parsing nx nodd nolong
                    nodash True mg inner
                  obtain h3 where c: "call E cb cmd h2 = Inr h3"
                    and r: "parse_stream_loop E parsing parser (h3, s2) = Inr (h', s')"
                    by (cases "call E cb cmd h2") (auto simp: Let_def)
                  from "1.IH"(8)[of arg stream1 cmd ?cb ?h1 "(h2, s2)" h2 s2 cb h3]
                    \<open>argstream_has_next stream\<close> parsing nx nodd nolong nodash True mg inner Some c
                  have "\<forall>h' s'. parse_stream_loop E parsing parser (h3, s2) = Inr (h', s') \<longrightarrow>
                          \<not> argstream_has_next s'"
                    by simp
                  with r show ?thesis by blast
                qed
              qed
            next
              case nocmd: False
              show ?thesis unfolding unfold
                using \<open>argstream_has_next stream\<close> parsing nx ih(9) nodd nolong nodash nocmd
                by (simp add: err_def puts_exit0_def split: option.splits prod.splits)
            qed
          qed
        qed
      qed
    qed
  qed
qed


lemma remaining_after_option:
  "args s' = args s1 \<and> index s1 \<le> index s' \<Longrightarrow> argstream_has_next s \<Longrightarrow>
   (arg, s1) = argstream_next s \<Longrightarrow>
   length (args s') - index s' < length (args s) - index s"
  by (auto simp: argstream_has_next_def argstream_next_def)

lemma remaining_after_command:
  "\<not> argstream_has_next s' \<Longrightarrow> argstream_has_next s \<Longrightarrow>
   length (args s') - index s' < length (args s) - index s"
  by (auto simp: argstream_has_next_def)

lemma remaining_after_next:
  "argstream_has_next s \<Longrightarrow> (arg, s1) = argstream_next s \<Longrightarrow>
   length (args s1) - index s1 < length (args s) - index s"
  by (auto simp: argstream_has_next_def argstream_next_def)

lemma parse_stream_loop_total: "All parse_stream_loop_dom"
proof (rule "parse_stream_loop.termination"
         [where R = "measure (\<lambda>(E, parsing, parser, h, stream).
                                length (args stream) - index stream)"],
       goal_cases)
  case 1
  show ?case by simp
next
  case (2 E parsing parser h stream x y)
  then show ?case by (simp add: remaining_after_next)
next
  case (3 E parsing parser h stream x y)
  then show ?case by (simp add: remaining_after_next)
next
  case (4 E parsing parser h stream x y b)
  from parse_long_option_stream[of E parser "drop 2 x" h y "fst b" "snd b"] 4
  show ?case by (cases b) (auto simp: argstream_has_next_def argstream_next_def)
next
  case (5 E parsing parser h stream x y)
  then show ?case by (simp add: remaining_after_next)
next
  case (6 E parsing parser h stream x y b)
  from parse_short_option_stream[of E parser "drop 1 x" h y "fst b" "snd b"] 6
  show ?case by (cases b) (auto simp: argstream_has_next_def argstream_next_def)
next
  case (7 E parsing parser h stream x y x2 xa xb)
  then show ?case by (simp add: remaining_after_next)
next
  case (8 E parsing parser h stream x y x2 xa xb b xc ya)
  from 8 parse_stream_loop_exhausts[of E True x2 "(xb, y)"] have "\<not> argstream_has_next ya"
    by (cases b) auto
  with 8(1) show ?case by (simp add: remaining_after_command)
next
  case (9 E parsing parser h stream x y x2 xa xb b xc ya x2a ba)
  from 9 parse_stream_loop_exhausts[of E True x2 "(xb, y)"] have "\<not> argstream_has_next ya"
    by (cases b) auto
  with 9(1) show ?case by (simp add: remaining_after_command)
next
  case (10 E parsing parser h stream x y)
  then show ?case by (simp add: remaining_after_next)
qed

termination parse_stream_loop
  by (rule parse_stream_loop_total)

declare parse_stream_loop.simps [simp del]

lemma parse_stream_loop_ends:
  "parse_stream_loop E parsing parser st = Inr (h', s') \<Longrightarrow> \<not> argstream_has_next s'"
  using parse_stream_loop_exhausts[of E parsing parser st] parse_stream_loop_total
  by blast

section \<open>The claims\<close>

lemmas stream_defs = argstream_has_next_def argstream_next_def argstream_peek_def
  argstream_has_next_value_def argstream_new_def

lemma map_contains_get: "map_contains m k \<longleftrightarrow> map_get m k \<noteq> None"
  by (induction m) (auto split: if_splits)

lemmas heap_defs = upd_opt_def upd_parser_def malloc_opt_def malloc_parser_def empty_heap_def
lemmas option_defs = option_try_set_at_def option_try_set_def option_set_str_def
  option_set_flag_def option_append_def option_new_def option_new_flag_def option_new_str_def
  option_new_str_list_def
lemmas register_defs = ap_new_def argparser_new_def ap_add_flag_def argparser_add_flag_def
  ap_add_str_def argparser_add_str_def ap_add_str_list_def argparser_add_str_list_def
  ap_add_cmd_def argparser_add_cmd_def register_opt_def map_add_splitkey_def map_add_def
  map_new_def arglist_new_def
lemmas parse_defs = ap_parse_def argparser_parse_def argparser_parse_stream_def
  parse_stream_loop.simps greedy_loop.simps stream_defs char_at_def isdigit_def
  argparser_parse_long_option_def argparser_parse_short_option_def map_contains_get
  take_value_def arglist_append_def
lemmas query_defs = ap_get_args_def argparser_get_args_def ap_get_flag_def
  argparser_get_flag_def ap_get_str_def argparser_get_str_def argparser_get_opt_def
  option_get_flag_def option_get_str_def ap_has_cmd_def argparser_has_cmd_def
  ap_get_cmd_name_def argparser_get_cmd_name_def ap_get_cmd_parser_def
  argparser_get_cmd_parser_def ap_get_str_list_def argparser_get_str_list_def
  option_get_str_list_def

subsection \<open>The automatic help command\<close>

text \<open>
  C7, as amended. With option parsing enabled, when the current token is exactly
  \<^verbatim>\<open>help\<close>, is not a registered command name and is the last token of the stream, the
  parser does not append it to the positional list: it exits with status 1 and the message
  that the help command requires an argument.
\<close>

theorem help_without_argument:
  assumes "argstream_has_next stream"
    and "argstream_peek stream = ''help''"
    and "\<not> argstream_has_next (snd (argstream_next stream))"
    and "\<not> map_contains (commands (parser_mem h parser)) ''help''"
  shows "parse_stream_loop E True parser (h, stream) =
           err ''the help command requires an argument''"
  using assms
  by (subst parse_stream_loop.simps) (simp add: stream_defs char_at_def)

text \<open>The theorem at the stream that holds the one token \<^verbatim>\<open>help\<close>.\<close>

theorem help_without_argument_witness:
  "argstream_has_next (argstream_new [''help'']) \<and>
   argstream_peek (argstream_new [''help'']) = ''help'' \<and>
   \<not> argstream_has_next (snd (argstream_next (argstream_new [''help'']))) \<and>
   \<not> map_contains (commands (parser_mem (empty_heap :: unit heap) 0)) ''help'' \<and>
   parse_stream_loop quiet_extern True 0 (empty_heap, argstream_new [''help'']) =
     err ''the help command requires an argument''"
  using help_without_argument [of "argstream_new [''help'']" "empty_heap :: unit heap" 0 quiet_extern]
  by (simp add: stream_defs empty_heap_def)

text \<open>
  C7 as stated fails: on a new parser, \<^verbatim>\<open>app help\<close> does not end with \<^verbatim>\<open>help\<close> as a
  positional argument, the process exits.
\<close>

theorem lone_help_counterexample:
  "ap_parse quiet_extern 0 [''app'', ''help''] (snd (ap_new None None empty_heap)) =
     err ''the help command requires an argument''"
  by (simp add: ap_parse_def argparser_parse_def argparser_parse_stream_def ap_new_def
      argparser_new_def malloc_parser_def empty_heap_def map_new_def arglist_new_def
      parse_stream_loop.simps stream_defs char_at_def err_def)

subsection \<open>Coercion to integers\<close>

lemma ints_10_20: "ints_of [''10'', ''20''] = Inr [10, 20]"
  by code_simp

lemma ints_10_x:
  "ints_of [''10'', ''x''] = err (''cannot parse '' @ [quote] @ ''x'' @ [quote] @ '' as an integer'')"
  by code_simp

lemma try_str_to_int_status: "try_str_to_int arg = Inl e \<Longrightarrow> exit_status e = Some 1"
  by (auto simp: try_str_to_int_def err_def split: prod.splits if_splits)

lemma ints_of_status: "ints_of as = Inl e \<Longrightarrow> exit_status e = Some 1"
  by (induction as arbitrary: e) (auto split: sum.splits dest: try_str_to_int_status)

lemma ints_of_first_failure:
  "ints_of as = Inr vs \<Longrightarrow> try_str_to_int b = Inl e \<Longrightarrow> ints_of (as @ b # cs) = Inl e"
  by (induction as arbitrary: vs) (auto split: sum.splits)

lemma sint_cast:
  "INT_MIN \<le> v \<Longrightarrow> v \<le> INT_MAX \<Longrightarrow> sint (word_of_int v :: 32 word) = v"
  by (simp add: INT_MIN_def INT_MAX_def sint_sbintrunc' signed_take_bit_int_eq_self)

text \<open>
  C8, as amended. The integer-list accessor turns the positional arguments \<^verbatim>\<open>10\<close>,
  \<^verbatim>\<open>20\<close> into 10, 20, and fails on \<^verbatim>\<open>10\<close>, \<^verbatim>\<open>x\<close> with the invalid-format error for
  \<^verbatim>\<open>x\<close>. For every string, with \<open>v\<close> the value, \<open>rest\<close> the unread rest and \<open>erange\<close> the
  range error that \<^verbatim>\<open>strtol\<close> reports: a value out of the range of \<^verbatim>\<open>int\<close> is the out-of-range
  error, whatever follows the number; a value in range with a non-empty rest is the
  invalid-format error; a value in range with nothing left is that value. Every failure
  is exit status 1, and in a list the first failing argument decides.
\<close>

theorem integer_coercion:
  "(arguments (parser_mem h parser) = [''10'', ''20''] \<longrightarrow>
      ap_get_args_as_ints h parser = Inr [10, 20]) \<and>
   (arguments (parser_mem h parser) = [''10'', ''x''] \<longrightarrow>
      ap_get_args_as_ints h parser =
        err (''cannot parse '' @ [quote] @ ''x'' @ [quote] @ '' as an integer'')) \<and>
   (strtol arg = (v, rest, erange) \<and> (erange \<or> v > INT_MAX \<or> v < INT_MIN) \<longrightarrow>
      try_str_to_int arg = err ([quote] @ arg @ [quote] @ '' is out of range'')) \<and>
   (strtol arg = (v, rest, erange) \<and> \<not> erange \<and> INT_MIN \<le> v \<and> v \<le> INT_MAX \<and> rest \<noteq> [] \<longrightarrow>
      try_str_to_int arg =
        err (''cannot parse '' @ [quote] @ arg @ [quote] @ '' as an integer'')) \<and>
   (strtol arg = (v, rest, erange) \<and> \<not> erange \<and> INT_MIN \<le> v \<and> v \<le> INT_MAX \<and> rest = [] \<longrightarrow>
      (\<exists>w. try_str_to_int arg = Inr w \<and> sint w = v)) \<and>
   (ap_get_args_as_ints h parser = Inl e \<longrightarrow> exit_status e = Some 1) \<and>
   (ints_of as = Inr vs \<and> try_str_to_int b = Inl e \<longrightarrow> ints_of (as @ b # cs) = Inl e)"
proof (intro conjI impI)
  assume "arguments (parser_mem h parser) = [''10'', ''20'']"
  then show "ap_get_args_as_ints h parser = Inr [10, 20]"
    by (simp only: ap_get_args_as_ints_def argparser_get_args_as_ints_def ints_10_20)
next
  assume "arguments (parser_mem h parser) = [''10'', ''x'']"
  then show "ap_get_args_as_ints h parser =
        err (''cannot parse '' @ [quote] @ ''x'' @ [quote] @ '' as an integer'')"
    by (simp only: ap_get_args_as_ints_def argparser_get_args_as_ints_def ints_10_x)
next
  assume "strtol arg = (v, rest, erange) \<and> (erange \<or> v > INT_MAX \<or> v < INT_MIN)"
  then show "try_str_to_int arg = err ([quote] @ arg @ [quote] @ '' is out of range'')"
    by (auto simp: try_str_to_int_def)
next
  assume "strtol arg = (v, rest, erange) \<and> \<not> erange \<and> INT_MIN \<le> v \<and> v \<le> INT_MAX \<and> rest \<noteq> []"
  then show "try_str_to_int arg =
        err (''cannot parse '' @ [quote] @ arg @ [quote] @ '' as an integer'')"
    by (auto simp: try_str_to_int_def)
next
  assume "strtol arg = (v, rest, erange) \<and> \<not> erange \<and> INT_MIN \<le> v \<and> v \<le> INT_MAX \<and> rest = []"
  then show "\<exists>w. try_str_to_int arg = Inr w \<and> sint w = v"
    by (auto simp: try_str_to_int_def sint_cast)
next
  assume "ap_get_args_as_ints h parser = Inl e"
  then show "exit_status e = Some 1"
    by (simp add: ap_get_args_as_ints_def argparser_get_args_as_ints_def ints_of_status)
next
  assume "ints_of as = Inr vs \<and> try_str_to_int b = Inl e"
  then show "ints_of (as @ b # cs) = Inl e"
    by (auto intro: ints_of_first_failure)
qed

text \<open>
  The theorem at the two argument lists, and at \<^verbatim>\<open>2147483648\<close> (one more than the largest
  \<^verbatim>\<open>int\<close>), \<^verbatim>\<open>12abc\<close> and \<^verbatim>\<open>-42\<close>.
\<close>

theorem integer_coercion_witness:
  "arguments (parser_mem (with_arguments [''10'', ''20'']) 0) = [''10'', ''20''] \<and>
   ap_get_args_as_ints (with_arguments [''10'', ''20'']) 0 = Inr [10, 20] \<and>
   arguments (parser_mem (with_arguments [''10'', ''x'']) 0) = [''10'', ''x''] \<and>
   ap_get_args_as_ints (with_arguments [''10'', ''x'']) 0 =
     err (''cannot parse '' @ [quote] @ ''x'' @ [quote] @ '' as an integer'') \<and>
   strtol ''2147483648'' = (2147483648, [], False) \<and> 2147483648 > INT_MAX \<and>
   try_str_to_int ''2147483648'' =
     err ([quote] @ ''2147483648'' @ [quote] @ '' is out of range'') \<and>
   strtol ''12abc'' = (12, ''abc'', False) \<and> INT_MIN \<le> 12 \<and> 12 \<le> INT_MAX \<and>
   try_str_to_int ''12abc'' =
     err (''cannot parse '' @ [quote] @ ''12abc'' @ [quote] @ '' as an integer'') \<and>
   strtol ''-42'' = (- 42, [], False) \<and> INT_MIN \<le> - 42 \<and> - 42 \<le> INT_MAX \<and>
   (\<exists>w. try_str_to_int ''-42'' = Inr w \<and> sint w = - 42) \<and>
   exit_status (Exit 1 (''Error: cannot parse '' @ [quote] @ ''x'' @ [quote]
                        @ '' as an integer.'' @ [newline])) = Some 1 \<and>
   ints_of ([''1''] @ ''x'' # [''2'']) =
     Inl (Exit 1 (''Error: cannot parse '' @ [quote] @ ''x'' @ [quote]
                  @ '' as an integer.'' @ [newline]))"
proof -
  have a1: "arguments (parser_mem (with_arguments [''10'', ''20'']) 0) = [''10'', ''20'']"
    and a2: "arguments (parser_mem (with_arguments [''10'', ''x'']) 0) = [''10'', ''x'']"
    by (simp_all add: with_arguments_def upd_parser_def)
  have s1: "strtol ''2147483648'' = (2147483648, [], False)"
    and s2: "strtol ''12abc'' = (12, ''abc'', False)"
    and s3: "strtol ''-42'' = (- 42, [], False)"
    by code_simp+
  have r: "2147483648 > INT_MAX" "INT_MIN \<le> 12" "12 \<le> INT_MAX" "INT_MIN \<le> - 42"
    "- 42 \<le> INT_MAX"
    by (simp_all add: INT_MAX_def INT_MIN_def)
  have i: "ints_of [''1''] = Inr [1]"
    and x: "try_str_to_int ''x'' =
      Inl (Exit 1 (''Error: cannot parse '' @ [quote] @ ''x'' @ [quote]
                   @ '' as an integer.'' @ [newline]))"
    by code_simp+
  note t = integer_coercion
  have c1: "ap_get_args_as_ints (with_arguments [''10'', ''20'']) 0 = Inr [10, 20]"
    by (rule t[THEN conjunct1, rule_format]) (rule a1)
  have c2: "ap_get_args_as_ints (with_arguments [''10'', ''x'']) 0 =
     err (''cannot parse '' @ [quote] @ ''x'' @ [quote] @ '' as an integer'')"
    by (rule t[THEN conjunct2, THEN conjunct1, rule_format]) (rule a2)
  have c3: "try_str_to_int ''2147483648'' =
     err ([quote] @ ''2147483648'' @ [quote] @ '' is out of range'')"
    by (rule t[THEN conjunct2, THEN conjunct2, THEN conjunct1, rule_format,
               of _ 2147483648 "[]" False]) (simp add: s1 r)
  have c4: "try_str_to_int ''12abc'' =
     err (''cannot parse '' @ [quote] @ ''12abc'' @ [quote] @ '' as an integer'')"
    by (rule t[THEN conjunct2, THEN conjunct2, THEN conjunct2, THEN conjunct1, rule_format,
               of _ 12 "''abc''" False]) (simp add: s2 r)
  have c5: "\<exists>w. try_str_to_int ''-42'' = Inr w \<and> sint w = - 42"
    by (rule t[THEN conjunct2, THEN conjunct2, THEN conjunct2, THEN conjunct2, THEN conjunct1,
               rule_format, of _ "- 42" "[]" False]) (simp add: s3 r)
  have c6: "exit_status (Exit 1 (''Error: cannot parse '' @ [quote] @ ''x'' @ [quote]
                                 @ '' as an integer.'' @ [newline])) = Some 1"
    by (rule t[THEN conjunct2, THEN conjunct2, THEN conjunct2, THEN conjunct2, THEN conjunct2,
               THEN conjunct1, rule_format, of "with_arguments [''10'', ''x'']" 0])
       (simp add: c2 err_def)
  have c7: "ints_of ([''1''] @ ''x'' # [''2'']) =
     Inl (Exit 1 (''Error: cannot parse '' @ [quote] @ ''x'' @ [quote]
                  @ '' as an integer.'' @ [newline]))"
    by (rule t[THEN conjunct2, THEN conjunct2, THEN conjunct2, THEN conjunct2, THEN conjunct2,
               THEN conjunct2, rule_format, of _ "[1]"]) (simp only: i x simp_thms)
  from a1 a2 s1 s2 s3 r c1 c2 c3 c4 c5 c6 c7 show ?thesis by blast
qed

text \<open>
  C8 as stated fails where both conditions meet: \<^verbatim>\<open>99999999999x\<close> has characters after the
  number, and the error is the out-of-range one, since the range is checked first.
\<close>

theorem overflow_with_trailing_counterexample:
  "strtol ''99999999999x'' = (99999999999, ''x'', False) \<and>
   try_str_to_int ''99999999999x'' =
     err ([quote] @ ''99999999999x'' @ [quote] @ '' is out of range'')"
  by code_simp

subsection \<open>A greedy list and the terminator\<close>

text \<open>
  C3. Where \<^verbatim>\<open>tags\<close> is a registered greedy string list, parsing
  \<^verbatim>\<open>--tags x y z -- w\<close> appends exactly \<^verbatim>\<open>x\<close>, \<^verbatim>\<open>y\<close>, \<^verbatim>\<open>z\<close> to the list (which is then
  \<^verbatim>\<open>[x, y, z]\<close> if it was empty, as a list option is at registration) and \<^verbatim>\<open>w\<close> to the
  positional arguments: the greedy loop stops before \<^verbatim>\<open>--\<close>, and the terminator makes
  \<^verbatim>\<open>w\<close> positional.
\<close>

theorem greedy_stops_at_terminator:
  assumes "map_get (options (parser_mem h parser)) ''tags'' = Some opt"
    and "otype (opt_mem h opt) = STRING"
    and "greedy (opt_mem h opt)"
  shows "\<exists>h'. ap_parse E parser [prog, ''--tags'', ''x'', ''y'', ''z'', ''--'', ''w''] h = Inr h' \<and>
           vals (opt_mem h' opt) =
             vals (opt_mem h opt) @ [str_val ''x'', str_val ''y'', str_val ''z''] \<and>
           (vals (opt_mem h opt) = [] \<longrightarrow>
              ap_get_str_list h' parser ''tags'' = Inr [''x'', ''y'', ''z'']) \<and>
           ap_get_args h' parser = ap_get_args h parser @ [''w'']"
  using assms
  by (simp add: parse_defs heap_defs option_defs query_defs)

text \<open>The theorem at the parser that registers \<^verbatim>\<open>tags\<close> with \<^verbatim>\<open>ap_add_str_list\<close>.\<close>

theorem greedy_stops_at_terminator_witness:
  "map_get (options (parser_mem tags_heap 0)) ''tags'' = Some 0 \<and>
   otype (opt_mem tags_heap 0) = STRING \<and>
   greedy (opt_mem tags_heap 0) \<and>
   vals (opt_mem tags_heap 0) = [] \<and>
   ap_get_args tags_heap 0 = [] \<and>
   (\<exists>h'. ap_parse quiet_extern 0 [''app'', ''--tags'', ''x'', ''y'', ''z'', ''--'', ''w''] tags_heap
           = Inr h' \<and>
         vals (opt_mem h' 0) = [str_val ''x'', str_val ''y'', str_val ''z''] \<and>
         ap_get_str_list h' 0 ''tags'' = Inr [''x'', ''y'', ''z''] \<and>
         ap_get_args h' 0 = [''w''])"
proof -
  have reg: "map_get (options (parser_mem tags_heap 0)) ''tags'' = Some 0"
    and ty: "otype (opt_mem tags_heap 0) = STRING"
    and gr: "greedy (opt_mem tags_heap 0)"
    and em: "vals (opt_mem tags_heap 0) = []"
    and ar: "ap_get_args tags_heap 0 = []"
    by (simp_all add: tags_heap_def register_defs heap_defs option_defs query_defs)
  from greedy_stops_at_terminator[OF reg ty gr, of quiet_extern "''app''"] em ar
  show ?thesis using reg ty gr by auto
qed

subsection \<open>A bundle of short options\<close>

text \<open>
  C6. Where \<^verbatim>\<open>a\<close> and \<^verbatim>\<open>b\<close> are registered flags and \<^verbatim>\<open>c\<close> is a registered string
  option that is not greedy, parsing \<^verbatim>\<open>-abc val1 val2\<close> leaves \<^verbatim>\<open>a\<close> true, \<^verbatim>\<open>b\<close> true,
  \<^verbatim>\<open>val1\<close> as the current value of \<^verbatim>\<open>c\<close>, and \<^verbatim>\<open>val2\<close> appended to the positional
  arguments (\<^verbatim>\<open>val2\<close> not being the name of a command).
\<close>

theorem bundle_then_value:
  assumes "map_get (options (parser_mem h parser)) ''a'' = Some oa"
    and "otype (opt_mem h oa) = FLAG"
    and "map_get (options (parser_mem h parser)) ''b'' = Some ob"
    and "otype (opt_mem h ob) = FLAG"
    and "map_get (options (parser_mem h parser)) ''c'' = Some oc"
    and "otype (opt_mem h oc) = STRING"
    and "\<not> greedy (opt_mem h oc)"
    and "\<not> map_contains (commands (parser_mem h parser)) ''val2''"
  shows "\<exists>h'. ap_parse E parser [prog, ''-abc'', ''val1'', ''val2''] h = Inr h' \<and>
           ap_get_flag h' parser ''a'' = Inr True \<and>
           ap_get_flag h' parser ''b'' = Inr True \<and>
           ap_get_str h' parser ''c'' = Inr ''val1'' \<and>
           ap_get_args h' parser = ap_get_args h parser @ [''val2'']"
  using assms
  by (auto simp add: parse_defs heap_defs option_defs query_defs)

text \<open>The theorem at the parser that registers \<^verbatim>\<open>a\<close>, \<^verbatim>\<open>b\<close> and \<^verbatim>\<open>c\<close>.\<close>

theorem bundle_then_value_witness:
  "map_get (options (parser_mem abc_heap 0)) ''a'' = Some 0 \<and>
   otype (opt_mem abc_heap 0) = FLAG \<and>
   map_get (options (parser_mem abc_heap 0)) ''b'' = Some 1 \<and>
   otype (opt_mem abc_heap 1) = FLAG \<and>
   map_get (options (parser_mem abc_heap 0)) ''c'' = Some 2 \<and>
   otype (opt_mem abc_heap 2) = STRING \<and>
   \<not> greedy (opt_mem abc_heap 2) \<and>
   \<not> map_contains (commands (parser_mem abc_heap 0)) ''val2'' \<and>
   ap_get_args abc_heap 0 = [] \<and>
   (\<exists>h'. ap_parse quiet_extern 0 [''app'', ''-abc'', ''val1'', ''val2''] abc_heap = Inr h' \<and>
         ap_get_flag h' 0 ''a'' = Inr True \<and>
         ap_get_flag h' 0 ''b'' = Inr True \<and>
         ap_get_str h' 0 ''c'' = Inr ''val1'' \<and>
         ap_get_args h' 0 = [''val2''])"
proof -
  have a: "map_get (options (parser_mem abc_heap 0)) ''a'' = Some 0"
    and ta: "otype (opt_mem abc_heap 0) = FLAG"
    and b: "map_get (options (parser_mem abc_heap 0)) ''b'' = Some 1"
    and tb: "otype (opt_mem abc_heap 1) = FLAG"
    and c: "map_get (options (parser_mem abc_heap 0)) ''c'' = Some 2"
    and tc: "otype (opt_mem abc_heap 2) = STRING"
    and gc: "\<not> greedy (opt_mem abc_heap 2)"
    and nc: "\<not> map_contains (commands (parser_mem abc_heap 0)) ''val2''"
    and ar: "ap_get_args abc_heap 0 = []"
    by (simp_all add: abc_heap_def register_defs heap_defs option_defs query_defs)
  from bundle_then_value[OF a ta b tb c tc gc nc, of quiet_extern "''app''"] ar
  show ?thesis using a ta b tb c tc gc nc by auto
qed

subsection \<open>A command\<close>

text \<open>
  C2. Where \<^verbatim>\<open>push\<close> is a registered command of the root parser, with its own parser that
  has the flag \<^verbatim>\<open>force\<close>, parsing \<^verbatim>\<open>push --force file.txt\<close> makes the root parser
  report a command, named \<^verbatim>\<open>push\<close>, with that parser; sets the flag \<^verbatim>\<open>force\<close> of the
  command's parser; appends \<^verbatim>\<open>file.txt\<close> to the positional arguments of the command's
  parser and nothing to those of the root parser. The callback of the command, if there is
  one, is taken to return and to leave the heap as it is. Parsing of the root parser ends
  with the command: when the command's parser returns, no token is left in the stream.
\<close>

theorem command_takes_the_rest:
  assumes "map_get (commands (parser_mem h root)) ''push'' = Some push"
    and "push \<noteq> root"
    and "map_get (options (parser_mem h push)) ''force'' = Some f"
    and "otype (opt_mem h f) = FLAG"
    and "\<not> map_contains (commands (parser_mem h push)) ''file.txt''"
    and "\<forall>cb h1. map_get (callbacks (parser_mem h root)) ''push'' = Some (Some cb) \<longrightarrow>
           call E cb push h1 = Inr h1"
  shows "(\<exists>h'. ap_parse E root [prog, ''push'', ''--force'', ''file.txt''] h = Inr h' \<and>
            ap_has_cmd h' root \<and>
            ap_get_cmd_name h' root = Some ''push'' \<and>
            ap_get_cmd_parser h' root = Some push \<and>
            ap_get_flag h' push ''force'' = Inr True \<and>
            ap_get_args h' push = ap_get_args h push @ [''file.txt''] \<and>
            ap_get_args h' root = ap_get_args h root) \<and>
         (\<forall>st h2 s2. argparser_parse_stream E push st = Inr (h2, s2) \<longrightarrow>
            \<not> argstream_has_next s2)"
proof
  show "\<forall>st h2 s2. argparser_parse_stream E push st = Inr (h2, s2) \<longrightarrow>
            \<not> argstream_has_next s2"
    by (auto simp: argparser_parse_stream_def dest: parse_stream_loop_ends)
next
  show "\<exists>h'. ap_parse E root [prog, ''push'', ''--force'', ''file.txt''] h = Inr h' \<and>
            ap_has_cmd h' root \<and>
            ap_get_cmd_name h' root = Some ''push'' \<and>
            ap_get_cmd_parser h' root = Some push \<and>
            ap_get_flag h' push ''force'' = Inr True \<and>
            ap_get_args h' push = ap_get_args h push @ [''file.txt''] \<and>
            ap_get_args h' root = ap_get_args h root"
  proof (cases "map_get (callbacks (parser_mem h root)) ''push''")
    case None
    with assms show ?thesis
      by (simp add: parse_defs heap_defs option_defs query_defs)
  next
    case (Some cb)
    show ?thesis
    proof (cases cb)
      case None
      with Some assms show ?thesis
        by (simp add: parse_defs heap_defs option_defs query_defs)
    next
      case (Some c)
      with \<open>map_get (callbacks (parser_mem h root)) ''push'' = Some cb\<close> assms show ?thesis
        by (simp add: parse_defs heap_defs option_defs query_defs)
    qed
  qed
qed

text \<open>The theorem at the parser that registers \<^verbatim>\<open>push\<close> with \<^verbatim>\<open>ap_add_cmd\<close>.\<close>

theorem command_takes_the_rest_witness:
  "map_get (commands (parser_mem push_heap 0)) ''push'' = Some 1 \<and>
   (1::nat) \<noteq> 0 \<and>
   map_get (options (parser_mem push_heap 1)) ''force'' = Some 0 \<and>
   otype (opt_mem push_heap 0) = FLAG \<and>
   \<not> map_contains (commands (parser_mem push_heap 1)) ''file.txt'' \<and>
   map_get (callbacks (parser_mem push_heap 0)) ''push'' = Some (Some 7) \<and>
   (\<forall>h1. call quiet_extern 7 1 h1 = Inr h1) \<and>
   ap_get_args push_heap 0 = [] \<and> ap_get_args push_heap 1 = [] \<and>
   (\<exists>h'. ap_parse quiet_extern 0 [''app'', ''push'', ''--force'', ''file.txt''] push_heap = Inr h' \<and>
         ap_has_cmd h' 0 \<and>
         ap_get_cmd_name h' 0 = Some ''push'' \<and>
         ap_get_cmd_parser h' 0 = Some 1 \<and>
         ap_get_flag h' 1 ''force'' = Inr True \<and>
         ap_get_args h' 1 = [''file.txt''] \<and>
         ap_get_args h' 0 = [])"
proof -
  have c: "map_get (commands (parser_mem push_heap 0)) ''push'' = Some 1"
    and ne: "(1::nat) \<noteq> 0"
    and f: "map_get (options (parser_mem push_heap 1)) ''force'' = Some 0"
    and tf: "otype (opt_mem push_heap 0) = FLAG"
    and nc: "\<not> map_contains (commands (parser_mem push_heap 1)) ''file.txt''"
    and cb: "map_get (callbacks (parser_mem push_heap 0)) ''push'' = Some (Some 7)"
    and ar: "ap_get_args push_heap 0 = []" "ap_get_args push_heap 1 = []"
    by (simp_all add: push_heap_def register_defs heap_defs option_defs query_defs)
  have q: "\<forall>cb h1. map_get (callbacks (parser_mem push_heap 0)) ''push'' = Some (Some cb) \<longrightarrow>
           call quiet_extern cb 1 h1 = Inr h1"
    and q': "\<forall>h1. call quiet_extern 7 1 h1 = Inr h1"
    by (simp_all add: quiet_extern_def)
  from command_takes_the_rest[OF c ne f tf nc q, of "''app''"] ar
  show ?thesis using c f tf nc cb q' by auto
qed

subsection \<open>Values, and the greedy loop\<close>

lemma has_next_value_shaped:
  "argstream_has_next_value s \<longleftrightarrow> argstream_has_next s \<and> value_shaped (argstream_peek s)"
proof (cases "argstream_peek s")
  case Nil
  then show ?thesis by (simp add: argstream_has_next_value_def char_at_def value_shaped_def)
next
  case (Cons c cs)
  then show ?thesis
    by (cases cs) (simp_all add: argstream_has_next_value_def char_at_def value_shaped_def)
qed

lemma option_try_set_at_cases:
  "option_try_set_at E opt v h =
     (case otype (opt_mem h opt) of
        FLAG \<Rightarrow> Inr h
      | STRING \<Rightarrow> Inr (upd_opt h opt (\<lambda>x. x\<lparr>vals := vals x @ [str_val v]\<rparr>))
      | INTEGER \<Rightarrow>
          (case try_str_to_int v of
             Inl e \<Rightarrow> Inl e
           | Inr w \<Rightarrow> Inr (upd_opt h opt (\<lambda>x. x\<lparr>vals := vals x @ [int_val w]\<rparr>)))
      | FLOAT \<Rightarrow>
          (case try_str_to_double (strtod E) v of
             Inl e \<Rightarrow> Inl e
           | Inr d \<Rightarrow> Inr (upd_opt h opt (\<lambda>x. x\<lparr>vals := vals x @ [float_val d]\<rparr>))))"
  by (cases "otype (opt_mem h opt)")
     (simp_all add: option_try_set_at_def option_try_set_def option_set_str_def
        option_set_int_def option_set_float_def option_append_def upd_opt_def
        split: sum.splits)

lemma option_try_set_at_type:
  "option_try_set_at E opt v h = Inr h' \<Longrightarrow>
     otype (opt_mem h' opt) = otype (opt_mem h opt) \<and> greedy (opt_mem h' opt) = greedy (opt_mem h opt)"
  by (cases "otype (opt_mem h opt)")
     (auto simp: option_try_set_at_cases upd_opt_def split: sum.splits)

lemma run_of_values:
  assumes "argstream_has_next_value s"
  shows "takeWhile value_shaped (drop (index s) (args s)) =
           argstream_peek s # takeWhile value_shaped (drop (Suc (index s)) (args s))"
proof -
  from assms have n: "index s < length (args s)" and v: "value_shaped (args s ! index s)"
    by (simp_all add: has_next_value_shaped argstream_has_next_def argstream_peek_def)
  from n have "drop (index s) (args s) = args s ! index s # drop (Suc (index s)) (args s)"
    by (simp add: Cons_nth_drop_Suc)
  with v show ?thesis by (simp add: argstream_peek_def)
qed

lemma no_run_of_values:
  assumes "\<not> argstream_has_next_value s"
  shows "takeWhile value_shaped (drop (index s) (args s)) = []"
proof (cases "index s < length (args s)")
  case True
  then have "drop (index s) (args s) = args s ! index s # drop (Suc (index s)) (args s)"
    by (simp add: Cons_nth_drop_Suc)
  with assms True show ?thesis
    by (simp add: has_next_value_shaped argstream_has_next_def argstream_peek_def)
next
  case False
  then show ?thesis by simp
qed

lemma greedy_loop_consumes:
  "greedy_loop E opt (h, s) = Inr (h', s') \<Longrightarrow>
     s' = s\<lparr>index := index s + length (takeWhile value_shaped (drop (index s) (args s)))\<rparr>"
proof (induction E opt "(h, s)" arbitrary: h s rule: greedy_loop.induct)
  case (1 E opt h stream)
  show ?case
  proof (cases "argstream_has_next_value stream")
    case True
    let ?s1 = "stream\<lparr>index := Suc (index stream)\<rparr>"
    from True "1.prems" obtain h1 where
      a: "option_try_set_at E opt (argstream_peek stream) h = Inr h1"
      and b: "greedy_loop E opt (h1, ?s1) = Inr (h', s')"
      by (subst (asm) greedy_loop.simps)
         (auto simp: argstream_next_def argstream_peek_def split: sum.splits)
    from "1.hyps"[OF True, of "argstream_peek stream" ?s1 h1] a b
    have "s' = ?s1\<lparr>index := index ?s1 +
            length (takeWhile value_shaped (drop (index ?s1) (args ?s1)))\<rparr>"
      by (simp add: argstream_next_def argstream_peek_def)
    with run_of_values[OF True] show ?thesis by simp
  next
    case False
    with "1.prems" no_run_of_values[OF False] show ?thesis
      by (subst (asm) greedy_loop.simps) simp
  qed
qed

lemma greedy_loop_strings:
  "otype (opt_mem h opt) = STRING \<Longrightarrow>
   greedy_loop E opt (h, s) =
     Inr (upd_opt h opt
            (\<lambda>x. x\<lparr>vals := vals x @
                      map str_val (takeWhile value_shaped (drop (index s) (args s)))\<rparr>),
          s\<lparr>index := index s + length (takeWhile value_shaped (drop (index s) (args s)))\<rparr>)"
proof (induction E opt "(h, s)" arbitrary: h s rule: greedy_loop.induct)
  case (1 E opt h stream)
  show ?case
  proof (cases "argstream_has_next_value stream")
    case True
    let ?s1 = "stream\<lparr>index := Suc (index stream)\<rparr>"
    let ?h1 = "upd_opt h opt (\<lambda>x. x\<lparr>vals := vals x @ [str_val (argstream_peek stream)]\<rparr>)"
    have a: "option_try_set_at E opt (argstream_peek stream) h = Inr ?h1"
      using "1.prems" by (simp add: option_try_set_at_cases)
    have t: "otype (opt_mem ?h1 opt) = STRING"
      using "1.prems" by (simp add: upd_opt_def)
    from "1.hyps"[OF True, of "argstream_peek stream" ?s1 ?h1] a t
    have "greedy_loop E opt (?h1, ?s1) =
      Inr (upd_opt ?h1 opt
            (\<lambda>x. x\<lparr>vals := vals x @
                      map str_val (takeWhile value_shaped (drop (index ?s1) (args ?s1)))\<rparr>),
          ?s1\<lparr>index := index ?s1 + length (takeWhile value_shaped (drop (index ?s1) (args ?s1)))\<rparr>)"
      by (simp add: argstream_next_def argstream_peek_def)
    with True a run_of_values[OF True] show ?thesis
      by (subst greedy_loop.simps)
         (simp add: argstream_next_def argstream_peek_def upd_opt_def)
  next
    case False
    with no_run_of_values[OF False] show ?thesis
      by (subst greedy_loop.simps) (simp add: upd_opt_def)
  qed
qed

lemma greedy_loop_count:
  "greedy_loop E opt (h, s) = Inr (h', s') \<Longrightarrow> otype (opt_mem h opt) \<noteq> FLAG \<Longrightarrow>
     length (vals (opt_mem h' opt)) =
       length (vals (opt_mem h opt)) +
       length (takeWhile value_shaped (drop (index s) (args s)))"
proof (induction E opt "(h, s)" arbitrary: h s rule: greedy_loop.induct)
  case (1 E opt h stream)
  show ?case
  proof (cases "argstream_has_next_value stream")
    case True
    let ?s1 = "stream\<lparr>index := Suc (index stream)\<rparr>"
    from True "1.prems" obtain h1 where
      a: "option_try_set_at E opt (argstream_peek stream) h = Inr h1"
      and b: "greedy_loop E opt (h1, ?s1) = Inr (h', s')"
      by (subst (asm) greedy_loop.simps)
         (auto simp: argstream_next_def argstream_peek_def split: sum.splits)
    from a "1.prems"(2) have l: "length (vals (opt_mem h1 opt)) = Suc (length (vals (opt_mem h opt)))"
      by (cases "otype (opt_mem h opt)")
         (auto simp: option_try_set_at_cases upd_opt_def split: sum.splits)
    from option_try_set_at_type[OF a] "1.prems"(2) have t: "otype (opt_mem h1 opt) \<noteq> FLAG"
      by simp
    from "1.hyps"[OF True, of "argstream_peek stream" ?s1 h1] a b t
    have "length (vals (opt_mem h' opt)) =
       length (vals (opt_mem h1 opt)) +
       length (takeWhile value_shaped (drop (index ?s1) (args ?s1)))"
      by (simp add: argstream_next_def argstream_peek_def)
    with l run_of_values[OF True] show ?thesis by simp
  next
    case False
    with "1.prems" no_run_of_values[OF False] show ?thesis
      by (subst (asm) greedy_loop.simps) simp
  qed
qed

lemma short_single:
  assumes "c \<noteq> CHR ''=''"
  shows "argparser_parse_short_option E parser [c] (h, stream) =
     (case map_get (options (parser_mem h parser)) [c] of
        None \<Rightarrow> err (''-'' @ [c] @ '' is not a recognised option'')
      | Some opt \<Rightarrow>
         if otype (opt_mem h opt) = FLAG
         then Inr (upd_opt h opt (\<lambda>x. x\<lparr>found := True, vals := vals x @ [bool_val True]\<rparr>), stream)
         else if argstream_has_next_value stream
         then (case option_try_set_at E opt (argstream_peek stream)
                      (upd_opt h opt (\<lambda>x. x\<lparr>found := True\<rparr>)) of
                 Inl e \<Rightarrow> Inl e
               | Inr h1 \<Rightarrow>
                  if greedy (opt_mem h opt)
                  then greedy_loop E opt (h1, stream\<lparr>index := Suc (index stream)\<rparr>)
                  else Inr (h1, stream\<lparr>index := Suc (index stream)\<rparr>))
         else err (''missing argument for the -'' @ [c] @ '' option''))"
proof (cases "map_get (options (parser_mem h parser)) [c]")
  case None
  with assms show ?thesis by (simp add: argparser_parse_short_option_def)
next
  case (Some opt)
  let ?h1 = "upd_opt h opt (\<lambda>x. x\<lparr>found := True\<rparr>)"
  have g: "option_try_set_at E opt v ?h1 = Inr h1 \<Longrightarrow> greedy (opt_mem h1 opt) = greedy (opt_mem h opt)"
    for v h1
    using option_try_set_at_type[of E opt v ?h1 h1] by (simp add: upd_opt_def)
  from assms Some show ?thesis
    by (auto simp: argparser_parse_short_option_def take_value_def argstream_next_def
        argstream_peek_def upd_opt_def option_set_flag_def option_append_def Let_def
        dest: g[unfolded upd_opt_def argstream_peek_def] split: sum.splits)
qed


lemma comment_example:
  assumes "map_get (options (parser_mem h parser)) ''a'' = Some oa"
    and "otype (opt_mem h oa) = STRING" and "\<not> greedy (opt_mem h oa)"
    and "map_get (options (parser_mem h parser)) ''b'' = Some ob"
    and "otype (opt_mem h ob) = STRING" and "\<not> greedy (opt_mem h ob)"
    and "map_get (options (parser_mem h parser)) ''c'' = Some oc"
    and "otype (opt_mem h oc) = FLAG"
  shows "ap_parse E parser [prog, ''-abc'', ''foo'', ''bar''] h =
           ap_parse E parser [prog, ''-a'', ''foo'', ''-b'', ''bar'', ''-c''] h \<and>
         (\<exists>h'. ap_parse E parser [prog, ''-abc'', ''foo'', ''bar''] h = Inr h' \<and>
               ap_get_str h' parser ''b'' = Inr ''bar'' \<and>
               ap_get_flag h' parser ''c'' = Inr True \<and>
               ap_get_args h' parser = ap_get_args h parser)"
  using assms
  by (auto simp add: parse_defs heap_defs option_defs query_defs)

subsection \<open>The characters of a bundle\<close>

lemma short_option_loop_Cons:
  "short_option_loop E parser (c # cs) st =
     (case short_option_loop E parser [c] st of
        Inl e \<Rightarrow> Inl e
      | Inr st1 \<Rightarrow> short_option_loop E parser cs st1)"
  by (cases st) (simp add: Let_def err_def split: option.splits sum.splits)

text \<open>
  C1, as amended. In short-option handling of a bundle without \<^verbatim>\<open>=\<close>, each character is
  looked up as an option name, and a character that is no option is a fatal error. A flag
  character is marked found and has true appended, and the stream is left as it is. A
  character of another option needs a value-shaped token next in the stream (a fatal error
  without one): the option is marked found, the token is coerced to the option's type and
  appended (a fatal error if the type does not accept it), and the stream moves on by one
  token; a greedy option then goes on to take the whole run of value-shaped tokens that
  follows. In every case the handling then goes on with the next character of the bundle:
  the bundle is handled as its first character, and then the rest of the bundle on the
  stream that is left. So where \<^verbatim>\<open>a\<close> and \<^verbatim>\<open>b\<close> are string options that are not greedy
  and \<^verbatim>\<open>c\<close> is a flag, \<^verbatim>\<open>-abc foo bar\<close> is \<^verbatim>\<open>-a foo -b bar -c\<close>, the case of the comment
  in the source.
\<close>

theorem bundle_goes_on_after_a_value:
  assumes "CHR ''='' \<notin> set (c # cs)"
  shows "argparser_parse_short_option E parser (c # cs) (h, stream) =
           (case argparser_parse_short_option E parser [c] (h, stream) of
              Inl e \<Rightarrow> Inl e
            | Inr st1 \<Rightarrow> argparser_parse_short_option E parser cs st1) \<and>
         argparser_parse_short_option E parser [c] (h, stream) =
           (case map_get (options (parser_mem h parser)) [c] of
              None \<Rightarrow> err (''-'' @ [c] @ '' is not a recognised option'')
            | Some opt \<Rightarrow>
               if otype (opt_mem h opt) = FLAG
               then Inr (upd_opt h opt
                           (\<lambda>x. x\<lparr>found := True, vals := vals x @ [bool_val True]\<rparr>), stream)
               else if argstream_has_next_value stream
               then (case option_try_set_at E opt (argstream_peek stream)
                            (upd_opt h opt (\<lambda>x. x\<lparr>found := True\<rparr>)) of
                       Inl e \<Rightarrow> Inl e
                     | Inr h1 \<Rightarrow>
                        if greedy (opt_mem h opt)
                        then greedy_loop E opt (h1, stream\<lparr>index := Suc (index stream)\<rparr>)
                        else Inr (h1, stream\<lparr>index := Suc (index stream)\<rparr>))
               else err (''missing argument for the -'' @ [c] @ '' option'')) \<and>
         option_try_set_at E o1 v h1 =
           (case otype (opt_mem h1 o1) of
              FLAG \<Rightarrow> Inr h1
            | STRING \<Rightarrow> Inr (upd_opt h1 o1 (\<lambda>x. x\<lparr>vals := vals x @ [str_val v]\<rparr>))
            | INTEGER \<Rightarrow>
                (case try_str_to_int v of
                   Inl e \<Rightarrow> Inl e
                 | Inr w \<Rightarrow> Inr (upd_opt h1 o1 (\<lambda>x. x\<lparr>vals := vals x @ [int_val w]\<rparr>)))
            | FLOAT \<Rightarrow>
                (case try_str_to_double (strtod E) v of
                   Inl e \<Rightarrow> Inl e
                 | Inr d \<Rightarrow> Inr (upd_opt h1 o1 (\<lambda>x. x\<lparr>vals := vals x @ [float_val d]\<rparr>)))) \<and>
         (greedy_loop E o2 (h2, s2) = Inr (h3, s3) \<and> otype (opt_mem h2 o2) \<noteq> FLAG \<longrightarrow>
            s3 = s2\<lparr>index := index s2 +
                               length (takeWhile value_shaped (drop (index s2) (args s2)))\<rparr> \<and>
            length (vals (opt_mem h3 o2)) =
              length (vals (opt_mem h2 o2)) +
              length (takeWhile value_shaped (drop (index s2) (args s2)))) \<and>
         (otype (opt_mem h2 o2) = STRING \<longrightarrow>
            greedy_loop E o2 (h2, s2) =
              Inr (upd_opt h2 o2
                     (\<lambda>x. x\<lparr>vals := vals x @
                               map str_val (takeWhile value_shaped (drop (index s2) (args s2)))\<rparr>),
                   s2\<lparr>index := index s2 +
                                length (takeWhile value_shaped (drop (index s2) (args s2)))\<rparr>)) \<and>
         (argstream_has_next_value s2 \<longleftrightarrow>
            argstream_has_next s2 \<and> value_shaped (argstream_peek s2)) \<and>
         (map_get (options (parser_mem h parser)) ''a'' = Some oa \<and>
          otype (opt_mem h oa) = STRING \<and> \<not> greedy (opt_mem h oa) \<and>
          map_get (options (parser_mem h parser)) ''b'' = Some ob \<and>
          otype (opt_mem h ob) = STRING \<and> \<not> greedy (opt_mem h ob) \<and>
          map_get (options (parser_mem h parser)) ''c'' = Some oc \<and>
          otype (opt_mem h oc) = FLAG \<longrightarrow>
            ap_parse E parser [prog, ''-abc'', ''foo'', ''bar''] h =
              ap_parse E parser [prog, ''-a'', ''foo'', ''-b'', ''bar'', ''-c''] h \<and>
            (\<exists>h'. ap_parse E parser [prog, ''-abc'', ''foo'', ''bar''] h = Inr h' \<and>
                  ap_get_str h' parser ''b'' = Inr ''bar'' \<and>
                  ap_get_flag h' parser ''c'' = Inr True \<and>
                  ap_get_args h' parser = ap_get_args h parser))"
proof (intro conjI)
  from assms have "CHR ''='' \<notin> set [c]" and "CHR ''='' \<notin> set cs" by auto
  with assms show "argparser_parse_short_option E parser (c # cs) (h, stream) =
           (case argparser_parse_short_option E parser [c] (h, stream) of
              Inl e \<Rightarrow> Inl e
            | Inr st1 \<Rightarrow> argparser_parse_short_option E parser cs st1)"
    unfolding argparser_parse_short_option_def
    by (simp only: if_False prod.case short_option_loop_Cons[of E parser c cs])
       (auto split: sum.splits)
next
  from assms have "c \<noteq> CHR ''=''" by auto
  then show "argparser_parse_short_option E parser [c] (h, stream) =
           (case map_get (options (parser_mem h parser)) [c] of
              None \<Rightarrow> err (''-'' @ [c] @ '' is not a recognised option'')
            | Some opt \<Rightarrow>
               if otype (opt_mem h opt) = FLAG
               then Inr (upd_opt h opt
                           (\<lambda>x. x\<lparr>found := True, vals := vals x @ [bool_val True]\<rparr>), stream)
               else if argstream_has_next_value stream
               then (case option_try_set_at E opt (argstream_peek stream)
                            (upd_opt h opt (\<lambda>x. x\<lparr>found := True\<rparr>)) of
                       Inl e \<Rightarrow> Inl e
                     | Inr h1 \<Rightarrow>
                        if greedy (opt_mem h opt)
                        then greedy_loop E opt (h1, stream\<lparr>index := Suc (index stream)\<rparr>)
                        else Inr (h1, stream\<lparr>index := Suc (index stream)\<rparr>))
               else err (''missing argument for the -'' @ [c] @ '' option''))"
    by (rule short_single)
next
  show "option_try_set_at E o1 v h1 =
           (case otype (opt_mem h1 o1) of
              FLAG \<Rightarrow> Inr h1
            | STRING \<Rightarrow> Inr (upd_opt h1 o1 (\<lambda>x. x\<lparr>vals := vals x @ [str_val v]\<rparr>))
            | INTEGER \<Rightarrow>
                (case try_str_to_int v of
                   Inl e \<Rightarrow> Inl e
                 | Inr w \<Rightarrow> Inr (upd_opt h1 o1 (\<lambda>x. x\<lparr>vals := vals x @ [int_val w]\<rparr>)))
            | FLOAT \<Rightarrow>
                (case try_str_to_double (strtod E) v of
                   Inl e \<Rightarrow> Inl e
                 | Inr d \<Rightarrow> Inr (upd_opt h1 o1 (\<lambda>x. x\<lparr>vals := vals x @ [float_val d]\<rparr>))))"
    by (rule option_try_set_at_cases)
next
  show "greedy_loop E o2 (h2, s2) = Inr (h3, s3) \<and> otype (opt_mem h2 o2) \<noteq> FLAG \<longrightarrow>
            s3 = s2\<lparr>index := index s2 +
                               length (takeWhile value_shaped (drop (index s2) (args s2)))\<rparr> \<and>
            length (vals (opt_mem h3 o2)) =
              length (vals (opt_mem h2 o2)) +
              length (takeWhile value_shaped (drop (index s2) (args s2)))"
    using greedy_loop_consumes[of E o2 h2 s2 h3 s3] greedy_loop_count[of E o2 h2 s2 h3 s3]
    by blast
next
  show "otype (opt_mem h2 o2) = STRING \<longrightarrow>
            greedy_loop E o2 (h2, s2) =
              Inr (upd_opt h2 o2
                     (\<lambda>x. x\<lparr>vals := vals x @
                               map str_val (takeWhile value_shaped (drop (index s2) (args s2)))\<rparr>),
                   s2\<lparr>index := index s2 +
                                length (takeWhile value_shaped (drop (index s2) (args s2)))\<rparr>)"
    using greedy_loop_strings[of h2 o2 E s2] by blast
next
  show "argstream_has_next_value s2 \<longleftrightarrow>
            argstream_has_next s2 \<and> value_shaped (argstream_peek s2)"
    by (rule has_next_value_shaped)
next
  show "map_get (options (parser_mem h parser)) ''a'' = Some oa \<and>
          otype (opt_mem h oa) = STRING \<and> \<not> greedy (opt_mem h oa) \<and>
          map_get (options (parser_mem h parser)) ''b'' = Some ob \<and>
          otype (opt_mem h ob) = STRING \<and> \<not> greedy (opt_mem h ob) \<and>
          map_get (options (parser_mem h parser)) ''c'' = Some oc \<and>
          otype (opt_mem h oc) = FLAG \<longrightarrow>
            ap_parse E parser [prog, ''-abc'', ''foo'', ''bar''] h =
              ap_parse E parser [prog, ''-a'', ''foo'', ''-b'', ''bar'', ''-c''] h \<and>
            (\<exists>h'. ap_parse E parser [prog, ''-abc'', ''foo'', ''bar''] h = Inr h' \<and>
                  ap_get_str h' parser ''b'' = Inr ''bar'' \<and>
                  ap_get_flag h' parser ''c'' = Inr True \<and>
                  ap_get_args h' parser = ap_get_args h parser)"
    using comment_example[of h parser oa ob oc E prog] by blast
qed

text \<open>
  The theorem at \<^verbatim>\<open>-ab x y\<close>, at the greedy list \<^verbatim>\<open>t\<close> before \<^verbatim>\<open>x y -c\<close>, and at the
  two command lines of the comment.
\<close>

theorem bundle_goes_on_after_a_value_witness:
  "CHR ''='' \<notin> set ''ab'' \<and>
   argparser_parse_short_option quiet_extern 0 ''ab''
       (bundle_heap, \<lparr>index = 2, args = [''app'', ''-ab'', ''x'', ''y'']\<rparr>) =
     (case argparser_parse_short_option quiet_extern 0 ''a''
             (bundle_heap, \<lparr>index = 2, args = [''app'', ''-ab'', ''x'', ''y'']\<rparr>) of
        Inl e \<Rightarrow> Inl e
      | Inr st1 \<Rightarrow> argparser_parse_short_option quiet_extern 0 ''b'' st1) \<and>
   argparser_parse_short_option quiet_extern 0 ''a''
       (bundle_heap, \<lparr>index = 2, args = [''app'', ''-ab'', ''x'', ''y'']\<rparr>) =
     Inr (upd_opt bundle_heap 0 (\<lambda>x. x\<lparr>found := True, vals := vals x @ [str_val ''x'']\<rparr>),
          \<lparr>index = 3, args = [''app'', ''-ab'', ''x'', ''y'']\<rparr>) \<and>
   otype (opt_mem bundle_heap 3) = STRING \<and> otype (opt_mem bundle_heap 3) \<noteq> FLAG \<and>
   greedy_loop quiet_extern 3
       (bundle_heap, \<lparr>index = 2, args = [''app'', ''-t'', ''x'', ''y'', ''-c'']\<rparr>) =
     Inr (upd_opt bundle_heap 3 (\<lambda>x. x\<lparr>vals := vals x @ [str_val ''x'', str_val ''y'']\<rparr>),
          \<lparr>index = 4, args = [''app'', ''-t'', ''x'', ''y'', ''-c'']\<rparr>) \<and>
   length (vals (opt_mem
      (upd_opt bundle_heap 3 (\<lambda>x. x\<lparr>vals := vals x @ [str_val ''x'', str_val ''y'']\<rparr>)) 3)) =
     length (vals (opt_mem bundle_heap 3)) + 2 \<and>
   map_get (options (parser_mem bundle_heap 0)) ''a'' = Some 0 \<and>
   otype (opt_mem bundle_heap 0) = STRING \<and> \<not> greedy (opt_mem bundle_heap 0) \<and>
   map_get (options (parser_mem bundle_heap 0)) ''b'' = Some 1 \<and>
   otype (opt_mem bundle_heap 1) = STRING \<and> \<not> greedy (opt_mem bundle_heap 1) \<and>
   map_get (options (parser_mem bundle_heap 0)) ''c'' = Some 2 \<and>
   otype (opt_mem bundle_heap 2) = FLAG \<and>
   ap_parse quiet_extern 0 [''app'', ''-abc'', ''foo'', ''bar''] bundle_heap =
     ap_parse quiet_extern 0 [''app'', ''-a'', ''foo'', ''-b'', ''bar'', ''-c''] bundle_heap \<and>
   (\<exists>h'. ap_parse quiet_extern 0 [''app'', ''-abc'', ''foo'', ''bar''] bundle_heap = Inr h' \<and>
         ap_get_str h' 0 ''a'' = Inr ''foo'' \<and>
         ap_get_str h' 0 ''b'' = Inr ''bar'' \<and>
         ap_get_flag h' 0 ''c'' = Inr True \<and>
         ap_get_args h' 0 = [])"
proof -
  let ?s = "\<lparr>index = 2, args = [''app'', ''-ab'', ''x'', ''y'']\<rparr>"
  let ?g = "\<lparr>index = 2, args = [''app'', ''-t'', ''x'', ''y'', ''-c'']\<rparr>"
  note t = bundle_goes_on_after_a_value
  have e: "CHR ''='' \<notin> set ''ab''" by simp
  have a: "map_get (options (parser_mem bundle_heap 0)) ''a'' = Some 0"
    and ta: "otype (opt_mem bundle_heap 0) = STRING" and ga: "\<not> greedy (opt_mem bundle_heap 0)"
    and b: "map_get (options (parser_mem bundle_heap 0)) ''b'' = Some 1"
    and tb: "otype (opt_mem bundle_heap 1) = STRING" and gb: "\<not> greedy (opt_mem bundle_heap 1)"
    and c: "map_get (options (parser_mem bundle_heap 0)) ''c'' = Some 2"
    and tc: "otype (opt_mem bundle_heap 2) = FLAG"
    and tt: "otype (opt_mem bundle_heap 3) = STRING"
    and ar: "ap_get_args bundle_heap 0 = []"
    by (simp_all add: bundle_heap_def register_defs heap_defs option_defs query_defs)
  have v: "argstream_has_next_value ?s" by (simp add: stream_defs char_at_def)
  have run: "takeWhile value_shaped (drop (index ?g) (args ?g)) = [''x'', ''y'']"
    by (simp add: value_shaped_def isdigit_def)
  have c1: "argparser_parse_short_option quiet_extern 0 ''ab'' (bundle_heap, ?s) =
     (case argparser_parse_short_option quiet_extern 0 ''a'' (bundle_heap, ?s) of
        Inl e \<Rightarrow> Inl e
      | Inr st1 \<Rightarrow> argparser_parse_short_option quiet_extern 0 ''b'' st1)"
    by (rule t[OF e, THEN conjunct1])
  have c2: "argparser_parse_short_option quiet_extern 0 ''a'' (bundle_heap, ?s) =
     Inr (upd_opt bundle_heap 0 (\<lambda>x. x\<lparr>found := True, vals := vals x @ [str_val ''x'']\<rparr>),
          \<lparr>index = 3, args = [''app'', ''-ab'', ''x'', ''y'']\<rparr>)"
    using t[OF e, THEN conjunct2, THEN conjunct1, of quiet_extern 0 bundle_heap ?s] a ta ga v
    by (simp add: option_try_set_at_cases upd_opt_def argstream_peek_def)
  have c3: "greedy_loop quiet_extern 3 (bundle_heap, ?g) =
     Inr (upd_opt bundle_heap 3 (\<lambda>x. x\<lparr>vals := vals x @ [str_val ''x'', str_val ''y'']\<rparr>),
          \<lparr>index = 4, args = [''app'', ''-t'', ''x'', ''y'', ''-c'']\<rparr>)"
    using t[OF e, THEN conjunct2, THEN conjunct2, THEN conjunct2, THEN conjunct2, THEN conjunct1,
            rule_format, of bundle_heap 3 quiet_extern ?g, OF tt]
    by (simp only: run) simp
  have c4: "length (vals (opt_mem
      (upd_opt bundle_heap 3 (\<lambda>x. x\<lparr>vals := vals x @ [str_val ''x'', str_val ''y'']\<rparr>)) 3)) =
     length (vals (opt_mem bundle_heap 3)) + 2"
    using t[OF e, THEN conjunct2, THEN conjunct2, THEN conjunct2, THEN conjunct1, rule_format,
            of quiet_extern 3 bundle_heap ?g _ _] c3 tt
    by (simp add: run)
  from t[OF e, THEN conjunct2, THEN conjunct2, THEN conjunct2, THEN conjunct2, THEN conjunct2,
         THEN conjunct2, rule_format, of bundle_heap 0 0 1 2 quiet_extern "''app''"]
    a ta ga b tb gb c tc
  have c5: "ap_parse quiet_extern 0 [''app'', ''-abc'', ''foo'', ''bar''] bundle_heap =
     ap_parse quiet_extern 0 [''app'', ''-a'', ''foo'', ''-b'', ''bar'', ''-c''] bundle_heap"
    by blast
  have c6: "\<exists>h'. ap_parse quiet_extern 0 [''app'', ''-abc'', ''foo'', ''bar''] bundle_heap = Inr h' \<and>
         ap_get_str h' 0 ''a'' = Inr ''foo'' \<and>
         ap_get_str h' 0 ''b'' = Inr ''bar'' \<and>
         ap_get_flag h' 0 ''c'' = Inr True \<and>
         ap_get_args h' 0 = []"
    by (simp add: bundle_heap_def register_defs parse_defs heap_defs option_defs query_defs
        Let_def)
  from e c1 c2 c3 c4 a ta ga b tb gb c tc tt c5 c6 show ?thesis by simp
qed

text \<open>
  C1 as stated fails: in \<^verbatim>\<open>-ab x y\<close> the option \<^verbatim>\<open>a\<close> claims \<^verbatim>\<open>x\<close>, and the handling
  of the bundle does not stop there: \<^verbatim>\<open>b\<close> is found too and claims \<^verbatim>\<open>y\<close>, and no
  positional argument is left.
\<close>

theorem bundle_stops_counterexample:
  "(case ap_parse quiet_extern 0 [''app'', ''-ab'', ''x'', ''y''] ab_heap of
      Inl e \<Rightarrow> Inl e
    | Inr h \<Rightarrow>
       Inr (ap_get_str h 0 ''a'', ap_found h 0 ''b'', ap_get_str h 0 ''b'', ap_get_args h 0)) =
   Inr (Inr ''x'', Inr True, Inr ''y'', [])"
  by code_simp

subsection \<open>The equals form\<close>

lemma split_at_equals:
  "CHR ''='' \<notin> set name \<Longrightarrow>
     takeWhile (\<lambda>c. c \<noteq> CHR ''='') (name @ CHR ''='' # v) = name \<and>
     tl (dropWhile (\<lambda>c. c \<noteq> CHR ''='') (name @ CHR ''='' # v)) = v"
  by (induction name) auto

lemma option_try_set_found:
  "option_try_set sd (opt\<lparr>found := b\<rparr>) v =
     (case option_try_set sd opt v of Inl e \<Rightarrow> Inl e | Inr x \<Rightarrow> Inr (x\<lparr>found := b\<rparr>))"
  by (simp add: option_try_set_def option_set_str_def option_set_int_def option_set_float_def
      option_append_def split: sum.splits)

lemma option_try_set_appends:
  "option_try_set sd opt v = Inr x \<Longrightarrow> otype opt \<noteq> FLAG \<Longrightarrow>
     \<exists>w. vals x = vals opt @ [w] \<and> otype x = otype opt \<and> greedy x = greedy opt \<and> found x = found opt"
  by (cases "otype opt")
     (auto simp: option_try_set_def option_set_str_def option_set_int_def option_set_float_def
           option_append_def split: sum.splits)

lemma equals_option_cases:
  assumes "map_get (options (parser_mem h parser)) name = Some opt"
    and "CHR ''='' \<notin> set name"
  shows "argparser_parse_equals_option E parser prefix (name @ ''='' @ v) h =
     (if otype (opt_mem h opt) = FLAG
      then err (''invalid format for boolean flag '' @ prefix @ name)
      else if v = []
      then err (''missing argument for the '' @ prefix @ name @ '' option'')
      else if otype (opt_mem h opt) = STRING
      then Inr (upd_opt h opt (\<lambda>x. x\<lparr>found := True, vals := vals x @ [str_val v]\<rparr>))
      else if otype (opt_mem h opt) = INTEGER
      then (case try_str_to_int v of
              Inl e \<Rightarrow> Inl e
            | Inr w \<Rightarrow>
               Inr (upd_opt h opt (\<lambda>x. x\<lparr>found := True, vals := vals x @ [int_val w]\<rparr>)))
      else (case try_str_to_double (strtod E) v of
              Inl e \<Rightarrow> Inl e
            | Inr d \<Rightarrow>
               Inr (upd_opt h opt (\<lambda>x. x\<lparr>found := True, vals := vals x @ [float_val d]\<rparr>))))"
  using assms split_at_equals[of name v]
  by (cases "otype (opt_mem h opt)")
     (simp_all add: argparser_parse_equals_option_def option_try_set_at_cases upd_opt_def
        split: sum.splits)

text \<open>
  C10, as amended. For a registered greedy option \<^verbatim>\<open>name\<close>, the equals form \<^verbatim>\<open>name=v\<close> is,
  in the long and in the short handler, the equals handler on the heap alone: the stream
  comes back as it was given, whatever tokens follow, so the greedy loop runs in the
  spaced form only. When \<^verbatim>\<open>v\<close> is not empty and the option's type accepts it, the equals
  handler marks the option found and appends exactly one value: \<^verbatim>\<open>v\<close> itself for a string
  option, the number that \<^verbatim>\<open>strtol\<close> or \<^verbatim>\<open>strtod\<close> reads in the whole of \<^verbatim>\<open>v\<close> for an
  integer or a float option. An empty \<^verbatim>\<open>v\<close> is the fatal error of a missing argument, a
  \<^verbatim>\<open>v\<close> that is out of range or has characters after the number is the fatal error of the
  coercion, and an option of the flag type is the fatal error of the format.
\<close>

theorem equals_form_takes_one_value:
  assumes "map_get (options (parser_mem h parser)) name = Some opt"
    and "greedy (opt_mem h opt)"
    and "CHR ''='' \<notin> set name"
  shows "argparser_parse_long_option E parser (name @ ''='' @ v) (h, stream) =
           (case argparser_parse_equals_option E parser ''--'' (name @ ''='' @ v) h of
              Inl e \<Rightarrow> Inl e
            | Inr h1 \<Rightarrow> Inr (h1, stream)) \<and>
         argparser_parse_short_option E parser (name @ ''='' @ v) (h, stream) =
           (case argparser_parse_equals_option E parser ''-'' (name @ ''='' @ v) h of
              Inl e \<Rightarrow> Inl e
            | Inr h1 \<Rightarrow> Inr (h1, stream)) \<and>
         argparser_parse_equals_option E parser prefix (name @ ''='' @ v) h =
           (if otype (opt_mem h opt) = FLAG
            then err (''invalid format for boolean flag '' @ prefix @ name)
            else if v = []
            then err (''missing argument for the '' @ prefix @ name @ '' option'')
            else if otype (opt_mem h opt) = STRING
            then Inr (upd_opt h opt (\<lambda>x. x\<lparr>found := True, vals := vals x @ [str_val v]\<rparr>))
            else if otype (opt_mem h opt) = INTEGER
            then (case try_str_to_int v of
                    Inl e \<Rightarrow> Inl e
                  | Inr w \<Rightarrow>
                     Inr (upd_opt h opt
                            (\<lambda>x. x\<lparr>found := True, vals := vals x @ [int_val w]\<rparr>)))
            else (case try_str_to_double (strtod E) v of
                    Inl e \<Rightarrow> Inl e
                  | Inr d \<Rightarrow>
                     Inr (upd_opt h opt
                            (\<lambda>x. x\<lparr>found := True, vals := vals x @ [float_val d]\<rparr>)))) \<and>
         try_str_to_int v =
           (case strtol v of (n, rest, erange) \<Rightarrow>
              if erange \<or> n > INT_MAX \<or> n < INT_MIN
              then err ([quote] @ v @ [quote] @ '' is out of range'')
              else if rest \<noteq> []
              then err (''cannot parse '' @ [quote] @ v @ [quote] @ '' as an integer'')
              else Inr (word_of_int n)) \<and>
         try_str_to_double (strtod E) v =
           (case strtod E v of (d, rest, erange) \<Rightarrow>
              if erange
              then err ([quote] @ v @ [quote] @ '' is out of range'')
              else if rest \<noteq> []
              then err (''cannot parse '' @ [quote] @ v @ [quote] @ '' as a float'')
              else Inr d)"
proof (intro conjI)
  show "argparser_parse_long_option E parser (name @ ''='' @ v) (h, stream) =
           (case argparser_parse_equals_option E parser ''--'' (name @ ''='' @ v) h of
              Inl e \<Rightarrow> Inl e
            | Inr h1 \<Rightarrow> Inr (h1, stream))"
    by (simp add: argparser_parse_long_option_def)
  show "argparser_parse_short_option E parser (name @ ''='' @ v) (h, stream) =
           (case argparser_parse_equals_option E parser ''-'' (name @ ''='' @ v) h of
              Inl e \<Rightarrow> Inl e
            | Inr h1 \<Rightarrow> Inr (h1, stream))"
    by (simp add: argparser_parse_short_option_def)
  show "argparser_parse_equals_option E parser prefix (name @ ''='' @ v) h =
           (if otype (opt_mem h opt) = FLAG
            then err (''invalid format for boolean flag '' @ prefix @ name)
            else if v = []
            then err (''missing argument for the '' @ prefix @ name @ '' option'')
            else if otype (opt_mem h opt) = STRING
            then Inr (upd_opt h opt (\<lambda>x. x\<lparr>found := True, vals := vals x @ [str_val v]\<rparr>))
            else if otype (opt_mem h opt) = INTEGER
            then (case try_str_to_int v of
                    Inl e \<Rightarrow> Inl e
                  | Inr w \<Rightarrow>
                     Inr (upd_opt h opt
                            (\<lambda>x. x\<lparr>found := True, vals := vals x @ [int_val w]\<rparr>)))
            else (case try_str_to_double (strtod E) v of
                    Inl e \<Rightarrow> Inl e
                  | Inr d \<Rightarrow>
                     Inr (upd_opt h opt
                            (\<lambda>x. x\<lparr>found := True, vals := vals x @ [float_val d]\<rparr>))))"
    by (rule equals_option_cases[OF assms(1,3)])
  show "try_str_to_int v =
           (case strtol v of (n, rest, erange) \<Rightarrow>
              if erange \<or> n > INT_MAX \<or> n < INT_MIN
              then err ([quote] @ v @ [quote] @ '' is out of range'')
              else if rest \<noteq> []
              then err (''cannot parse '' @ [quote] @ v @ [quote] @ '' as an integer'')
              else Inr (word_of_int n))"
    by (simp add: try_str_to_int_def split: prod.splits)
  show "try_str_to_double (strtod E) v =
           (case strtod E v of (d, rest, erange) \<Rightarrow>
              if erange
              then err ([quote] @ v @ [quote] @ '' is out of range'')
              else if rest \<noteq> []
              then err (''cannot parse '' @ [quote] @ v @ [quote] @ '' as a float'')
              else Inr d)"
    by (simp add: try_str_to_double_def split: prod.splits)
qed

text \<open>
  The theorem at \<^verbatim>\<open>--tags=a b c\<close> and at \<^verbatim>\<open>-tags=\<close>, where \<^verbatim>\<open>tags\<close> is a greedy string list,
  and at \<^verbatim>\<open>-ids=7\<close>, \<^verbatim>\<open>--ids=7x\<close> and \<^verbatim>\<open>--nums=42\<close>, where \<^verbatim>\<open>ids\<close> is a greedy integer list
  and \<^verbatim>\<open>nums\<close> a greedy list of doubles. The whole parse of \<^verbatim>\<open>--tags=a b c\<close> leaves \<^verbatim>\<open>a\<close> in
  the list, and \<^verbatim>\<open>b\<close> and \<^verbatim>\<open>c\<close> are positional arguments.
\<close>

theorem equals_form_takes_one_value_witness:
  "map_get (options (parser_mem tags_heap 0)) ''tags'' = Some 0 \<and>
   greedy (opt_mem tags_heap 0) \<and>
   CHR ''='' \<notin> set ''tags'' \<and>
   argstream_has_next_value \<lparr>index = 2, args = [''app'', ''--tags=a'', ''b'', ''c'']\<rparr> \<and>
   argparser_parse_long_option quiet_extern 0 (''tags'' @ ''='' @ ''a'')
       (tags_heap, \<lparr>index = 2, args = [''app'', ''--tags=a'', ''b'', ''c'']\<rparr>) =
     Inr (upd_opt tags_heap 0 (\<lambda>x. x\<lparr>found := True, vals := vals x @ [str_val ''a'']\<rparr>),
          \<lparr>index = 2, args = [''app'', ''--tags=a'', ''b'', ''c'']\<rparr>) \<and>
   argparser_parse_short_option quiet_extern 0 (''tags'' @ ''='' @ [])
       (tags_heap, \<lparr>index = 2, args = [''app'', ''-tags='', ''b'', ''c'']\<rparr>) =
     err ''missing argument for the -tags option'' \<and>
   map_get (options (parser_mem nums_heap 0)) ''ids'' = Some 0 \<and>
   greedy (opt_mem nums_heap 0) \<and>
   CHR ''='' \<notin> set ''ids'' \<and>
   argparser_parse_short_option whole_extern 0 (''ids'' @ ''='' @ ''7'')
       (nums_heap, \<lparr>index = 2, args = [''app'', ''-ids=7'', ''8'']\<rparr>) =
     Inr (upd_opt nums_heap 0 (\<lambda>x. x\<lparr>found := True, vals := vals x @ [int_val 7]\<rparr>),
          \<lparr>index = 2, args = [''app'', ''-ids=7'', ''8'']\<rparr>) \<and>
   argparser_parse_long_option whole_extern 0 (''ids'' @ ''='' @ ''7x'')
       (nums_heap, \<lparr>index = 2, args = [''app'', ''--ids=7x'', ''8'']\<rparr>) =
     err (''cannot parse '' @ [quote] @ ''7x'' @ [quote] @ '' as an integer'') \<and>
   map_get (options (parser_mem nums_heap 0)) ''nums'' = Some 1 \<and>
   greedy (opt_mem nums_heap 1) \<and>
   CHR ''='' \<notin> set ''nums'' \<and>
   argparser_parse_long_option whole_extern 0 (''nums'' @ ''='' @ ''42'')
       (nums_heap, \<lparr>index = 2, args = [''app'', ''--nums=42'', ''43'']\<rparr>) =
     Inr (upd_opt nums_heap 1 (\<lambda>x. x\<lparr>found := True, vals := vals x @ [float_val 42]\<rparr>),
          \<lparr>index = 2, args = [''app'', ''--nums=42'', ''43'']\<rparr>) \<and>
   (case ap_parse quiet_extern 0 [''app'', ''--tags=a'', ''b'', ''c''] tags_heap of
      Inl e \<Rightarrow> Inl e
    | Inr h \<Rightarrow> Inr (ap_get_str_list h 0 ''tags'', ap_get_args h 0)) =
   Inr (Inr [''a''], [''b'', ''c''])"
proof -
  let ?s = "\<lparr>index = 2, args = [''app'', ''--tags=a'', ''b'', ''c'']\<rparr>"
  have r: "map_get (options (parser_mem tags_heap 0)) ''tags'' = Some 0"
    and g: "greedy (opt_mem tags_heap 0)"
    and t: "otype (opt_mem tags_heap 0) = STRING"
    by (simp_all add: tags_heap_def register_defs heap_defs option_defs)
  have ri: "map_get (options (parser_mem nums_heap 0)) ''ids'' = Some 0"
    and gi: "greedy (opt_mem nums_heap 0)"
    and ti: "otype (opt_mem nums_heap 0) = INTEGER"
    and rf: "map_get (options (parser_mem nums_heap 0)) ''nums'' = Some 1"
    and gf: "greedy (opt_mem nums_heap 1)"
    and tf: "otype (opt_mem nums_heap 1) = FLOAT"
    by (simp_all add: nums_heap_def register_defs heap_defs option_defs
        ap_add_int_list_def argparser_add_int_list_def option_new_int_list_def
        ap_add_float_list_def argparser_add_float_list_def option_new_float_list_def)
  have e: "CHR ''='' \<notin> set ''tags''" and ei: "CHR ''='' \<notin> set ''ids''"
    and ef: "CHR ''='' \<notin> set ''nums''"
    by simp_all
  have v: "argstream_has_next_value ?s"
    by (simp add: stream_defs char_at_def)
  have i7: "strtol ''7'' = (7, [], False)" and i7x: "strtol ''7x'' = (7, ''x'', False)"
    and i42: "strtol ''42'' = (42, [], False)"
    by code_simp+
  have p: "(case ap_parse quiet_extern 0 [''app'', ''--tags=a'', ''b'', ''c''] tags_heap of
      Inl e \<Rightarrow> Inl e
    | Inr h \<Rightarrow> Inr (ap_get_str_list h 0 ''tags'', ap_get_args h 0)) =
   Inr (Inr [''a''], [''b'', ''c''])"
    by code_simp
  note a = equals_form_takes_one_value[OF r g e, where E = quiet_extern and v = "''a''"
      and stream = ?s and prefix = "''--''"]
  note b = equals_form_takes_one_value[OF r g e, where E = quiet_extern and v = "[]"
      and stream = "\<lparr>index = 2, args = [''app'', ''-tags='', ''b'', ''c'']\<rparr>"
      and prefix = "''-''"]
  note c = equals_form_takes_one_value[OF ri gi ei, where E = whole_extern and v = "''7''"
      and stream = "\<lparr>index = 2, args = [''app'', ''-ids=7'', ''8'']\<rparr>" and prefix = "''-''"]
  note d = equals_form_takes_one_value[OF ri gi ei, where E = whole_extern and v = "''7x''"
      and stream = "\<lparr>index = 2, args = [''app'', ''--ids=7x'', ''8'']\<rparr>"
      and prefix = "''--''"]
  note f = equals_form_takes_one_value[OF rf gf ef, where E = whole_extern and v = "''42''"
      and stream = "\<lparr>index = 2, args = [''app'', ''--nums=42'', ''43'']\<rparr>"
      and prefix = "''--''"]
  have ca: "argparser_parse_long_option quiet_extern 0 (''tags'' @ ''='' @ ''a'') (tags_heap, ?s) =
     Inr (upd_opt tags_heap 0 (\<lambda>x. x\<lparr>found := True, vals := vals x @ [str_val ''a'']\<rparr>), ?s)"
    using a t by simp
  have cb: "argparser_parse_short_option quiet_extern 0 (''tags'' @ ''='' @ [])
       (tags_heap, \<lparr>index = 2, args = [''app'', ''-tags='', ''b'', ''c'']\<rparr>) =
     err ''missing argument for the -tags option''"
    using b t by (simp add: err_def)
  have cc: "argparser_parse_short_option whole_extern 0 (''ids'' @ ''='' @ ''7'')
       (nums_heap, \<lparr>index = 2, args = [''app'', ''-ids=7'', ''8'']\<rparr>) =
     Inr (upd_opt nums_heap 0 (\<lambda>x. x\<lparr>found := True, vals := vals x @ [int_val 7]\<rparr>),
          \<lparr>index = 2, args = [''app'', ''-ids=7'', ''8'']\<rparr>)"
    using c ti i7 by (simp add: INT_MAX_def INT_MIN_def)
  have cd: "argparser_parse_long_option whole_extern 0 (''ids'' @ ''='' @ ''7x'')
       (nums_heap, \<lparr>index = 2, args = [''app'', ''--ids=7x'', ''8'']\<rparr>) =
     err (''cannot parse '' @ [quote] @ ''7x'' @ [quote] @ '' as an integer'')"
    using d ti i7x by (simp add: INT_MAX_def INT_MIN_def err_def)
  have cf: "argparser_parse_long_option whole_extern 0 (''nums'' @ ''='' @ ''42'')
       (nums_heap, \<lparr>index = 2, args = [''app'', ''--nums=42'', ''43'']\<rparr>) =
     Inr (upd_opt nums_heap 1 (\<lambda>x. x\<lparr>found := True, vals := vals x @ [float_val 42]\<rparr>),
          \<lparr>index = 2, args = [''app'', ''--nums=42'', ''43'']\<rparr>)"
    using f tf i42 by (simp add: whole_extern_def)
  from r g e v ca cb ri gi ei cc cd rf gf ef cf p show ?thesis
    by (intro conjI)
qed

text \<open>
  C10 as stated fails at the empty value and at a value that the type refuses: \<^verbatim>\<open>--tags=\<close>
  on a greedy string list appends nothing, it is the fatal error of a missing argument,
  with or without a token after it; and \<^verbatim>\<open>--ids=7x\<close> on a greedy integer list is the fatal
  error of the coercion.
\<close>

theorem empty_equals_value_counterexample:
  "(case ap_parse quiet_extern 0 [''app'', ''--tags=''] tags_heap of
      Inl e \<Rightarrow> Inl e
    | Inr h \<Rightarrow> Inr (ap_get_str_list h 0 ''tags'', ap_get_args h 0)) =
     err ''missing argument for the --tags option'' \<and>
   (case ap_parse quiet_extern 0 [''app'', ''--tags='', ''b''] tags_heap of
      Inl e \<Rightarrow> Inl e
    | Inr h \<Rightarrow> Inr (ap_get_str_list h 0 ''tags'', ap_get_args h 0)) =
     err ''missing argument for the --tags option'' \<and>
   (case ap_parse whole_extern 0 [''app'', ''--ids=7x''] nums_heap of
      Inl e \<Rightarrow> Inl e
    | Inr h \<Rightarrow> Inr (ap_len_list h 0 ''ids'', ap_get_args h 0)) =
     err (''cannot parse '' @ [quote] @ ''7x'' @ [quote] @ '' as an integer'')"
  by code_simp

text \<open>
  C4, as amended. For a registered option \<^verbatim>\<open>name\<close> that is neither a flag nor greedy,
  whose name is not empty and has no \<^verbatim>\<open>=\<close>, and a value \<^verbatim>\<open>v\<close> that is not empty, that
  the option's type accepts and that is value-shaped (it does not start with \<^verbatim>\<open>-\<close>, or is
  \<^verbatim>\<open>-\<close> alone, or has a digit after the \<^verbatim>\<open>-\<close>), parsing the one token \<^verbatim>\<open>--name=v\<close> and
  parsing the two tokens \<^verbatim>\<open>--name\<close> \<^verbatim>\<open>v\<close> end in the same state: the option is found and
  has the value of \<^verbatim>\<open>v\<close> appended, and nothing else has changed.
\<close>

theorem equals_form_is_the_spaced_form:
  assumes "map_get (options (parser_mem h parser)) name = Some opt"
    and "otype (opt_mem h opt) \<noteq> FLAG"
    and "\<not> greedy (opt_mem h opt)"
    and "name \<noteq> []"
    and "CHR ''='' \<notin> set name"
    and "v \<noteq> []"
    and "option_try_set (strtod E) (opt_mem h opt) v = Inr x"
    and "argstream_has_next_value (argstream_new [v])"
  shows "ap_parse E parser [prog, ''--'' @ name @ ''='' @ v] h =
           ap_parse E parser [prog, ''--'' @ name, v] h \<and>
         ap_parse E parser [prog, ''--'' @ name, v] h =
           Inr (upd_opt h opt (\<lambda>_. x\<lparr>found := True\<rparr>))"
proof -
  from assms(2,3,7) have g: "\<not> greedy x"
    using option_try_set_appends[of "strtod E" "opt_mem h opt" v x] by auto
  have l: "ap_parse E parser [prog, ''--'' @ name @ ''='' @ v] h =
             Inr (upd_opt h opt (\<lambda>_. x\<lparr>found := True\<rparr>))"
    using assms split_at_equals[of name v]
    by (simp add: ap_parse_def argparser_parse_def argparser_parse_stream_def
        parse_stream_loop.simps stream_defs
        argparser_parse_long_option_def
        argparser_parse_equals_option_def option_try_set_at_def option_try_set_found upd_opt_def)
  from assms(8) have vs: "char_at v 0 = CHR ''-'' \<longrightarrow> length v = 1 \<or> isdigit (char_at v 1)"
    by (simp add: stream_defs split: if_splits)
  have r: "ap_parse E parser [prog, ''--'' @ name, v] h =
             Inr (upd_opt h opt (\<lambda>_. x\<lparr>found := True\<rparr>))"
    using assms(1-7) g vs
    by (auto simp add: ap_parse_def argparser_parse_def argparser_parse_stream_def
        parse_stream_loop.simps stream_defs map_contains_get
        argparser_parse_long_option_def take_value_def
        option_try_set_at_def option_try_set_found upd_opt_def)
  from l r show ?thesis by simp
qed

text \<open>The theorem at the string option \<^verbatim>\<open>name\<close> and the value \<^verbatim>\<open>-5\<close>.\<close>

theorem equals_form_is_the_spaced_form_witness:
  "map_get (options (parser_mem name_heap 0)) ''name'' = Some 0 \<and>
   otype (opt_mem name_heap 0) \<noteq> FLAG \<and>
   \<not> greedy (opt_mem name_heap 0) \<and>
   ''name'' \<noteq> [] \<and>
   CHR ''='' \<notin> set ''name'' \<and>
   ''-5'' \<noteq> [] \<and>
   option_try_set (strtod quiet_extern) (opt_mem name_heap 0) ''-5'' =
     Inr ((opt_mem name_heap 0)\<lparr>vals := [str_val ''none'', str_val ''-5'']\<rparr>) \<and>
   argstream_has_next_value (argstream_new [''-5'']) \<and>
   ap_parse quiet_extern 0 [''app'', ''--'' @ ''name'' @ ''='' @ ''-5''] name_heap =
     ap_parse quiet_extern 0 [''app'', ''--'' @ ''name'', ''-5''] name_heap \<and>
   ap_parse quiet_extern 0 [''app'', ''--'' @ ''name'', ''-5''] name_heap =
     Inr (upd_opt name_heap 0
            (\<lambda>_. (opt_mem name_heap 0)\<lparr>vals := [str_val ''none'', str_val ''-5''], found := True\<rparr>))"
proof -
  have r: "map_get (options (parser_mem name_heap 0)) ''name'' = Some 0"
    and t: "otype (opt_mem name_heap 0) \<noteq> FLAG"
    and g: "\<not> greedy (opt_mem name_heap 0)"
    and c: "option_try_set (strtod quiet_extern) (opt_mem name_heap 0) ''-5'' =
              Inr ((opt_mem name_heap 0)\<lparr>vals := [str_val ''none'', str_val ''-5'']\<rparr>)"
    by (simp_all add: name_heap_def register_defs heap_defs option_defs)
  have n: "''name'' \<noteq> []" and e: "CHR ''='' \<notin> set ''name''" and v: "''-5'' \<noteq> []"
    by simp_all
  have s: "argstream_has_next_value (argstream_new [''-5''])"
    by (simp add: stream_defs char_at_def isdigit_def)
  from equals_form_is_the_spaced_form[OF r t g n e v c s, of "''app''"]
  show ?thesis using r t g n e v c s by simp
qed

text \<open>
  C4 as stated fails at the value \<^verbatim>\<open>-x\<close>, which is not empty and is a string as good as
  any: \<^verbatim>\<open>--name=-x\<close> stores it, and \<^verbatim>\<open>--name -x\<close> is the fatal error of a missing
  argument, since \<^verbatim>\<open>-x\<close> is not value-shaped.
\<close>

theorem equals_form_counterexample:
  "(case ap_parse quiet_extern 0 [''app'', ''--name=-x''] name_heap of
      Inl e \<Rightarrow> Inl e
    | Inr h \<Rightarrow> Inr (ap_found h 0 ''name'', ap_get_str h 0 ''name'', ap_get_args h 0)) =
   Inr (Inr True, Inr ''-x'', []) \<and>
   (case ap_parse quiet_extern 0 [''app'', ''--name'', ''-x''] name_heap of
      Inl e \<Rightarrow> Inl e
    | Inr h \<Rightarrow> Inr (ap_found h 0 ''name'', ap_get_str h 0 ''name'', ap_get_args h 0)) =
   err ''missing argument for the --name option''"
  by code_simp

subsection \<open>What the parser does to the heap\<close>

text \<open>
  A relation between heaps that holds along every step of the parsing loop holds from
  the heap the loop starts on to the heap it returns.
\<close>

lemma parse_stream_loop_rel:
  assumes refl: "\<And>h. R h h"
    and trans: "\<And>h1 h2 h3. R h1 h2 \<Longrightarrow> R h2 h3 \<Longrightarrow> R h1 h3"
    and parser_upd: "\<And>h p f. R h (upd_parser h p f)"
    and long: "\<And>p a h s h' s'. argparser_parse_long_option E p a (h, s) = Inr (h', s') \<Longrightarrow> R h h'"
    and short: "\<And>p a h s h' s'. argparser_parse_short_option E p a (h, s) = Inr (h', s') \<Longrightarrow> R h h'"
    and cb: "\<And>c p h h'. call E c p h = Inr h' \<Longrightarrow> R h h'"
  shows "parse_stream_loop E' parsing parser st = Inr (h', s') \<Longrightarrow> E' = E \<Longrightarrow> R (fst st) h'"
proof (induction E' parsing parser st arbitrary: h' s' rule: parse_stream_loop.induct)
  case (1 E' parsing parser h stream)
  note unfold = parse_stream_loop.simps[of E' parsing parser h stream]
  note r0 = "1.prems"(1)[unfolded unfold]
  note E = \<open>E' = E\<close>
  show ?case
  proof (cases "argstream_has_next stream")
    case False
    with r0 show ?thesis by (simp add: refl)
  next
    case True
    obtain arg stream1 where nx: "argstream_next stream = (arg, stream1)"
      by (cases "argstream_next stream")
    let ?happ = "upd_parser h parser (\<lambda>ps. ps\<lparr>arguments := arglist_append (arguments ps) arg\<rparr>)"
    show ?thesis
    proof (cases parsing)
      case False
      with r0 True nx have "parse_stream_loop E' parsing parser (?happ, stream1) = Inr (h', s')"
        by simp
      from "1.IH"(1)[of arg stream1 h' s'] True nx False this E have "R ?happ h'" by simp
      with parser_upd[of h parser] show ?thesis by (auto intro: trans)
    next
      case parsing: True
      show ?thesis
      proof (cases "arg = ''--''")
        case True
        with r0 \<open>argstream_has_next stream\<close> nx parsing
        have "parse_stream_loop E' False parser (h, stream1) = Inr (h', s')" by simp
        from "1.IH"(2)[of arg stream1 h' s'] \<open>argstream_has_next stream\<close> nx parsing True this E
        show ?thesis by simp
      next
        case nodd: False
        show ?thesis
        proof (cases "take 2 arg = ''--''")
          case True
          with r0 \<open>argstream_has_next stream\<close> nx parsing nodd
          obtain h1 s1 where
            o: "argparser_parse_long_option E' parser (drop 2 arg) (h, stream1) = Inr (h1, s1)"
            and r: "parse_stream_loop E' parsing parser (h1, s1) = Inr (h', s')"
            by (cases "argparser_parse_long_option E' parser (drop 2 arg) (h, stream1)") auto
          from "1.IH"(3)[of arg stream1 "(h1, s1)" h' s'] \<open>argstream_has_next stream\<close> nx parsing
            nodd True o r E
          have "R h1 h'" by simp
          with long[of parser "drop 2 arg" h stream1 h1 s1] o E show ?thesis
            by (auto intro: trans)
        next
          case nolong: False
          show ?thesis
          proof (cases "char_at arg 0 = CHR ''-''")
            case dash: True
            show ?thesis
            proof (cases "length arg = 1 \<or> isdigit (char_at arg 1)")
              case True
              with r0 \<open>argstream_has_next stream\<close> nx parsing nodd nolong dash
              have "parse_stream_loop E' parsing parser (?happ, stream1) = Inr (h', s')"
                by simp
              from "1.IH"(4)[of arg stream1 h' s'] \<open>argstream_has_next stream\<close> nx parsing nodd
                nolong dash True this E
              have "R ?happ h'" by simp
              with parser_upd[of h parser] show ?thesis by (auto intro: trans)
            next
              case False
              with r0 \<open>argstream_has_next stream\<close> nx parsing nodd nolong dash
              obtain h1 s1 where
                o: "argparser_parse_short_option E' parser (drop 1 arg) (h, stream1) = Inr (h1, s1)"
                and r: "parse_stream_loop E' parsing parser (h1, s1) = Inr (h', s')"
                by (cases "argparser_parse_short_option E' parser (drop 1 arg) (h, stream1)") auto
              from "1.IH"(5)[of arg stream1 "(h1, s1)" h' s'] \<open>argstream_has_next stream\<close> nx
                parsing nodd nolong dash False o r E
              have "R h1 h'" by simp
              with short[of parser "drop 1 arg" h stream1 h1 s1] o E show ?thesis
                by (auto intro: trans)
            qed
          next
            case nodash: False
            show ?thesis
            proof (cases "map_contains (commands (parser_mem h parser)) arg")
              case True
              let ?cb = "case map_get (callbacks (parser_mem h parser)) arg of
                           None \<Rightarrow> None | Some cb \<Rightarrow> cb"
              from r0 \<open>argstream_has_next stream\<close> parsing nx nodd nolong nodash True
              obtain cmd where mg: "map_get (commands (parser_mem h parser)) arg = Some cmd"
                by (cases "map_get (commands (parser_mem h parser)) arg") simp_all
              let ?h1 = "upd_parser h parser
                           (\<lambda>ps. ps\<lparr>cmd_name := Some arg, cmd_parser := Some cmd\<rparr>)"
              from r0 \<open>argstream_has_next stream\<close> parsing nx nodd nolong nodash True mg
              obtain h2 s2 where
                inner: "parse_stream_loop E' True cmd (?h1, stream1) = Inr (h2, s2)"
                by (cases "parse_stream_loop E' True cmd (?h1, stream1)") (auto simp: Let_def)
              from "1.IH"(6)[of arg stream1 cmd ?cb ?h1 h2 s2]
                \<open>argstream_has_next stream\<close> parsing nx nodd nolong nodash True mg inner E
              have "R ?h1 h2" by simp
              with parser_upd[of h parser] have hh2: "R h h2" by (auto intro: trans)
              show ?thesis
              proof (cases ?cb)
                case None
                with r0 \<open>argstream_has_next stream\<close> parsing nx nodd nolong nodash True mg inner
                have r: "parse_stream_loop E' parsing parser (h2, s2) = Inr (h', s')"
                  by (simp add: Let_def)
                from "1.IH"(7)[of arg stream1 cmd ?cb ?h1 "(h2, s2)" h2 s2 h' s']
                  \<open>argstream_has_next stream\<close> parsing nx nodd nolong nodash True mg inner None r E
                have "R h2 h'" by simp
                with hh2 show ?thesis by (auto intro: trans)
              next
                case (Some c)
                with r0 \<open>argstream_has_next stream\<close> parsing nx nodd nolong nodash True mg inner
                obtain h3 where c: "call E' c cmd h2 = Inr h3"
                  and r: "parse_stream_loop E' parsing parser (h3, s2) = Inr (h', s')"
                  by (cases "call E' c cmd h2") (auto simp: Let_def)
                from "1.IH"(8)[of arg stream1 cmd ?cb ?h1 "(h2, s2)" h2 s2 c h3 h' s']
                  \<open>argstream_has_next stream\<close> parsing nx nodd nolong nodash True mg inner Some c r E
                have "R h3 h'" by simp
                moreover from cb[of c cmd h2 h3] c E have "R h2 h3" by simp
                ultimately show ?thesis using hh2 by (auto intro: trans)
              qed
            next
              case nocmd: False
              show ?thesis
              proof (cases "arg = ''help''")
                case True
                with r0 \<open>argstream_has_next stream\<close> parsing nx nodd nolong nodash nocmd
                show ?thesis
                  by (simp add: err_def puts_exit0_def split: if_splits prod.splits option.splits)
              next
                case False
                with r0 \<open>argstream_has_next stream\<close> nx parsing nodd nolong nodash nocmd
                have "parse_stream_loop E' parsing parser (?happ, stream1) = Inr (h', s')"
                  by simp
                from "1.IH"(9)[of arg stream1 h' s'] \<open>argstream_has_next stream\<close> nx parsing nodd
                  nolong nodash nocmd False this E
                have "R ?happ h'" by simp
                with parser_upd[of h parser] show ?thesis by (auto intro: trans)
              qed
            qed
          qed
        qed
      qed
    qed
  qed
qed

subsection \<open>An option keeps its values\<close>

lemma kept_refl: "nonempty_kept h h"
  by (simp add: nonempty_kept_def)

lemma kept_trans: "nonempty_kept h1 h2 \<Longrightarrow> nonempty_kept h2 h3 \<Longrightarrow> nonempty_kept h1 h3"
  by (fastforce simp: nonempty_kept_def)

lemma kept_upd_parser: "nonempty_kept h (upd_parser h p f)"
  by (simp add: nonempty_kept_def upd_parser_def)

lemma kept_upd_opt:
  "(vals (opt_mem h opt) \<noteq> [] \<Longrightarrow> vals (f (opt_mem h opt)) \<noteq> []) \<Longrightarrow>
     nonempty_kept h (upd_opt h opt f)"
  by (simp add: nonempty_kept_def upd_opt_def)

lemma option_try_set_grows:
  "option_try_set sd opt v = Inr x \<Longrightarrow> vals opt \<noteq> [] \<Longrightarrow> vals x \<noteq> []"
  by (auto simp: option_try_set_def option_set_str_def option_set_int_def option_set_float_def
           option_append_def split: if_splits sum.splits)

lemma kept_try_set: "option_try_set_at E opt v h = Inr h' \<Longrightarrow> nonempty_kept h h'"
  by (auto simp: option_try_set_at_def split: sum.splits
           intro!: kept_upd_opt dest: option_try_set_grows)

lemma kept_greedy_loop: "greedy_loop E opt (h, s) = Inr (h', s') \<Longrightarrow> nonempty_kept h h'"
proof (induction E opt "(h, s)" arbitrary: h s rule: greedy_loop.induct)
  case (1 E opt h stream)
  show ?case
  proof (cases "argstream_has_next_value stream")
    case True
    with "1.prems" obtain h1 where
      a: "option_try_set_at E opt (fst (argstream_next stream)) h = Inr h1"
      and b: "greedy_loop E opt (h1, snd (argstream_next stream)) = Inr (h', s')"
      by (subst (asm) greedy_loop.simps) (auto split: prod.splits sum.splits)
    from "1.hyps"[OF True _ a, of "snd (argstream_next stream)"] b
    have "nonempty_kept h1 h'" by simp
    with kept_try_set[OF a] show ?thesis by (rule kept_trans)
  next
    case False
    with "1.prems" show ?thesis by (subst (asm) greedy_loop.simps) (simp add: kept_refl)
  qed
qed

lemma kept_take_value: "take_value E opt (h, s) = Inr (h', s') \<Longrightarrow> nonempty_kept h h'"
  by (auto simp: take_value_def split: prod.splits sum.splits if_splits
           dest!: kept_try_set kept_greedy_loop intro: kept_trans)

lemma kept_found: "nonempty_kept h (upd_opt h opt (\<lambda>x. x\<lparr>found := True\<rparr>))"
  by (rule kept_upd_opt) simp

lemma kept_set_flag: "nonempty_kept h (upd_opt h opt (\<lambda>x. option_set_flag x b))"
  by (rule kept_upd_opt) (simp add: option_set_flag_def option_append_def)

lemma kept_equals:
  "argparser_parse_equals_option E p prefix a h = Inr h' \<Longrightarrow> nonempty_kept h h'"
  by (auto simp: argparser_parse_equals_option_def Let_def err_def
           split: option.splits if_splits
           dest!: kept_try_set intro: kept_trans[OF kept_found])

lemma kept_long:
  "argparser_parse_long_option E p a (h, s) = Inr (h', s') \<Longrightarrow> nonempty_kept h h'"
  by (auto simp: argparser_parse_long_option_def Let_def err_def puts_exit0_def
           split: option.splits if_splits sum.splits
           dest!: kept_equals kept_take_value
           intro: kept_trans[OF kept_found] kept_trans[OF kept_found kept_set_flag])

lemma kept_short_loop:
  "short_option_loop E p cs (h, s) = Inr (h', s') \<Longrightarrow> nonempty_kept h h'"
proof (induction cs arbitrary: h s)
  case Nil
  then show ?case by (simp add: kept_refl)
next
  case (Cons c cs)
  from Cons.prems obtain opt where
    g: "map_get (options (parser_mem h p)) [c] = Some opt"
    by (auto simp: err_def Let_def split: option.splits)
  let ?h1 = "upd_opt h opt (\<lambda>x. x\<lparr>found := True\<rparr>)"
  show ?case
  proof (cases "otype (opt_mem ?h1 opt) = FLAG")
    case True
    with Cons.prems g have
      "short_option_loop E p cs (upd_opt ?h1 opt (\<lambda>x. option_set_flag x True), s) = Inr (h', s')"
      by (simp add: Let_def)
    from Cons.IH[OF this] show ?thesis
      by (blast intro: kept_trans kept_found kept_set_flag)
  next
    case False
    with Cons.prems g obtain h2 s2 where
      t: "take_value E opt (?h1, s) = Inr (h2, s2)"
      and r: "short_option_loop E p cs (h2, s2) = Inr (h', s')"
      by (auto simp: err_def Let_def split: if_splits sum.splits)
    from kept_take_value[OF t] Cons.IH[OF r] show ?thesis
      by (blast intro: kept_trans kept_found)
  qed
qed

lemma kept_short:
  "argparser_parse_short_option E p a (h, s) = Inr (h', s') \<Longrightarrow> nonempty_kept h h'"
  by (auto simp: argparser_parse_short_option_def split: if_splits sum.splits
           dest!: kept_equals kept_short_loop)

lemma kept_parse:
  assumes "\<And>c p h h'. call E c p h = Inr h' \<Longrightarrow> nonempty_kept h h'"
    and "ap_parse E parser argv h = Inr h'"
  shows "nonempty_kept h h'"
proof -
  from assms(2) obtain s' where
    "parse_stream_loop E True parser (h, argstream_new (drop 1 argv)) = Inr (h', s')"
    by (auto simp: ap_parse_def argparser_parse_def argparser_parse_stream_def split: sum.splits)
  from parse_stream_loop_rel[of nonempty_kept E, OF kept_refl kept_trans kept_upd_parser kept_long
      kept_short assms(1) this]
  show ?thesis by simp
qed

lemma kept_register: "nonempty_kept h (register_opt parser name opt h)"
  by (simp add: register_opt_def malloc_opt_def upd_parser_def nonempty_kept_def)


lemma kept_run:
  assumes "\<And>c p h h'. call E c p h = Inr h' \<Longrightarrow> nonempty_kept h h'"
    and "ap_run E c h = Inr h'"
    and "\<not> is_clear_list c"
  shows "nonempty_kept h h'"
proof (cases c)
  case (Ap_parse parser argv)
  with assms(2) have "ap_parse E parser argv h = Inr h'" by simp
  from kept_parse[OF assms(1) this] show ?thesis .
next
  case (Ap_clear_list parser name)
  with assms(3) show ?thesis by simp
next
  case (Ap_new hp ver)
  with assms(2) show ?thesis
    by (auto simp: ap_new_def argparser_new_def malloc_parser_def nonempty_kept_def)
next
  case (Ap_add_cmd parser name hp cb)
  with assms(2) show ?thesis
    by (auto simp: ap_add_cmd_def argparser_add_cmd_def argparser_new_def malloc_parser_def
        upd_parser_def nonempty_kept_def Let_def)
next
  case (Ap_set_flag parser name v)
  with assms(2) show ?thesis
    by (auto simp: ap_set_flag_def argparser_set_flag_def option_set_flag_def option_append_def
        split: sum.splits intro!: kept_upd_opt)
next
  case (Ap_set_str parser name v)
  with assms(2) show ?thesis
    by (auto simp: ap_set_str_def argparser_set_str_def option_set_str_def option_append_def
        split: sum.splits intro!: kept_upd_opt)
next
  case (Ap_set_int parser name v)
  with assms(2) show ?thesis
    by (auto simp: ap_set_int_def argparser_set_int_def option_set_int_def option_append_def
        split: sum.splits intro!: kept_upd_opt)
next
  case (Ap_set_float parser name v)
  with assms(2) show ?thesis
    by (auto simp: ap_set_float_def argparser_set_float_def option_set_float_def option_append_def
        split: sum.splits intro!: kept_upd_opt)
qed (use assms(2) in \<open>auto simp: ap_add_flag_def argparser_add_flag_def ap_add_str_def
      argparser_add_str_def ap_add_int_def argparser_add_int_def ap_add_float_def
      argparser_add_float_def ap_add_flag_list_def argparser_add_flag_list_def
      ap_add_str_list_def argparser_add_str_list_def ap_add_int_list_def
      argparser_add_int_list_def ap_add_float_list_def argparser_add_float_list_def
      kept_register\<close>)

lemma clear_list_run:
  "ap_clear_list parser name h =
     (case map_get (options (parser_mem h parser)) name of
        None \<Rightarrow>
          Inl (Exit 1 (''Abort: '' @ [quote] @ name @ [quote] @ '' is not a registered option.''
                       @ [newline]))
      | Some opt \<Rightarrow> Inr (upd_opt h opt option_clear))"
  by (simp add: ap_clear_list_def argparser_clear_list_def argparser_get_opt_def option_clear_def
      split: option.splits)

lemma cleared_by_clear_list:
  "cleared_by h c = Some opt \<Longrightarrow> \<exists>parser name. c = Ap_clear_list parser name"
  by (cases c) simp_all

lemma not_clear_list_cleared_by: "\<not> is_clear_list c \<Longrightarrow> cleared_by h c = None"
  by (cases c) simp_all

lemma clear_named_option_empties:
  assumes "ap_run E c h = Inr h'" and "cleared_by h c = Some opt"
  shows "h' = upd_opt h opt option_clear"
proof -
  from cleared_by_clear_list[OF assms(2)] obtain parser name where
    c: "c = Ap_clear_list parser name" by blast
  with assms show ?thesis by (simp add: clear_list_run)
qed

lemma clear_other_option_keeps:
  assumes "ap_run E c h = Inr h'" and "is_clear_list c" and "cleared_by h c \<noteq> Some opt"
  shows "opt_mem h' opt = opt_mem h opt"
proof -
  from assms(2) obtain parser name where c: "c = Ap_clear_list parser name"
    by (cases c) simp_all
  with assms(1,3) show ?thesis
    by (auto simp: clear_list_run upd_opt_def split: option.splits)
qed

lemma getters_of_last:
  "vals x \<noteq> [] \<Longrightarrow>
      (option_get_flag x = Inl Undefined \<longleftrightarrow> (\<forall>b. last (vals x) \<noteq> bool_val b)) \<and>
      (option_get_str x = Inl Undefined \<longleftrightarrow> (\<forall>v. last (vals x) \<noteq> str_val v)) \<and>
      (option_get_int x = Inl Undefined \<longleftrightarrow> (\<forall>v. last (vals x) \<noteq> int_val v)) \<and>
      (option_get_float x = Inl Undefined \<longleftrightarrow> (\<forall>v. last (vals x) \<noteq> float_val v))"
  by (cases "last (vals x)")
     (simp_all add: option_get_flag_def option_get_str_def option_get_int_def
        option_get_float_def)

lemma getters_of_none:
  "vals x = [] \<Longrightarrow>
      option_get_flag x = Inl Undefined \<and> option_get_str x = Inl Undefined \<and>
      option_get_int x = Inl Undefined \<and> option_get_float x = Inl Undefined"
  by (simp add: option_get_flag_def option_get_str_def option_get_int_def option_get_float_def)

text \<open>
  C9, as amended. A scalar option has, once registered, the one value it was registered
  with, at index 0. Every public operation that changes the heap, except
  \<^verbatim>\<open>ap_clear_list\<close>, keeps every allocated option that has a value an option that has a
  value (registration, parsing and the setters only append; a callback run by the parser is
  taken to be made of such operations), and the functions that read give no heap back.
  \<^verbatim>\<open>ap_clear_list\<close> empties the option it names, of whatever kind, and changes nothing
  else: that option has no value after it, and each getter on it reads out of bounds;
  every other option is as it was. So an allocated option that has a value has one after
  any public operation that is not \<^verbatim>\<open>ap_clear_list\<close> on that very option, and the getters
  read its last value (and are undefined only when it is of another type than the
  getter's).
\<close>

theorem scalar_values_stay:
  assumes "\<forall>cb p h1 h2. call E cb p h1 = Inr h2 \<longrightarrow> nonempty_kept h1 h2"
    and "ap_run E c h = Inr h'"
  shows "vals (opt_mem (ap_add_flag parser name h) (opt_next h)) = [bool_val False] \<and>
         vals (opt_mem (ap_add_str parser name s h) (opt_next h)) = [str_val s] \<and>
         vals (opt_mem (ap_add_int parser name i h) (opt_next h)) = [int_val i] \<and>
         vals (opt_mem (ap_add_float parser name d h) (opt_next h)) = [float_val d] \<and>
         (\<not> is_clear_list c \<longrightarrow> nonempty_kept h h') \<and>
         (\<forall>opt. opt < opt_next h \<and> vals (opt_mem h opt) \<noteq> [] \<and> cleared_by h c \<noteq> Some opt \<longrightarrow>
            vals (opt_mem h' opt) \<noteq> [] \<and>
            (option_get_flag (opt_mem h' opt) = Inl Undefined \<longleftrightarrow>
               (\<forall>b. last (vals (opt_mem h' opt)) \<noteq> bool_val b)) \<and>
            (option_get_str (opt_mem h' opt) = Inl Undefined \<longleftrightarrow>
               (\<forall>v. last (vals (opt_mem h' opt)) \<noteq> str_val v)) \<and>
            (option_get_int (opt_mem h' opt) = Inl Undefined \<longleftrightarrow>
               (\<forall>v. last (vals (opt_mem h' opt)) \<noteq> int_val v)) \<and>
            (option_get_float (opt_mem h' opt) = Inl Undefined \<longleftrightarrow>
               (\<forall>v. last (vals (opt_mem h' opt)) \<noteq> float_val v))) \<and>
         (\<forall>opt. is_clear_list c \<and> cleared_by h c \<noteq> Some opt \<longrightarrow>
            opt_mem h' opt = opt_mem h opt) \<and>
         (\<forall>opt. cleared_by h c = Some opt \<longrightarrow>
            h' = upd_opt h opt option_clear \<and>
            vals (opt_mem h' opt) = [] \<and>
            option_get_flag (opt_mem h' opt) = Inl Undefined \<and>
            option_get_str (opt_mem h' opt) = Inl Undefined \<and>
            option_get_int (opt_mem h' opt) = Inl Undefined \<and>
            option_get_float (opt_mem h' opt) = Inl Undefined) \<and>
         (cleared_by h c =
            (case c of
               Ap_clear_list p n \<Rightarrow> map_get (options (parser_mem h p)) n
             | _ \<Rightarrow> None))"
proof -
  from assms(1) have cb: "\<And>c p h h'. call E c p h = Inr h' \<Longrightarrow> nonempty_kept h h'"
    by blast
  have k: "\<not> is_clear_list c \<Longrightarrow> nonempty_kept h h'"
    by (rule kept_run[OF cb assms(2)])
  have c: "vals (opt_mem (ap_add_flag parser name h) (opt_next h)) = [bool_val False]"
    "vals (opt_mem (ap_add_str parser name s h) (opt_next h)) = [str_val s]"
    "vals (opt_mem (ap_add_int parser name i h) (opt_next h)) = [int_val i]"
    "vals (opt_mem (ap_add_float parser name d h) (opt_next h)) = [float_val d]"
    by (simp_all add: ap_add_flag_def argparser_add_flag_def ap_add_str_def
      argparser_add_str_def ap_add_int_def argparser_add_int_def ap_add_float_def
      argparser_add_float_def register_opt_def malloc_opt_def upd_parser_def option_new_flag_def
      option_new_str_def option_new_int_def option_new_float_def option_new_def
      option_set_flag_def option_set_str_def option_set_int_def option_set_float_def
      option_append_def)
  have n: "vals (opt_mem h' opt) \<noteq> []"
    if "opt < opt_next h" "vals (opt_mem h opt) \<noteq> []" "cleared_by h c \<noteq> Some opt" for opt
  proof (cases "is_clear_list c")
    case True
    from clear_other_option_keeps[OF assms(2) True that(3)] that(2) show ?thesis by simp
  next
    case False
    from k[OF False] that(1,2) show ?thesis by (simp add: nonempty_kept_def)
  qed
  have e: "h' = upd_opt h opt option_clear \<and> vals (opt_mem h' opt) = []"
    if "cleared_by h c = Some opt" for opt
    using clear_named_option_empties[OF assms(2) that]
    by (simp add: upd_opt_def option_clear_def)
  have d: "cleared_by h c =
            (case c of
               Ap_clear_list p n \<Rightarrow> map_get (options (parser_mem h p)) n
             | _ \<Rightarrow> None)"
    by (cases c) simp_all
  have g: "(option_get_flag (opt_mem h' opt) = Inl Undefined \<longleftrightarrow>
               (\<forall>b. last (vals (opt_mem h' opt)) \<noteq> bool_val b)) \<and>
            (option_get_str (opt_mem h' opt) = Inl Undefined \<longleftrightarrow>
               (\<forall>v. last (vals (opt_mem h' opt)) \<noteq> str_val v)) \<and>
            (option_get_int (opt_mem h' opt) = Inl Undefined \<longleftrightarrow>
               (\<forall>v. last (vals (opt_mem h' opt)) \<noteq> int_val v)) \<and>
            (option_get_float (opt_mem h' opt) = Inl Undefined \<longleftrightarrow>
               (\<forall>v. last (vals (opt_mem h' opt)) \<noteq> float_val v))"
    if "opt < opt_next h" "vals (opt_mem h opt) \<noteq> []" "cleared_by h c \<noteq> Some opt" for opt
    by (rule getters_of_last[OF n[OF that]])
  have u: "option_get_flag (opt_mem h' opt) = Inl Undefined \<and>
            option_get_str (opt_mem h' opt) = Inl Undefined \<and>
            option_get_int (opt_mem h' opt) = Inl Undefined \<and>
            option_get_float (opt_mem h' opt) = Inl Undefined"
    if "cleared_by h c = Some opt" for opt
    using e[OF that] getters_of_none[of "opt_mem h' opt"] by blast
  have o: "opt_mem h' opt = opt_mem h opt"
    if "is_clear_list c" "cleared_by h c \<noteq> Some opt" for opt
    by (rule clear_other_option_keeps[OF assms(2) that])
  from c have 1: "vals (opt_mem (ap_add_flag parser name h) (opt_next h)) = [bool_val False] \<and>
         vals (opt_mem (ap_add_str parser name s h) (opt_next h)) = [str_val s] \<and>
         vals (opt_mem (ap_add_int parser name i h) (opt_next h)) = [int_val i] \<and>
         vals (opt_mem (ap_add_float parser name d h) (opt_next h)) = [float_val d]"
    by simp
  from k have 2: "\<not> is_clear_list c \<longrightarrow> nonempty_kept h h'" by blast
  have 3: "\<forall>opt. opt < opt_next h \<and> vals (opt_mem h opt) \<noteq> [] \<and> cleared_by h c \<noteq> Some opt \<longrightarrow>
            vals (opt_mem h' opt) \<noteq> [] \<and>
            (option_get_flag (opt_mem h' opt) = Inl Undefined \<longleftrightarrow>
               (\<forall>b. last (vals (opt_mem h' opt)) \<noteq> bool_val b)) \<and>
            (option_get_str (opt_mem h' opt) = Inl Undefined \<longleftrightarrow>
               (\<forall>v. last (vals (opt_mem h' opt)) \<noteq> str_val v)) \<and>
            (option_get_int (opt_mem h' opt) = Inl Undefined \<longleftrightarrow>
               (\<forall>v. last (vals (opt_mem h' opt)) \<noteq> int_val v)) \<and>
            (option_get_float (opt_mem h' opt) = Inl Undefined \<longleftrightarrow>
               (\<forall>v. last (vals (opt_mem h' opt)) \<noteq> float_val v))"
    (is "\<forall>opt. ?A opt \<longrightarrow> ?B opt")
  proof (intro allI impI)
    fix opt
    assume "?A opt"
    then have a: "opt < opt_next h" "vals (opt_mem h opt) \<noteq> []" "cleared_by h c \<noteq> Some opt"
      by simp_all
    from n[OF a] g[OF a] show "?B opt" by (rule conjI)
  qed
  from o have 4: "\<forall>opt. is_clear_list c \<and> cleared_by h c \<noteq> Some opt \<longrightarrow>
            opt_mem h' opt = opt_mem h opt"
    by blast
  from e u have 5: "\<forall>opt. cleared_by h c = Some opt \<longrightarrow>
            h' = upd_opt h opt option_clear \<and>
            vals (opt_mem h' opt) = [] \<and>
            option_get_flag (opt_mem h' opt) = Inl Undefined \<and>
            option_get_str (opt_mem h' opt) = Inl Undefined \<and>
            option_get_int (opt_mem h' opt) = Inl Undefined \<and>
            option_get_float (opt_mem h' opt) = Inl Undefined"
    by blast
  from 1 2 3 4 5 d show ?thesis by (intro conjI) blast+
qed

text \<open>
  The theorem at the parse of \<^verbatim>\<open>--name v\<close>, where \<^verbatim>\<open>name\<close> is a string option, and at
  \<^verbatim>\<open>ap_clear_list\<close> on \<^verbatim>\<open>b\<close>, where \<^verbatim>\<open>a\<close> and \<^verbatim>\<open>b\<close> are string options: \<^verbatim>\<open>a\<close> keeps its value
  and \<^verbatim>\<open>b\<close> has none.
\<close>

theorem scalar_values_stay_witness:
  "(\<forall>cb p h1. call quiet_extern cb p h1 = Inr h1) \<and>
   vals (opt_mem (ap_add_str 0 ''name'' ''none'' name_heap) (opt_next name_heap)) =
     [str_val ''none''] \<and>
   0 < opt_next name_heap \<and>
   vals (opt_mem name_heap 0) \<noteq> [] \<and>
   \<not> is_clear_list (Ap_parse 0 [''app'', ''--name'', ''v''] :: unit ap_call) \<and>
   cleared_by name_heap (Ap_parse 0 [''app'', ''--name'', ''v'']) = None \<and>
   (\<exists>h'. ap_run quiet_extern (Ap_parse 0 [''app'', ''--name'', ''v'']) name_heap = Inr h' \<and>
         nonempty_kept name_heap h' \<and>
         vals (opt_mem h' 0) \<noteq> [] \<and>
         ap_get_str h' 0 ''name'' = Inr ''v'') \<and>
   0 < opt_next ab_heap \<and>
   vals (opt_mem ab_heap 0) \<noteq> [] \<and>
   vals (opt_mem ab_heap 1) \<noteq> [] \<and>
   is_clear_list (Ap_clear_list 0 ''b'' :: unit ap_call) \<and>
   cleared_by ab_heap (Ap_clear_list 0 ''b'') = Some 1 \<and>
   (\<exists>h'. ap_run quiet_extern (Ap_clear_list 0 ''b'') ab_heap = Inr h' \<and>
         h' = upd_opt ab_heap 1 option_clear \<and>
         opt_mem h' 0 = opt_mem ab_heap 0 \<and>
         vals (opt_mem h' 0) \<noteq> [] \<and>
         ap_get_str h' 0 ''a'' = Inr ''none'' \<and>
         vals (opt_mem h' 1) = [] \<and>
         option_get_str (opt_mem h' 1) = Inl Undefined \<and>
         ap_get_str h' 0 ''b'' = Inl Undefined)"
proof -
  have cb: "\<forall>cb p h1. call quiet_extern cb p h1 = Inr h1"
    by (simp add: quiet_extern_def)
  then have cb': "\<forall>cb p h1 h2. call quiet_extern cb p h1 = Inr h2 \<longrightarrow> nonempty_kept h1 h2"
    by (simp add: kept_refl)
  have nc: "\<not> is_clear_list (Ap_parse 0 [''app'', ''--name'', ''v''] :: unit ap_call)"
    and nn: "cleared_by name_heap (Ap_parse 0 [''app'', ''--name'', ''v'']) = None"
    and ic: "is_clear_list (Ap_clear_list 0 ''b'' :: unit ap_call)"
    by simp_all
  have a: "0 < opt_next name_heap" and v: "vals (opt_mem name_heap 0) \<noteq> []"
    by (simp_all add: name_heap_def register_defs heap_defs option_defs)
  have a0: "0 < opt_next ab_heap" and v0: "vals (opt_mem ab_heap 0) \<noteq> []"
    and v1: "vals (opt_mem ab_heap 1) \<noteq> []"
    and cl: "cleared_by ab_heap (Ap_clear_list 0 ''b'') = Some 1"
    and ga: "map_get (options (parser_mem ab_heap 0)) ''a'' = Some 0"
    and gb: "map_get (options (parser_mem ab_heap 0)) ''b'' = Some 1"
    and la: "last (vals (opt_mem ab_heap 0)) = str_val ''none''"
    by (simp_all add: ab_heap_def register_defs heap_defs option_defs)
  obtain h' where
    r: "ap_run quiet_extern (Ap_parse 0 [''app'', ''--name'', ''v'']) name_heap = Inr h'"
    and g: "ap_get_str h' 0 ''name'' = Inr ''v''"
    by (simp add: name_heap_def register_defs parse_defs heap_defs option_defs query_defs)
  from scalar_values_stay[OF cb' r, of 0 "''name''" "''none''"] a v nc nn
  have 1: "vals (opt_mem (ap_add_str 0 ''name'' ''none'' name_heap) (opt_next name_heap)) =
          [str_val ''none''] \<and>
        nonempty_kept name_heap h' \<and> vals (opt_mem h' 0) \<noteq> []"
    by simp
  obtain h2 where
    r2: "ap_run quiet_extern (Ap_clear_list 0 ''b'') ab_heap = Inr h2"
    using gb by (simp add: ap_clear_list_def argparser_clear_list_def argparser_get_opt_def)
  from cl have ne: "cleared_by ab_heap (Ap_clear_list 0 ''b'') \<noteq> Some 0"
    by simp
  from scalar_values_stay[OF cb' r2] a0 v0 ic cl ne
  have 2: "h2 = upd_opt ab_heap 1 option_clear \<and>
         opt_mem h2 0 = opt_mem ab_heap 0 \<and>
         vals (opt_mem h2 0) \<noteq> [] \<and>
         vals (opt_mem h2 1) = [] \<and>
         option_get_str (opt_mem h2 1) = Inl Undefined"
    by blast
  from 2 have p2: "parser_mem h2 = parser_mem ab_heap"
    by (simp add: upd_opt_def)
  from 2 have m0: "opt_mem h2 0 = opt_mem ab_heap 0" and m1: "vals (opt_mem h2 1) = []"
    by blast+
  from m0 m1 p2 ga gb la v0 have 3: "ap_get_str h2 0 ''a'' = Inr ''none'' \<and>
      ap_get_str h2 0 ''b'' = Inl Undefined"
    by (simp add: ap_get_str_def argparser_get_str_def argparser_get_opt_def option_get_str_def)
  from cb 1 a v nc nn r g a0 v0 v1 ic cl r2 2 3 show ?thesis by blast
qed

text \<open>
  C9 as stated fails: \<^verbatim>\<open>ap_clear_list\<close> is a public operation, it does not look at what
  kind of option it is given, and after it the scalar option \<^verbatim>\<open>name\<close> has no value: its
  length is 0 and \<^verbatim>\<open>ap_get_str\<close> reads out of bounds.
\<close>

theorem clear_list_counterexample:
  "ap_get_str name_heap 0 ''name'' = Inr ''none'' \<and>
   (case ap_run quiet_extern (Ap_clear_list 0 ''name'') name_heap of
      Inl e \<Rightarrow> Inl e
    | Inr h \<Rightarrow> Inr (ap_len_list h 0 ''name'', ap_get_str h 0 ''name'')) =
   Inr (Inr 0, Inl Undefined)"
  by code_simp

subsection \<open>A dash, and a dash before a digit\<close>

lemma digit_not_dash: "isdigit d \<Longrightarrow> d \<noteq> CHR ''-''"
  by (auto simp: isdigit_def)

lemma dash_token_shape:
  assumes "tok = ''-'' \<or> (tok = CHR ''-'' # d # rest \<and> isdigit d)"
  shows "tok \<noteq> ''--''" and "take 2 tok \<noteq> ''--''" and "char_at tok 0 = CHR ''-''"
    and "length tok = 1 \<or> isdigit (char_at tok 1)"
  using assms by (auto simp: char_at_def dest: digit_not_dash)

lemma has_next_value_iff:
  "argstream_has_next_value s \<longleftrightarrow>
     argstream_has_next s \<and>
     \<not> (char_at (argstream_peek s) 0 = CHR ''-'' \<and> length (argstream_peek s) > 1 \<and>
        \<not> isdigit (char_at (argstream_peek s) 1))"
proof (cases "argstream_peek s")
  case Nil
  then show ?thesis by (simp add: argstream_has_next_value_def char_at_def)
next
  case (Cons c cs)
  then show ?thesis
    by (cases cs) (simp_all add: argstream_has_next_value_def char_at_def)
qed

lemma dash_token_is_value:
  assumes "tok = ''-'' \<or> (tok = CHR ''-'' # d # rest \<and> isdigit d)"
    and "argstream_has_next stream"
    and "argstream_peek stream = tok"
  shows "argstream_has_next_value stream"
  using assms(2,3) dash_token_shape(3,4)[OF assms(1)]
  by (auto simp: has_next_value_iff)

lemma dash_token_is_positional:
  assumes t: "tok = ''-'' \<or> (tok = CHR ''-'' # d # rest \<and> isdigit d)"
    and n: "argstream_has_next stream"
    and p: "argstream_peek stream = tok"
  shows "parse_stream_loop E parsing parser (h, stream) =
           parse_stream_loop E parsing parser
             (upd_parser h parser (\<lambda>ps. ps\<lparr>arguments := arglist_append (arguments ps) tok\<rparr>),
              snd (argstream_next stream))"
proof -
  from p obtain stream1 where nx: "argstream_next stream = (tok, stream1)"
    by (simp add: argstream_next_def argstream_peek_def)
  note a = dash_token_shape[OF t]
  from a(4) show ?thesis
  proof
    assume "length tok = 1"
    then show ?thesis
      by (subst parse_stream_loop.simps) (simp add: n nx a(1,2,3))
  next
    assume "isdigit (char_at tok 1)"
    then show ?thesis
      by (subst parse_stream_loop.simps) (simp add: n nx a(1,2,3))
  qed
qed


lemma value_goes_to_long_option:
  assumes "map_get (options (parser_mem h parser)) name = Some opt"
    and "otype (opt_mem h opt) \<noteq> FLAG"
    and "CHR ''='' \<notin> set name"
    and "argstream_has_next_value stream"
  shows "argparser_parse_long_option E parser name (h, stream) =
           (case option_try_set_at E opt (argstream_peek stream)
                   (upd_opt h opt (\<lambda>x. x\<lparr>found := True\<rparr>)) of
              Inl e \<Rightarrow> Inl e
            | Inr h1 \<Rightarrow>
               if greedy (opt_mem h1 opt)
               then greedy_loop E opt (h1, snd (argstream_next stream))
               else Inr (h1, snd (argstream_next stream)))"
  using assms
  by (simp add: argparser_parse_long_option_def map_contains_get take_value_def
      argstream_next_def argstream_peek_def upd_opt_def split: sum.splits)

lemma help_takes_any_token:
  assumes n: "argstream_has_next hs"
    and p: "argstream_peek hs = ''help''"
    and c: "\<not> map_contains (commands (parser_mem h parser)) ''help''"
    and m: "argstream_has_next (snd (argstream_next hs))"
  shows "\<exists>e. parse_stream_loop E True parser (h, hs) = Inl e"
proof -
  from p obtain hs1 where nx: "argstream_next hs = (''help'', hs1)"
    by (simp add: argstream_next_def argstream_peek_def)
  obtain name hs2 where nx2: "argstream_next hs1 = (name, hs2)"
    by (cases "argstream_next hs1")
  from m nx have m1: "argstream_has_next hs1" by simp
  show ?thesis
    by (subst parse_stream_loop.simps)
       (simp add: n nx nx2 m1 c char_at_def err_def puts_exit0_def split: option.splits)
qed

lemma value_goes_to_short_option:
  assumes "map_get (options (parser_mem h parser)) [c] = Some opt"
    and "otype (opt_mem h opt) \<noteq> FLAG"
    and "argstream_has_next_value stream"
  shows "short_option_loop E parser (c # cs) (h, stream) =
           (case option_try_set_at E opt (argstream_peek stream)
                   (upd_opt h opt (\<lambda>x. x\<lparr>found := True\<rparr>)) of
              Inl e \<Rightarrow> Inl e
            | Inr h1 \<Rightarrow>
               (case (if greedy (opt_mem h1 opt)
                      then greedy_loop E opt (h1, snd (argstream_next stream))
                      else Inr (h1, snd (argstream_next stream))) of
                  Inl e \<Rightarrow> Inl e
                | Inr st1 \<Rightarrow> short_option_loop E parser cs st1))"
  using assms
  by (simp add: take_value_def Let_def argstream_next_def argstream_peek_def upd_opt_def
      split: sum.splits)

lemma greedy_loop_step:
  assumes "argstream_has_next_value stream"
  shows "greedy_loop E opt (h, stream) =
           (case option_try_set_at E opt (argstream_peek stream) h of
              Inl e \<Rightarrow> Inl e
            | Inr h1 \<Rightarrow> greedy_loop E opt (h1, snd (argstream_next stream)))"
  using assms
  by (subst greedy_loop.simps)
     (simp add: argstream_next_def argstream_peek_def split: sum.splits)

lemma dash_is_no_integer:
  "try_str_to_int ''-'' = err (''cannot parse '' @ [quote] @ ''-'' @ [quote] @ '' as an integer'')"
  by code_simp

text \<open>
  C5, as amended. A token that is \<^verbatim>\<open>-\<close>, or \<^verbatim>\<open>-\<close> and a digit and anything after, never
  goes to option handling. When the parsing loop takes it, with option parsing on or off,
  the loop appends it to the positional arguments and goes on. Where an option looks for
  a value, the token is value-shaped (a token is, unless it begins with \<^verbatim>\<open>-\<close>, is longer
  than one character and has no digit second), and it is taken as the value: by the long
  option handler, by the short option handler at any character of a bundle, and by the
  loop of a greedy option, which goes on after it. The token taken is coerced to the type
  of the option: a string option stores it as it is, and an integer or a float option
  stores the number or, when the token is not one (\<^verbatim>\<open>-\<close> is no integer), the process exits
  with the error of the coercion. The one other taker of tokens is the automatic \<^verbatim>\<open>help\<close>
  command: it takes the token after \<^verbatim>\<open>help\<close>, whatever its shape, as the name of a
  command, and the process then exits in every case.
\<close>

theorem dash_and_number_tokens:
  assumes "tok = ''-'' \<or> (tok = CHR ''-'' # d # rest \<and> isdigit d)"
    and "argstream_has_next stream"
    and "argstream_peek stream = tok"
  shows "argstream_has_next_value stream \<and>
         parse_stream_loop E parsing parser (h, stream) =
           parse_stream_loop E parsing parser
             (upd_parser h parser (\<lambda>ps. ps\<lparr>arguments := arglist_append (arguments ps) tok\<rparr>),
              snd (argstream_next stream)) \<and>
         (map_get (options (parser_mem h parser)) name = Some opt \<and>
          otype (opt_mem h opt) \<noteq> FLAG \<and> CHR ''='' \<notin> set name \<longrightarrow>
            argparser_parse_long_option E parser name (h, stream) =
              (case option_try_set_at E opt tok (upd_opt h opt (\<lambda>x. x\<lparr>found := True\<rparr>)) of
                 Inl e \<Rightarrow> Inl e
               | Inr h1 \<Rightarrow>
                  if greedy (opt_mem h1 opt)
                  then greedy_loop E opt (h1, snd (argstream_next stream))
                  else Inr (h1, snd (argstream_next stream)))) \<and>
         (map_get (options (parser_mem h parser)) [c] = Some sopt \<and>
          otype (opt_mem h sopt) \<noteq> FLAG \<and> CHR ''='' \<notin> set (c # cs) \<longrightarrow>
            argparser_parse_short_option E parser (c # cs) (h, stream) =
              (case option_try_set_at E sopt tok (upd_opt h sopt (\<lambda>x. x\<lparr>found := True\<rparr>)) of
                 Inl e \<Rightarrow> Inl e
               | Inr h1 \<Rightarrow>
                  (case (if greedy (opt_mem h1 sopt)
                         then greedy_loop E sopt (h1, snd (argstream_next stream))
                         else Inr (h1, snd (argstream_next stream))) of
                     Inl e \<Rightarrow> Inl e
                   | Inr st1 \<Rightarrow> short_option_loop E parser cs st1))) \<and>
         greedy_loop E gopt (h, stream) =
           (case option_try_set_at E gopt tok h of
              Inl e \<Rightarrow> Inl e
            | Inr h1 \<Rightarrow> greedy_loop E gopt (h1, snd (argstream_next stream))) \<and>
         option_try_set_at E vopt tok h =
           (case otype (opt_mem h vopt) of
              FLAG \<Rightarrow> Inr h
            | STRING \<Rightarrow> Inr (upd_opt h vopt (\<lambda>x. x\<lparr>vals := vals x @ [str_val tok]\<rparr>))
            | INTEGER \<Rightarrow>
                (case try_str_to_int tok of
                   Inl e \<Rightarrow> Inl e
                 | Inr w \<Rightarrow> Inr (upd_opt h vopt (\<lambda>x. x\<lparr>vals := vals x @ [int_val w]\<rparr>)))
            | FLOAT \<Rightarrow>
                (case try_str_to_double (strtod E) tok of
                   Inl e \<Rightarrow> Inl e
                 | Inr x \<Rightarrow> Inr (upd_opt h vopt (\<lambda>x'. x'\<lparr>vals := vals x' @ [float_val x]\<rparr>)))) \<and>
         try_str_to_int ''-'' =
           err (''cannot parse '' @ [quote] @ ''-'' @ [quote] @ '' as an integer'') \<and>
         (argstream_has_next_value s \<longleftrightarrow>
            argstream_has_next s \<and>
            \<not> (char_at (argstream_peek s) 0 = CHR ''-'' \<and> length (argstream_peek s) > 1 \<and>
               \<not> isdigit (char_at (argstream_peek s) 1))) \<and>
         (argstream_has_next hs \<and> argstream_peek hs = ''help'' \<and>
          \<not> map_contains (commands (parser_mem h parser)) ''help'' \<and>
          argstream_has_next (snd (argstream_next hs)) \<longrightarrow>
            (\<exists>e. parse_stream_loop E True parser (h, hs) = Inl e))"
proof (intro conjI impI)
  show v: "argstream_has_next_value stream"
    by (rule dash_token_is_value[OF assms])
  show "parse_stream_loop E parsing parser (h, stream) =
           parse_stream_loop E parsing parser
             (upd_parser h parser (\<lambda>ps. ps\<lparr>arguments := arglist_append (arguments ps) tok\<rparr>),
              snd (argstream_next stream))"
    by (rule dash_token_is_positional[OF assms])
  show "argstream_has_next_value s \<longleftrightarrow>
            argstream_has_next s \<and>
            \<not> (char_at (argstream_peek s) 0 = CHR ''-'' \<and> length (argstream_peek s) > 1 \<and>
               \<not> isdigit (char_at (argstream_peek s) 1))"
    by (rule has_next_value_iff)
  show "greedy_loop E gopt (h, stream) =
           (case option_try_set_at E gopt tok h of
              Inl e \<Rightarrow> Inl e
            | Inr h1 \<Rightarrow> greedy_loop E gopt (h1, snd (argstream_next stream)))"
    using greedy_loop_step[OF v, of E gopt h] assms(3) by simp
  show "option_try_set_at E vopt tok h =
           (case otype (opt_mem h vopt) of
              FLAG \<Rightarrow> Inr h
            | STRING \<Rightarrow> Inr (upd_opt h vopt (\<lambda>x. x\<lparr>vals := vals x @ [str_val tok]\<rparr>))
            | INTEGER \<Rightarrow>
                (case try_str_to_int tok of
                   Inl e \<Rightarrow> Inl e
                 | Inr w \<Rightarrow> Inr (upd_opt h vopt (\<lambda>x. x\<lparr>vals := vals x @ [int_val w]\<rparr>)))
            | FLOAT \<Rightarrow>
                (case try_str_to_double (strtod E) tok of
                   Inl e \<Rightarrow> Inl e
                 | Inr x \<Rightarrow> Inr (upd_opt h vopt (\<lambda>x'. x'\<lparr>vals := vals x' @ [float_val x]\<rparr>))))"
    by (rule option_try_set_at_cases)
  show "try_str_to_int ''-'' =
           err (''cannot parse '' @ [quote] @ ''-'' @ [quote] @ '' as an integer'')"
    by (rule dash_is_no_integer)
  {
    assume "map_get (options (parser_mem h parser)) name = Some opt \<and>
          otype (opt_mem h opt) \<noteq> FLAG \<and> CHR ''='' \<notin> set name"
    then show "argparser_parse_long_option E parser name (h, stream) =
              (case option_try_set_at E opt tok (upd_opt h opt (\<lambda>x. x\<lparr>found := True\<rparr>)) of
                 Inl e \<Rightarrow> Inl e
               | Inr h1 \<Rightarrow>
                  if greedy (opt_mem h1 opt)
                  then greedy_loop E opt (h1, snd (argstream_next stream))
                  else Inr (h1, snd (argstream_next stream)))"
      using value_goes_to_long_option[of h parser name opt stream E] v assms(3) by simp
  }
  {
    assume a: "map_get (options (parser_mem h parser)) [c] = Some sopt \<and>
          otype (opt_mem h sopt) \<noteq> FLAG \<and> CHR ''='' \<notin> set (c # cs)"
    then have "argparser_parse_short_option E parser (c # cs) (h, stream) =
        short_option_loop E parser (c # cs) (h, stream)"
      by (simp add: argparser_parse_short_option_def)
    with a show "argparser_parse_short_option E parser (c # cs) (h, stream) =
              (case option_try_set_at E sopt tok (upd_opt h sopt (\<lambda>x. x\<lparr>found := True\<rparr>)) of
                 Inl e \<Rightarrow> Inl e
               | Inr h1 \<Rightarrow>
                  (case (if greedy (opt_mem h1 sopt)
                         then greedy_loop E sopt (h1, snd (argstream_next stream))
                         else Inr (h1, snd (argstream_next stream))) of
                     Inl e \<Rightarrow> Inl e
                   | Inr st1 \<Rightarrow> short_option_loop E parser cs st1))"
      using value_goes_to_short_option[of h parser c sopt stream E cs] v assms(3) by simp
  }
  {
    assume "argstream_has_next hs \<and> argstream_peek hs = ''help'' \<and>
          \<not> map_contains (commands (parser_mem h parser)) ''help'' \<and>
          argstream_has_next (snd (argstream_next hs))"
    then show "\<exists>e. parse_stream_loop E True parser (h, hs) = Inl e"
      using help_takes_any_token[of hs h parser E] by blast
  }
qed

text \<open>
  The theorem at the token \<^verbatim>\<open>-5\<close>, after \<^verbatim>\<open>-a\<close> and after \<^verbatim>\<open>help\<close>, where \<^verbatim>\<open>a\<close> is a string
  option, and at the token \<^verbatim>\<open>-\<close> after \<^verbatim>\<open>--ids\<close>, where \<^verbatim>\<open>ids\<close> is a list of integers. The
  whole parse of \<^verbatim>\<open>-a -5 -\<close> leaves \<^verbatim>\<open>-5\<close> as the value of \<^verbatim>\<open>a\<close> and \<^verbatim>\<open>-\<close> as a positional
  argument, that of \<^verbatim>\<open>--tags - -7\<close> leaves both tokens in the greedy list \<^verbatim>\<open>tags\<close>, and that
  of \<^verbatim>\<open>--ids -\<close> exits.
\<close>

theorem dash_and_number_tokens_witness:
  "(''-5'' = CHR ''-'' # CHR ''5'' # [] \<and> isdigit CHR ''5'') \<and>
   argstream_has_next \<lparr>index = 1, args = [''-a'', ''-5'']\<rparr> \<and>
   argstream_peek \<lparr>index = 1, args = [''-a'', ''-5'']\<rparr> = ''-5'' \<and>
   argstream_has_next_value \<lparr>index = 1, args = [''-a'', ''-5'']\<rparr> \<and>
   parse_stream_loop quiet_extern True 0 (ab_heap, \<lparr>index = 1, args = [''-a'', ''-5'']\<rparr>) =
     parse_stream_loop quiet_extern True 0
       (upd_parser ab_heap 0 (\<lambda>ps. ps\<lparr>arguments := arglist_append (arguments ps) ''-5''\<rparr>),
        snd (argstream_next \<lparr>index = 1, args = [''-a'', ''-5'']\<rparr>)) \<and>
   map_get (options (parser_mem ab_heap 0)) ''a'' = Some 0 \<and>
   otype (opt_mem ab_heap 0) \<noteq> FLAG \<and> CHR ''='' \<notin> set ''a'' \<and>
   argparser_parse_long_option quiet_extern 0 ''a''
       (ab_heap, \<lparr>index = 1, args = [''-a'', ''-5'']\<rparr>) =
     (case option_try_set_at quiet_extern 0 ''-5''
             (upd_opt ab_heap 0 (\<lambda>x. x\<lparr>found := True\<rparr>)) of
        Inl e \<Rightarrow> Inl e
      | Inr h1 \<Rightarrow>
         if greedy (opt_mem h1 0)
         then greedy_loop quiet_extern 0
                (h1, snd (argstream_next \<lparr>index = 1, args = [''-a'', ''-5'']\<rparr>))
         else Inr (h1, snd (argstream_next \<lparr>index = 1, args = [''-a'', ''-5'']\<rparr>))) \<and>
   argparser_parse_short_option quiet_extern 0 ''a''
       (ab_heap, \<lparr>index = 1, args = [''-a'', ''-5'']\<rparr>) =
     (case option_try_set_at quiet_extern 0 ''-5''
             (upd_opt ab_heap 0 (\<lambda>x. x\<lparr>found := True\<rparr>)) of
        Inl e \<Rightarrow> Inl e
      | Inr h1 \<Rightarrow>
         (case (if greedy (opt_mem h1 0)
                then greedy_loop quiet_extern 0
                       (h1, snd (argstream_next \<lparr>index = 1, args = [''-a'', ''-5'']\<rparr>))
                else Inr (h1, snd (argstream_next \<lparr>index = 1, args = [''-a'', ''-5'']\<rparr>))) of
            Inl e \<Rightarrow> Inl e
          | Inr st1 \<Rightarrow> short_option_loop quiet_extern 0 [] st1)) \<and>
   option_try_set_at quiet_extern 0 ''-5'' ab_heap =
     Inr (upd_opt ab_heap 0 (\<lambda>x. x\<lparr>vals := vals x @ [str_val ''-5'']\<rparr>)) \<and>
   argstream_has_next \<lparr>index = 0, args = [''help'', ''-5'']\<rparr> \<and>
   argstream_peek \<lparr>index = 0, args = [''help'', ''-5'']\<rparr> = ''help'' \<and>
   \<not> map_contains (commands (parser_mem ab_heap 0)) ''help'' \<and>
   argstream_has_next (snd (argstream_next \<lparr>index = 0, args = [''help'', ''-5'']\<rparr>)) \<and>
   (\<exists>e. parse_stream_loop quiet_extern True 0
          (ab_heap, \<lparr>index = 0, args = [''help'', ''-5'']\<rparr>) = Inl e) \<and>
   argstream_has_next \<lparr>index = 1, args = [''--ids'', ''-'']\<rparr> \<and>
   argstream_peek \<lparr>index = 1, args = [''--ids'', ''-'']\<rparr> = ''-'' \<and>
   map_get (options (parser_mem nums_heap 0)) ''ids'' = Some 0 \<and>
   otype (opt_mem nums_heap 0) = INTEGER \<and> CHR ''='' \<notin> set ''ids'' \<and>
   argparser_parse_long_option whole_extern 0 ''ids''
       (nums_heap, \<lparr>index = 1, args = [''--ids'', ''-'']\<rparr>) =
     err (''cannot parse '' @ [quote] @ ''-'' @ [quote] @ '' as an integer'') \<and>
   (case ap_parse quiet_extern 0 [''app'', ''-a'', ''-5'', ''-''] ab_heap of
      Inl e \<Rightarrow> Inl e
    | Inr h \<Rightarrow> Inr (ap_get_str h 0 ''a'', ap_get_args h 0)) =
   Inr (Inr ''-5'', [''-'']) \<and>
   (case ap_parse quiet_extern 0 [''app'', ''--tags'', ''-'', ''-7''] tags_heap of
      Inl e \<Rightarrow> Inl e
    | Inr h \<Rightarrow> Inr (ap_get_str_list h 0 ''tags'', ap_get_args h 0)) =
   Inr (Inr [''-'', ''-7''], []) \<and>
   (case ap_parse whole_extern 0 [''app'', ''--ids'', ''-''] nums_heap of
      Inl e \<Rightarrow> Inl e
    | Inr h \<Rightarrow> Inr (ap_len_list h 0 ''ids'', ap_get_args h 0)) =
   err (''cannot parse '' @ [quote] @ ''-'' @ [quote] @ '' as an integer'')"
proof -
  let ?s = "\<lparr>index = 1, args = [''-a'', ''-5'']\<rparr>"
  let ?hs = "\<lparr>index = 0, args = [''help'', ''-5'']\<rparr>"
  let ?is = "\<lparr>index = 1, args = [''--ids'', ''-'']\<rparr>"
  have t: "''-5'' = ''-'' \<or> (''-5'' = CHR ''-'' # CHR ''5'' # [] \<and> isdigit CHR ''5'')"
    and t': "''-5'' = CHR ''-'' # CHR ''5'' # [] \<and> isdigit CHR ''5''"
    and td: "''-'' = ''-'' \<or> (''-'' = CHR ''-'' # CHR ''5'' # [] \<and> isdigit CHR ''5'')"
    by (simp_all add: isdigit_def)
  have n: "argstream_has_next ?s" and p: "argstream_peek ?s = ''-5''"
    and hn: "argstream_has_next ?hs" and hp: "argstream_peek ?hs = ''help''"
    and hm: "argstream_has_next (snd (argstream_next ?hs))"
    and ni: "argstream_has_next ?is" and pi: "argstream_peek ?is = ''-''"
    by (simp_all add: stream_defs)
  have r: "map_get (options (parser_mem ab_heap 0)) ''a'' = Some 0"
    and ty: "otype (opt_mem ab_heap 0) \<noteq> FLAG"
    and ts: "otype (opt_mem ab_heap 0) = STRING"
    and c: "\<not> map_contains (commands (parser_mem ab_heap 0)) ''help''"
    by (simp_all add: ab_heap_def register_defs heap_defs option_defs)
  have ri: "map_get (options (parser_mem nums_heap 0)) ''ids'' = Some 0"
    and ti: "otype (opt_mem nums_heap 0) = INTEGER"
    and gi: "otype (opt_mem (upd_opt nums_heap 0 (\<lambda>x. x\<lparr>found := True\<rparr>)) 0) = INTEGER"
    by (simp_all add: nums_heap_def register_defs heap_defs option_defs
        ap_add_int_list_def argparser_add_int_list_def option_new_int_list_def
        ap_add_float_list_def argparser_add_float_list_def option_new_float_list_def)
  have e: "CHR ''='' \<notin> set ''a''" and ei: "CHR ''='' \<notin> set ''ids''" by simp_all
  have whole: "(case ap_parse quiet_extern 0 [''app'', ''-a'', ''-5'', ''-''] ab_heap of
      Inl e \<Rightarrow> Inl e
    | Inr h \<Rightarrow> Inr (ap_get_str h 0 ''a'', ap_get_args h 0)) =
   Inr (Inr ''-5'', [''-''])"
    by code_simp
  have run: "(case ap_parse quiet_extern 0 [''app'', ''--tags'', ''-'', ''-7''] tags_heap of
      Inl e \<Rightarrow> Inl e
    | Inr h \<Rightarrow> Inr (ap_get_str_list h 0 ''tags'', ap_get_args h 0)) =
   Inr (Inr [''-'', ''-7''], [])"
    by code_simp
  have refused: "(case ap_parse whole_extern 0 [''app'', ''--ids'', ''-''] nums_heap of
      Inl e \<Rightarrow> Inl e
    | Inr h \<Rightarrow> Inr (ap_len_list h 0 ''ids'', ap_get_args h 0)) =
   err (''cannot parse '' @ [quote] @ ''-'' @ [quote] @ '' as an integer'')"
    by code_simp
  note a = dash_and_number_tokens[OF t n p, where E = quiet_extern and parsing = True
      and parser = 0 and h = ab_heap and name = "''a''" and opt = 0 and c = "CHR ''a''"
      and cs = "[]" and sopt = 0 and gopt = 0 and vopt = 0 and s = ?s and hs = ?hs]
  note b = dash_and_number_tokens[OF td ni pi, where E = whole_extern and parsing = True
      and parser = 0 and h = "upd_opt nums_heap 0 (\<lambda>x. x\<lparr>found := True\<rparr>)" and vopt = 0]
  note b' = dash_and_number_tokens[OF td ni pi, where E = whole_extern and parsing = True
      and parser = 0 and h = nums_heap and name = "''ids''" and opt = 0]
  note c2 = conjunct2
  have 1: "argstream_has_next_value ?s"
    by (rule a[THEN conjunct1])
  have 2: "parse_stream_loop quiet_extern True 0 (ab_heap, ?s) =
     parse_stream_loop quiet_extern True 0
       (upd_parser ab_heap 0 (\<lambda>ps. ps\<lparr>arguments := arglist_append (arguments ps) ''-5''\<rparr>),
        snd (argstream_next ?s))"
    by (rule a[THEN c2, THEN conjunct1])
  have re: "map_get (options (parser_mem ab_heap 0)) ''a'' = Some 0 \<and>
         otype (opt_mem ab_heap 0) \<noteq> FLAG \<and> CHR ''='' \<notin> set ''a''"
    using r ty e by blast
  have 3: "argparser_parse_long_option quiet_extern 0 ''a'' (ab_heap, ?s) =
     (case option_try_set_at quiet_extern 0 ''-5''
             (upd_opt ab_heap 0 (\<lambda>x. x\<lparr>found := True\<rparr>)) of
        Inl e \<Rightarrow> Inl e
      | Inr h1 \<Rightarrow>
         if greedy (opt_mem h1 0)
         then greedy_loop quiet_extern 0 (h1, snd (argstream_next ?s))
         else Inr (h1, snd (argstream_next ?s)))"
    by (rule a[THEN c2, THEN c2, THEN conjunct1, THEN mp, OF re])
  have 4: "argparser_parse_short_option quiet_extern 0 ''a'' (ab_heap, ?s) =
     (case option_try_set_at quiet_extern 0 ''-5''
             (upd_opt ab_heap 0 (\<lambda>x. x\<lparr>found := True\<rparr>)) of
        Inl e \<Rightarrow> Inl e
      | Inr h1 \<Rightarrow>
         (case (if greedy (opt_mem h1 0)
                then greedy_loop quiet_extern 0 (h1, snd (argstream_next ?s))
                else Inr (h1, snd (argstream_next ?s))) of
            Inl e \<Rightarrow> Inl e
          | Inr st1 \<Rightarrow> short_option_loop quiet_extern 0 [] st1))"
    by (rule a[THEN c2, THEN c2, THEN c2, THEN conjunct1, THEN mp, OF re])
  have 5: "option_try_set_at quiet_extern 0 ''-5'' ab_heap =
     Inr (upd_opt ab_heap 0 (\<lambda>x. x\<lparr>vals := vals x @ [str_val ''-5'']\<rparr>))"
    using a[THEN c2, THEN c2, THEN c2, THEN c2, THEN c2, THEN conjunct1] ts by simp
  have he: "argstream_has_next ?hs \<and> argstream_peek ?hs = ''help'' \<and>
          \<not> map_contains (commands (parser_mem ab_heap 0)) ''help'' \<and>
          argstream_has_next (snd (argstream_next ?hs))"
    using hn hp c hm by blast
  have 6: "\<exists>e. parse_stream_loop quiet_extern True 0 (ab_heap, ?hs) = Inl e"
    by (rule a[THEN c2, THEN c2, THEN c2, THEN c2, THEN c2, THEN c2, THEN c2, THEN c2,
          THEN mp, OF he])
  have 7: "option_try_set_at whole_extern 0 ''-''
       (upd_opt nums_heap 0 (\<lambda>x. x\<lparr>found := True\<rparr>)) =
     err (''cannot parse '' @ [quote] @ ''-'' @ [quote] @ '' as an integer'')"
    using b[THEN c2, THEN c2, THEN c2, THEN c2, THEN c2, THEN conjunct1]
      b[THEN c2, THEN c2, THEN c2, THEN c2, THEN c2, THEN c2, THEN conjunct1] gi
    by (simp add: err_def)
  have ie: "map_get (options (parser_mem nums_heap 0)) ''ids'' = Some 0 \<and>
         otype (opt_mem nums_heap 0) \<noteq> FLAG \<and> CHR ''='' \<notin> set ''ids''"
    using ri ti ei by simp
  have 8: "argparser_parse_long_option whole_extern 0 ''ids'' (nums_heap, ?is) =
     err (''cannot parse '' @ [quote] @ ''-'' @ [quote] @ '' as an integer'')"
    using b'[THEN c2, THEN c2, THEN conjunct1, THEN mp, OF ie] 7
    by (simp add: err_def)
  from t' have t1: "''-5'' = CHR ''-'' # CHR ''5'' # []" and t2: "isdigit CHR ''5''"
    by blast+
  from t1 t2 n p 1 2 r ty e 3 4 5 hn hp c hm 6 ni pi ri ti ei 8 whole run refused show ?thesis
    by (intro conjI)
qed

text \<open>
  C5 as stated fails after \<^verbatim>\<open>help\<close>: in \<^verbatim>\<open>help -5\<close> the token \<^verbatim>\<open>-5\<close> is neither the value
  of an option nor a positional argument, it is taken as a command name, and the process
  exits.
\<close>

theorem help_takes_the_number_counterexample:
  "ap_parse quiet_extern 0 [''app'', ''help'', ''-5''] name_heap =
     err ([quote] @ ''-5'' @ [quote] @ '' is not a recognised command'')"
  by (simp add: name_heap_def register_defs parse_defs heap_defs option_defs err_def)

end
